(* ===== verification/Prelude.thy ===== *)
theory Prelude
  imports Main "HOL-Library.Word"
begin

text \<open>
  Shared vocabulary of the development: the machine integers, instants and strings of the Rust
  sources, fallible results as sums, the runner that executes a list of commands against an
  aggregate, and the generic lemmas the component theories rely on.

  Conventions.  \<open>u8\<close>, \<open>u32\<close> and \<open>u64\<close> are words, so \<open>+\<close> wraps as it does in a
  release build.  \<open>i64\<close> values are \<open>int\<close>s with the saturation or the range check written
  out where the source has one.  An instant (\<open>DateTime<Utc>\<close>, \<open>Instant\<close>) is an \<open>int\<close>
  or \<open>nat\<close> count of nanoseconds, the precision both types have.  A Rust \<open>String\<close> is the list
  of its UTF-8 bytes.  \<open>Result<T, E>\<close> is \<open>'e + 'a\<close> with the error on the left.
\<close>

type_synonym u8 = "8 word"
type_synonym u32 = "32 word"
type_synonym u64 = "64 word"
type_synonym i64 = int
type_synonym datetime = int
type_synonym bytes = "u8 list"
type_synonym uuid = "128 word"
type_synonym u16 = "16 word"

named_theorems wf_intros "introduction rules for the well-formedness invariants"
named_theorems state_defs "the combinators of stateful handlers"

section \<open>Results\<close>

definition bind_res :: "'e + 'a \<Rightarrow> ('a \<Rightarrow> 'e + 'b) \<Rightarrow> 'e + 'b" where
  "bind_res m f = (case m of Inl e \<Rightarrow> Inl e | Inr x \<Rightarrow> f x)"

definition guard_res :: "bool \<Rightarrow> 'e \<Rightarrow> 'e + unit" where
  "guard_res b e = (if b then Inr () else Inl e)"

definition is_ok :: "'e + 'a \<Rightarrow> bool" where
  "is_ok m = (case m of Inl _ \<Rightarrow> False | Inr _ \<Rightarrow> True)"

lemma bind_res_simps [simp]:
  "bind_res (Inl e) f = Inl e"
  "bind_res (Inr x) f = f x"
  by (simp_all add: bind_res_def)

lemma bind_res_Inr_iff:
  "bind_res m f = Inr y \<longleftrightarrow> (\<exists>x. m = Inr x \<and> f x = Inr y)"
  by (cases m) auto

lemma bind_res_Inl_iff:
  "bind_res m f = Inl e \<longleftrightarrow> m = Inl e \<or> (\<exists>x. m = Inr x \<and> f x = Inl e)"
  by (cases m) auto

lemma guard_res_simps [simp]:
  "guard_res True e = Inr ()"
  "guard_res False e = Inl e"
  "guard_res b e = Inr u \<longleftrightarrow> b"
  "guard_res b e = Inl e' \<longleftrightarrow> \<not> b \<and> e = e'"
  by (auto simp: guard_res_def)

lemma is_ok_simps [simp]: "is_ok (Inl e) = False" "is_ok (Inr x) = True"
  by (simp_all add: is_ok_def)

lemma is_ok_iff: "is_ok m \<longleftrightarrow> (\<exists>x. m = Inr x)"
  by (cases m) auto

text \<open>\<open>map_err\<close> with a constant error, \<open>Option::transpose\<close> and \<open>collect\<close> into a \<open>Result\<close>.\<close>

definition err_const :: "'e \<Rightarrow> 'd + 'a \<Rightarrow> 'e + 'a" where
  "err_const e m = (case m of Inl _ \<Rightarrow> Inl e | Inr x \<Rightarrow> Inr x)"

definition opt_res :: "('a \<Rightarrow> 'e + 'b) \<Rightarrow> 'a option \<Rightarrow> 'e + 'b option" where
  "opt_res f v = (case v of None \<Rightarrow> Inr None | Some x \<Rightarrow> bind_res (f x) (\<lambda>y. Inr (Some y)))"

primrec collect_res :: "('a \<Rightarrow> 'e + 'b) \<Rightarrow> 'a list \<Rightarrow> 'e + 'b list" where
  "collect_res f [] = Inr []"
| "collect_res f (x # xs) = bind_res (f x) (\<lambda>y. bind_res (collect_res f xs) (\<lambda>ys. Inr (y # ys)))"

lemma err_const_simps [simp]: "err_const e (Inr x) = Inr x" "err_const e (Inl d) = Inl e"
  by (simp_all add: err_const_def)

lemma opt_res_simps [simp]:
  "opt_res f None = Inr None" "f x = Inr y \<Longrightarrow> opt_res f (Some x) = Inr (Some y)"
  by (simp_all add: opt_res_def)

lemma collect_res_map:
  "(\<And>x. x \<in> set xs \<Longrightarrow> f (g x) = Inr x) \<Longrightarrow> collect_res f (map g xs) = Inr xs"
  by (induction xs) simp_all

section \<open>Fallible steps on a state\<close>

text \<open>
  A handler that reads and writes stores is a function from the state to its answer and the state it
  leaves.  An error ends the handler (\<open>?\<close>); the writes made before it stay.
\<close>

definition st_bind ::
  "('s \<Rightarrow> ('e + 'a) \<times> 's) \<Rightarrow> ('a \<Rightarrow> 's \<Rightarrow> ('e + 'b) \<times> 's) \<Rightarrow> 's \<Rightarrow> ('e + 'b) \<times> 's" where
  "st_bind m f s = (case m s of (Inl e, s') \<Rightarrow> (Inl e, s') | (Inr x, s') \<Rightarrow> f x s')"

definition st_lift :: "'e + 'a \<Rightarrow> 's \<Rightarrow> ('e + 'a) \<times> 's" where
  "st_lift r s = (r, s)"

definition st_read :: "('s \<Rightarrow> 'a) \<Rightarrow> 's \<Rightarrow> ('e + 'a) \<times> 's" where
  "st_read f s = (Inr (f s), s)"

definition st_modify :: "('s \<Rightarrow> 's) \<Rightarrow> 's \<Rightarrow> ('e + unit) \<times> 's" where
  "st_modify f s = (Inr (), f s)"

definition st_try :: "('s \<Rightarrow> 'e + 's) \<Rightarrow> 's \<Rightarrow> ('e + unit) \<times> 's" where
  "st_try f s = (case f s of Inl e \<Rightarrow> (Inl e, s) | Inr s' \<Rightarrow> (Inr (), s'))"

primrec st_each :: "('a \<Rightarrow> 's \<Rightarrow> ('e + unit) \<times> 's) \<Rightarrow> 'a list \<Rightarrow> 's \<Rightarrow> ('e + unit) \<times> 's" where
  "st_each f [] = st_lift (Inr ())"
| "st_each f (x # xs) = st_bind (f x) (\<lambda>_. st_each f xs)"

text \<open>
  A call of a remote store over the network may fail before the store has executed it, or after: then
  the caller sees the same error and the store has changed.
\<close>

datatype net_fault = NotRun string | ReplyLost string

definition remote_call ::
  "net_fault option \<Rightarrow> (string \<Rightarrow> 'e) \<Rightarrow> ('s \<Rightarrow> ('e + 'a) \<times> 's) \<Rightarrow> 's \<Rightarrow> ('e + 'a) \<times> 's" where
  "remote_call fault err script s =
     (case fault of
        None \<Rightarrow> script s
      | Some (NotRun reason) \<Rightarrow> (Inl (err reason), s)
      | Some (ReplyLost reason) \<Rightarrow> (Inl (err reason), snd (script s)))"

lemmas [state_defs] = st_bind_def st_lift_def st_read_def st_modify_def st_try_def

lemma st_bind_Inr_iff:
  "st_bind m f s = (Inr y, s'') \<longleftrightarrow> (\<exists>x s'. m s = (Inr x, s') \<and> f x s' = (Inr y, s''))"
  by (auto simp: st_bind_def split: prod.splits sum.splits)

lemma st_step_Inr_iff:
  "st_lift r s = (Inr x, s') \<longleftrightarrow> r = Inr x \<and> s' = s"
  "st_read f s = (Inr y, s') \<longleftrightarrow> y = f s \<and> s' = s"
  "st_modify g s = (Inr u, s') \<longleftrightarrow> s' = g s"
  "st_try h s = (Inr v, s') \<longleftrightarrow> h s = Inr s'"
  by (auto simp: st_lift_def st_read_def st_modify_def st_try_def split: sum.splits)

lemmas st_Inr_iffs = st_bind_Inr_iff st_step_Inr_iff

lemma st_bind_eval:
  "m s = (Inr x, s') \<Longrightarrow> st_bind m f s = f x s'"
  "m s = (Inl e, s') \<Longrightarrow> st_bind m f s = (Inl e, s')"
  by (simp_all add: st_bind_def)

definition ok_or :: "'e \<Rightarrow> 'a option \<Rightarrow> 'e + 'a" where
  "ok_or e x = (case x of None \<Rightarrow> Inl e | Some y \<Rightarrow> Inr y)"

lemma ok_or_simps [simp]: "ok_or e None = Inl e" "ok_or e (Some y) = Inr y"
  by (simp_all add: ok_or_def)

text \<open>
  Pre- and postconditions of such a step: \<open>Q\<close> holds of the answer and the state when it succeeds,
  \<open>E\<close> of the state an error leaves.
\<close>

definition st_hoare ::
  "('s \<Rightarrow> bool) \<Rightarrow> ('s \<Rightarrow> ('e + 'a) \<times> 's) \<Rightarrow> ('a \<Rightarrow> 's \<Rightarrow> bool) \<Rightarrow> ('s \<Rightarrow> bool) \<Rightarrow> bool" where
  "st_hoare P m Q E \<longleftrightarrow>
     (\<forall>s. P s \<longrightarrow> (case m s of (Inl e, s') \<Rightarrow> E s' | (Inr x, s') \<Rightarrow> Q x s'))"

abbreviation st_keeps :: "('s \<Rightarrow> bool) \<Rightarrow> ('s \<Rightarrow> ('e + 'a) \<times> 's) \<Rightarrow> bool" where
  "st_keeps P m \<equiv> st_hoare P m (\<lambda>_. P) P"

named_theorems hoare_rules "proof rules of stateful handlers"

lemma st_keepsD: "st_keeps P m \<Longrightarrow> P s \<Longrightarrow> m s = (r, s') \<Longrightarrow> P s'"
  by (cases r) (force simp: st_hoare_def)+

lemma st_hoareD: "st_hoare P m Q E \<Longrightarrow> P s \<Longrightarrow> m s = (Inr x, s') \<Longrightarrow> Q x s'"
  by (force simp: st_hoare_def)

lemma st_hoare_errD: "st_hoare P m Q E \<Longrightarrow> P s \<Longrightarrow> m s = (Inl e, s') \<Longrightarrow> E s'"
  by (force simp: st_hoare_def)

lemma st_hoare_bind [hoare_rules]:
  assumes "st_hoare P m R E" and "\<And>x. st_hoare (R x) (f x) Q E"
  shows "st_hoare P (st_bind m f) Q E"
  unfolding st_hoare_def
proof (intro allI impI)
  fix s assume "P s"
  then have "case m s of (Inl e, s') \<Rightarrow> E s' | (Inr x, s') \<Rightarrow> R x s'"
    using assms(1) by (simp add: st_hoare_def)
  then show "case st_bind m f s of (Inl e, s') \<Rightarrow> E s' | (Inr x, s') \<Rightarrow> Q x s'"
    using assms(2) by (cases "m s"; cases "fst (m s)") (auto simp: st_bind_def st_hoare_def)
qed

lemma st_hoare_weaken:
  "st_hoare P m Q E \<Longrightarrow> (\<And>s. P' s \<Longrightarrow> P s) \<Longrightarrow> (\<And>x s. Q x s \<Longrightarrow> Q' x s) \<Longrightarrow> (\<And>s. E s \<Longrightarrow> E' s) \<Longrightarrow>
   st_hoare P' m Q' E'"
  by (fastforce simp: st_hoare_def split: prod.splits sum.splits)

lemma st_hoare_lift [hoare_rules]:
  "(\<And>s x. P s \<Longrightarrow> r = Inr x \<Longrightarrow> Q x s) \<Longrightarrow> (\<And>s e. P s \<Longrightarrow> r = Inl e \<Longrightarrow> E s) \<Longrightarrow> st_hoare P (st_lift r) Q E"
  by (auto simp: st_hoare_def st_lift_def split: sum.splits)

lemma st_hoare_read [hoare_rules]: "(\<And>s. P s \<Longrightarrow> Q (f s) s) \<Longrightarrow> st_hoare P (st_read f) Q E"
  by (simp add: st_hoare_def st_read_def)

lemma st_hoare_modify [hoare_rules]: "(\<And>s. P s \<Longrightarrow> Q () (f s)) \<Longrightarrow> st_hoare P (st_modify f) Q E"
  by (simp add: st_hoare_def st_modify_def)

lemma st_hoare_try [hoare_rules]:
  "(\<And>s s'. P s \<Longrightarrow> f s = Inr s' \<Longrightarrow> Q () s') \<Longrightarrow> (\<And>s. P s \<Longrightarrow> E s) \<Longrightarrow> st_hoare P (st_try f) Q E"
  by (auto simp: st_hoare_def st_try_def split: sum.splits)

lemma st_keeps_each [hoare_rules]: "(\<And>x. st_keeps P (f x)) \<Longrightarrow> st_keeps P (st_each f xs)"
  by (induction xs) (auto intro: st_hoare_bind st_hoare_lift)

lemma st_keeps_bind: "st_keeps P m \<Longrightarrow> (\<And>x. st_keeps P (f x)) \<Longrightarrow> st_keeps P (st_bind m f)"
  by (rule st_hoare_bind)

lemma st_hoare_bind_lift:
  "(\<And>x. r = Inr x \<Longrightarrow> st_hoare P (f x) Q E) \<Longrightarrow> (\<And>s e. r = Inl e \<Longrightarrow> P s \<Longrightarrow> E s) \<Longrightarrow>
   st_hoare P (st_bind (st_lift r) f) Q E"
  by (cases r) (auto simp: st_hoare_def st_bind_def st_lift_def)

lemma st_hoare_bind_read:
  "(\<And>x. st_hoare (\<lambda>s. P s \<and> x = f s) (g x) Q E) \<Longrightarrow> st_hoare P (st_bind (st_read f) g) Q E"
  by (auto simp: st_hoare_def st_bind_def st_read_def)

text \<open>A fact about the values read so far, which no longer mentions the state.\<close>

lemma st_hoare_fact: "(\<And>s. P s \<Longrightarrow> C) \<Longrightarrow> (C \<Longrightarrow> st_hoare P m Q E) \<Longrightarrow> st_hoare P m Q E"
  by (auto simp: st_hoare_def)

lemma st_keeps_bind_read:
  assumes "\<And>s. P s \<Longrightarrow> C (f s)" and "\<And>x. C x \<Longrightarrow> st_keeps P (g x)"
  shows "st_keeps P (st_bind (st_read f) g)"
proof (rule st_hoare_bind_read)
  fix x
  have "st_hoare P (g x) (\<lambda>_. P) P" if "C x" using assms(2) that .
  then show "st_hoare (\<lambda>s. P s \<and> x = f s) (g x) (\<lambda>_. P) P"
    using assms(1) by (force simp: st_hoare_def)
qed

section \<open>Signed 64-bit arithmetic\<close>

definition i64_max :: int where "i64_max = 9223372036854775807"
definition i64_min :: int where "i64_min = -9223372036854775808"

definition in_i64 :: "int \<Rightarrow> bool" where
  "in_i64 x \<longleftrightarrow> i64_min \<le> x \<and> x \<le> i64_max"

definition sat_i64 :: "int \<Rightarrow> int" where
  "sat_i64 x = max i64_min (min i64_max x)"

definition saturating_add_i64 :: "i64 \<Rightarrow> i64 \<Rightarrow> i64" where
  "saturating_add_i64 a b = sat_i64 (a + b)"

text \<open>Two's complement wrap-around, what \<open>+\<close> and \<open>-\<close> on \<open>i64\<close> do in a release build.\<close>

definition wrap_i64 :: "int \<Rightarrow> i64" where
  "wrap_i64 x = (x - i64_min) mod 18446744073709551616 + i64_min"

lemma sat_i64_in_range: "in_i64 (sat_i64 x)"
  by (auto simp: in_i64_def sat_i64_def i64_min_def i64_max_def)

lemma sat_i64_id: "in_i64 x \<Longrightarrow> sat_i64 x = x"
  by (auto simp: in_i64_def sat_i64_def)

lemma wrap_i64_in_range: "in_i64 (wrap_i64 x)"
proof -
  have "0 \<le> (x - i64_min) mod 18446744073709551616"
    and "(x - i64_min) mod 18446744073709551616 < 18446744073709551616"
    by simp_all
  then show ?thesis
    by (simp add: in_i64_def wrap_i64_def i64_min_def i64_max_def)
qed

lemma wrap_i64_id: "in_i64 x \<Longrightarrow> wrap_i64 x = x"
proof -
  assume "in_i64 x"
  then have "0 \<le> x - i64_min" and "x - i64_min < 18446744073709551616"
    by (simp_all add: in_i64_def i64_min_def i64_max_def)
  then have "(x - i64_min) mod 18446744073709551616 = x - i64_min"
    by (rule mod_pos_pos_trivial)
  then show ?thesis by (simp add: wrap_i64_def)
qed

section \<open>Unsigned bounds\<close>

lemma unat_u32_bound: "unat (x :: u32) < 4294967296"
  using unsigned_less [of x] by simp

lemma unat_u64_bound: "unat (x :: u64) < 18446744073709551616"
  using unsigned_less [of x] by simp

lemma unat_u32_Suc: "unat (x :: u32) + 1 < 4294967296 \<Longrightarrow> unat (x + 1) = unat x + 1"
  by (simp add: unat_word_ariths)

lemma unat_u64_Suc: "unat (x :: u64) + 1 < 18446744073709551616 \<Longrightarrow> unat (x + 1) = unat x + 1"
  by (simp add: unat_word_ariths)

section \<open>Instants\<close>

text \<open>\<open>DateTime::timestamp_millis\<close> floors, also before the epoch.\<close>

definition timestamp_millis :: "datetime \<Rightarrow> i64" where
  "timestamp_millis t = t div 1000000"

definition timestamp_secs :: "datetime \<Rightarrow> i64" where
  "timestamp_secs t = t div 1000000000"

definition nanos_per_sec :: int where "nanos_per_sec = 1000000000"

section \<open>UTF-8 strings\<close>

definition byte_val :: "char \<Rightarrow> nat" where
  "byte_val c = of_char c"

definition is_continuation :: "char \<Rightarrow> bool" where
  "is_continuation c \<longleftrightarrow> 128 \<le> byte_val c \<and> byte_val c < 192"

text \<open>The scalar values of a string, each as its byte sequence: what \<open>chars()\<close> iterates over.\<close>

function utf8_chars :: "string \<Rightarrow> string list" where
  "utf8_chars [] = []"
| "utf8_chars (c # cs) =
     (c # takeWhile is_continuation cs) # utf8_chars (dropWhile is_continuation cs)"
  by pat_completeness auto
termination
  by (relation "measure length") (simp_all add: length_dropWhile_le le_imp_less_Suc)

definition char_count :: "string \<Rightarrow> nat" where
  "char_count s = length (utf8_chars s)"

text \<open>The encodings of the scalars with the Unicode property \<open>White_Space\<close>.\<close>

definition is_ws_scalar :: "string \<Rightarrow> bool" where
  "is_ws_scalar s =
     (case map byte_val s of
        [a] \<Rightarrow> (9 \<le> a \<and> a \<le> 13) \<or> a = 32
      | [a, b] \<Rightarrow> a = 194 \<and> (b = 133 \<or> b = 160)
      | [a, b, c] \<Rightarrow>
          (a = 225 \<and> b = 154 \<and> c = 128)
          \<or> (a = 226 \<and> b = 128 \<and> (128 \<le> c \<and> c \<le> 138 \<or> c = 168 \<or> c = 169 \<or> c = 175))
          \<or> (a = 226 \<and> b = 129 \<and> c = 159)
          \<or> (a = 227 \<and> b = 128 \<and> c = 128)
      | _ \<Rightarrow> False)"

definition str_trim :: "string \<Rightarrow> string" where
  "str_trim s =
     concat (rev (dropWhile is_ws_scalar (rev (dropWhile is_ws_scalar (utf8_chars s)))))"

definition is_blank :: "string \<Rightarrow> bool" where
  "is_blank s \<longleftrightarrow> str_trim s = []"

text \<open>Evaluation compares bytes as binary integers.\<close>

lemma of_char_int: "(of_char c :: int) = int (byte_val c)"
  by (cases c) (simp add: byte_val_def of_char_def horner_sum_simps)

lemma list_upto_3_cases:
  obtains "s = []" | a where "s = [a]" | a b where "s = [a, b]" | a b c where "s = [a, b, c]"
  | a b c d r where "s = a # b # c # d # r"
  by (metis list.exhaust)

lemma is_ws_scalar_code [code]:
  "is_ws_scalar s =
     (case map of_char s :: int list of
        [a] \<Rightarrow> (9 \<le> a \<and> a \<le> 13) \<or> a = 32
      | [a, b] \<Rightarrow> a = 194 \<and> (b = 133 \<or> b = 160)
      | [a, b, c] \<Rightarrow>
          (a = 225 \<and> b = 154 \<and> c = 128)
          \<or> (a = 226 \<and> b = 128 \<and> (128 \<le> c \<and> c \<le> 138 \<or> c = 168 \<or> c = 169 \<or> c = 175))
          \<or> (a = 226 \<and> b = 129 \<and> c = 159)
          \<or> (a = 227 \<and> b = 128 \<and> c = 128)
      | _ \<Rightarrow> False)"
  by (cases s rule: list_upto_3_cases; simp add: is_ws_scalar_def of_char_int; linarith?)

lemma is_continuation_code [code]: "is_continuation c \<longleftrightarrow> 128 \<le> (of_char c :: int) \<and> (of_char c :: int) < 192"
  unfolding is_continuation_def of_char_int by linarith

lemma concat_utf8_chars: "concat (utf8_chars s) = s"
  by (induction s rule: utf8_chars.induct) auto

lemma utf8_chars_nonempty: "x \<in> set (utf8_chars s) \<Longrightarrow> x \<noteq> []"
  by (induction s rule: utf8_chars.induct) auto

lemma is_blank_Nil [simp]: "is_blank []"
  by (simp add: is_blank_def str_trim_def)

lemma dropWhile_all_iff: "(\<forall>x\<in>set (dropWhile P xs). P x) \<longleftrightarrow> (\<forall>x\<in>set xs. P x)"
  by (induction xs) auto

lemma set_dropWhile_subset: "set (dropWhile P xs) \<subseteq> set xs"
  by (induction xs) auto

lemma is_blank_iff_all_ws: "is_blank s \<longleftrightarrow> (\<forall>c\<in>set (utf8_chars s). is_ws_scalar c)"
proof -
  let ?l = "dropWhile is_ws_scalar (utf8_chars s)"
  let ?r = "dropWhile is_ws_scalar (rev ?l)"
  have "set ?r \<subseteq> set (rev ?l)" by (rule set_dropWhile_subset)
  moreover have "set (rev ?l) \<subseteq> set (utf8_chars s)"
    using set_dropWhile_subset by simp
  ultimately have "\<forall>x\<in>set ?r. x \<noteq> []"
    using utf8_chars_nonempty by blast
  then have "concat (rev ?r) = [] \<longleftrightarrow> ?r = []"
    unfolding concat_eq_Nil_conv set_rev by (metis list.set_intros(1) neq_Nil_conv empty_iff list.set(1))
  also have "\<dots> \<longleftrightarrow> (\<forall>c\<in>set (utf8_chars s). is_ws_scalar c)"
    by (simp add: dropWhile_eq_Nil_conv dropWhile_all_iff)
  finally show ?thesis by (simp add: is_blank_def str_trim_def)
qed

section \<open>Running commands against an aggregate\<close>

text \<open>
  A service executes the commands of one aggregate one after another; a command that returns an
  error leaves the stored aggregate as it was.
\<close>

primrec run_cmds :: "('s \<Rightarrow> 'c \<Rightarrow> 'e + 's) \<Rightarrow> 's \<Rightarrow> 'c list \<Rightarrow> 's" where
  "run_cmds exec s [] = s"
| "run_cmds exec s (c # cs) =
     run_cmds exec (case exec s c of Inl _ \<Rightarrow> s | Inr s' \<Rightarrow> s') cs"

lemma run_cmds_append: "run_cmds exec s (xs @ ys) = run_cmds exec (run_cmds exec s xs) ys"
  by (induction xs arbitrary: s) auto

text \<open>
  The contract every aggregate of the platform has: its commands keep an invariant.  A client of
  the contract may run any number of commands and still rely on the invariant.
\<close>

locale aggregate =
  fixes exec :: "'s \<Rightarrow> 'c \<Rightarrow> 'e + 's"
    and inv :: "'s \<Rightarrow> bool"
  assumes exec_inv: "inv s \<Longrightarrow> exec s c = Inr s' \<Longrightarrow> inv s'"
begin

lemma run_inv: "inv s \<Longrightarrow> inv (run_cmds exec s cs)"
proof (induction cs arbitrary: s)
  case Nil
  then show ?case by simp
next
  case (Cons c cs)
  have "inv (case exec s c of Inl _ \<Rightarrow> s | Inr s' \<Rightarrow> s')"
    using Cons.prems exec_inv by (cases "exec s c") auto
  then show ?case using Cons.IH by simp
qed

end

text \<open>
  An aggregate with absorbing states: once a state is final, every accepted command keeps what
  \<open>view\<close> shows of it.
\<close>

locale absorbing_aggregate = aggregate exec inv
  for exec :: "'s \<Rightarrow> 'c \<Rightarrow> 'e + 's" and inv :: "'s \<Rightarrow> bool" +
  fixes final :: "'s \<Rightarrow> bool"
    and view :: "'s \<Rightarrow> 'v"
  assumes final_step: "inv s \<Longrightarrow> final s \<Longrightarrow> exec s c = Inr s' \<Longrightarrow> final s' \<and> view s' = view s"
begin

lemma run_final:
  "inv s \<Longrightarrow> final s \<Longrightarrow> final (run_cmds exec s cs) \<and> view (run_cmds exec s cs) = view s"
proof (induction cs arbitrary: s)
  case Nil
  then show ?case by simp
next
  case (Cons c cs)
  let ?t = "case exec s c of Inl _ \<Rightarrow> s | Inr s' \<Rightarrow> s'"
  have "inv ?t" using Cons.prems exec_inv by (cases "exec s c") auto
  moreover have "final ?t \<and> view ?t = view s"
    using Cons.prems final_step by (cases "exec s c") auto
  ultimately show ?case using Cons.IH [of ?t] by simp
qed

end

text \<open>
  An aggregate with a life cycle: the status an accepted command leaves is the one it found or one
  the transition graph allows from there.  The concrete commands then refine the graph: the status
  of every reachable state is reachable in the graph.
\<close>

locale lifecycle = aggregate exec inv
  for exec :: "'s \<Rightarrow> 'c \<Rightarrow> 'e + 's" and inv :: "'s \<Rightarrow> bool" +
  fixes status :: "'s \<Rightarrow> 'st"
    and edge :: "'st \<Rightarrow> 'st \<Rightarrow> bool"
  assumes step_edge: "inv s \<Longrightarrow> exec s c = Inr s' \<Longrightarrow> status s' = status s \<or> edge (status s) (status s')"
begin

lemma run_path: "inv s \<Longrightarrow> edge\<^sup>*\<^sup>* (status s) (status (run_cmds exec s cs))"
proof (induction cs arbitrary: s)
  case Nil
  then show ?case by simp
next
  case (Cons c cs)
  let ?t = "case exec s c of Inl _ \<Rightarrow> s | Inr s' \<Rightarrow> s'"
  have "inv ?t" using Cons.prems exec_inv by (cases "exec s c") auto
  moreover have "edge\<^sup>*\<^sup>* (status s) (status ?t)"
    using Cons.prems step_edge [of s c] by (cases "exec s c") (auto intro: r_into_rtranclp)
  ultimately show ?case using Cons.IH [of ?t] by (simp add: rtranclp_trans)
qed

lemma run_stuck:
  "inv s \<Longrightarrow> (\<And>t. \<not> edge (status s) t) \<Longrightarrow> status (run_cmds exec s cs) = status s"
  using run_path by (metis converse_rtranclpE)

end

section \<open>Decimal and hexadecimal rendering\<close>

text \<open>\<open>format!("{}")\<close> of an unsigned integer, and the \<open>{:02x}\<close> rendering of bytes.\<close>

definition digit_char :: "nat \<Rightarrow> char" where
  "digit_char d = ''0123456789abcdef'' ! d"

fun dec_string :: "nat \<Rightarrow> string" where
  "dec_string n = (if n < 10 then [digit_char n] else dec_string (n div 10) @ [digit_char (n mod 10)])"

declare dec_string.simps [simp del]

definition to_hex :: "bytes \<Rightarrow> string" where
  "to_hex bs = concat (map (\<lambda>b. [digit_char (unat b div 16), digit_char (unat b mod 16)]) bs)"

lemma digit_char_inject: "a < 16 \<Longrightarrow> b < 16 \<Longrightarrow> digit_char a = digit_char b \<longleftrightarrow> a = b"
  by (auto simp: digit_char_def nth_eq_iff_index_eq)

lemma to_hex_inject: "to_hex a = to_hex b \<longleftrightarrow> a = b"
proof (induction a arbitrary: b)
  case Nil
  then show ?case by (cases b) (simp_all add: to_hex_def)
next
  case (Cons x a)
  show ?case
  proof (cases b)
    case (Cons y b')
    have lt: "unat z div 16 < 16" "unat z mod 16 < 16" for z :: u8
      using unsigned_less [of z, where ?'a = nat] by simp_all
    have "unat x = unat y" if "unat x div 16 = unat y div 16" "unat x mod 16 = unat y mod 16"
      using that by (metis div_mod_decomp)
    then have "digit_char (unat x div 16) = digit_char (unat y div 16)
        \<and> digit_char (unat x mod 16) = digit_char (unat y mod 16) \<longleftrightarrow> x = y"
      by (auto simp: digit_char_inject lt word_unat_eq_iff)
    then show ?thesis using Cons.IH [of b'] Cons by (auto simp: to_hex_def)
  qed (simp add: to_hex_def)
qed

lemma length_to_hex: "length (to_hex bs) = 2 * length bs"
  by (induction bs) (simp_all add: to_hex_def)

end
