(* ===== verification/CircuitBreaker.thy ===== *)
theory CircuitBreaker
  imports Prelude
begin

text \<open>
  The circuit breaker of \<open>crates/foundation/resilience\<close>: its configuration, the state machine
  behind the mutex (\<open>circuit_breaker/state.rs\<close>), the Tower service that gates a call on it
  (\<open>circuit_breaker/service.rs\<close>), the timeout service around it (\<open>timeout/service.rs\<close>) and the
  stack \<open>Timeout \<rightarrow> CircuitBreaker\<close> that the gRPC client builder composes.  A call is modelled
  twice: as one atomic function, for callers that run one call after another, and as a step
  relation with one step per acquisition of the mutex, for calls that interleave.
\<close>

section \<open>Configuration and state\<close>

record cb_config =
  failure_threshold :: u32
  success_threshold :: u32
  open_duration :: nat
  half_open_max_calls :: u32

definition cb_config_default :: cb_config where
  "cb_config_default =
     \<lparr>failure_threshold = 5, success_threshold = 2, open_duration = 30000000000,
      half_open_max_calls = 1\<rparr>"

datatype circuit_state = Closed | Open | HalfOpen

record cb_inner =
  cb_state :: circuit_state
  open_since :: "nat option"
  consecutive_failures :: u32
  consecutive_successes :: u32
  half_open_inflight :: u32

definition state_machine_new :: cb_inner where
  "state_machine_new =
     \<lparr>cb_state = Closed, open_since = None, consecutive_failures = 0,
      consecutive_successes = 0, half_open_inflight = 0\<rparr>"

text \<open>\<open>Instant::elapsed\<close> saturates at zero, as subtraction on \<open>nat\<close> does.\<close>

definition cooldown_over :: "cb_config \<Rightarrow> nat \<Rightarrow> cb_inner \<Rightarrow> bool" where
  "cooldown_over cfg now m =
     (case open_since m of None \<Rightarrow> False | Some since \<Rightarrow> open_duration cfg \<le> now - since)"

definition circuit_state_of :: "cb_config \<Rightarrow> nat \<Rightarrow> cb_inner \<Rightarrow> circuit_state \<times> cb_inner" where
  "circuit_state_of cfg now m =
     (let m' = (if cb_state m = Open \<and> cooldown_over cfg now m
                then m\<lparr>cb_state := HalfOpen, consecutive_failures := 0, consecutive_successes := 0\<rparr>
                else m)
      in (cb_state m', m'))"

definition on_success :: "cb_config \<Rightarrow> cb_inner \<Rightarrow> cb_inner" where
  "on_success cfg m =
     (let m1 = m\<lparr>consecutive_failures := 0,
                 consecutive_successes := consecutive_successes m + 1\<rparr>
      in if cb_state m1 = HalfOpen \<and> success_threshold cfg \<le> consecutive_successes m1
         then m1\<lparr>cb_state := Closed, half_open_inflight := 0\<rparr>
         else m1)"

definition on_failure :: "cb_config \<Rightarrow> nat \<Rightarrow> cb_inner \<Rightarrow> cb_inner" where
  "on_failure cfg now m =
     (let m1 = m\<lparr>consecutive_successes := 0,
                 consecutive_failures := consecutive_failures m + 1\<rparr>
      in case cb_state m1 of
           Closed \<Rightarrow>
             (if failure_threshold cfg \<le> consecutive_failures m1
              then m1\<lparr>cb_state := Open, open_since := Some now, half_open_inflight := 0\<rparr>
              else m1)
         | HalfOpen \<Rightarrow> m1\<lparr>cb_state := Open, open_since := Some now, half_open_inflight := 0\<rparr>
         | Open \<Rightarrow> m1)"

definition try_acquire_half_open_slot :: "cb_config \<Rightarrow> cb_inner \<Rightarrow> bool \<times> cb_inner" where
  "try_acquire_half_open_slot cfg m =
     (if half_open_inflight m < half_open_max_calls cfg
      then (True, m\<lparr>half_open_inflight := half_open_inflight m + 1\<rparr>)
      else (False, m))"

definition release_half_open_slot :: "cb_inner \<Rightarrow> cb_inner" where
  "release_half_open_slot m =
     m\<lparr>half_open_inflight := (if half_open_inflight m = 0 then 0 else half_open_inflight m - 1)\<rparr>"

section \<open>One call at a time\<close>

datatype 'e resilience_error =
  CircuitOpen | Timeout nat | MaxRetriesExhausted u32 | Inner 'e

text \<open>Step 1 of \<open>call\<close>: the gate.  \<open>None\<close> rejects; \<open>Some was_half_open\<close> admits.\<close>

definition cb_gate :: "cb_config \<Rightarrow> nat \<Rightarrow> cb_inner \<Rightarrow> bool option \<times> cb_inner" where
  "cb_gate cfg now m =
     (case circuit_state_of cfg now m of
        (Open, m1) \<Rightarrow> (None, m1)
      | (HalfOpen, m1) \<Rightarrow>
          (case try_acquire_half_open_slot cfg m1 of
             (ok, m2) \<Rightarrow> (if ok then Some True else None, m2))
      | (Closed, m1) \<Rightarrow> (Some False, m1))"

text \<open>Steps 3 and 4: record the outcome, then give the probe slot back.\<close>

definition cb_record :: "cb_config \<Rightarrow> nat \<Rightarrow> bool \<Rightarrow> 'e + 'a \<Rightarrow> cb_inner \<Rightarrow> cb_inner" where
  "cb_record cfg now was_half_open result m =
     (let m1 = (case result of Inr _ \<Rightarrow> on_success cfg m | Inl _ \<Rightarrow> on_failure cfg now m)
      in if was_half_open then release_half_open_slot m1 else m1)"

text \<open>
  The whole call: \<open>started\<close> is the instant of the gate, \<open>finished\<close> the instant at which the
  inner service answered \<open>result\<close>.
\<close>

definition cb_call ::
  "cb_config \<Rightarrow> nat \<Rightarrow> nat \<Rightarrow> 'e + 'a \<Rightarrow> cb_inner \<Rightarrow> ('e resilience_error + 'a) \<times> cb_inner" where
  "cb_call cfg started finished result m =
     (case cb_gate cfg started m of
        (None, m1) \<Rightarrow> (Inl CircuitOpen, m1)
      | (Some was_half_open, m1) \<Rightarrow>
          (case result of Inl e \<Rightarrow> Inl (Inner e) | Inr x \<Rightarrow> Inr x,
           cb_record cfg finished was_half_open result m1))"

text \<open>
  The timeout service around the breaker: when the inner future takes longer than the deadline it
  is dropped, so nothing after the point where it was suspended runs.  The breaker's future is
  suspended in the inner call, behind its gate and before it records an outcome.
\<close>

definition resilient_call ::
  "nat \<Rightarrow> cb_config \<Rightarrow> nat \<Rightarrow> nat \<Rightarrow> 'e + 'a \<Rightarrow> cb_inner
     \<Rightarrow> ('e resilience_error resilience_error + 'a) \<times> cb_inner" where
  "resilient_call duration cfg started latency result m =
     (case cb_gate cfg started m of
        (None, m1) \<Rightarrow> (Inl (Inner CircuitOpen), m1)
      | (Some was_half_open, m1) \<Rightarrow>
          (if duration < latency then (Inl (Timeout duration), m1)
           else (case result of Inl e \<Rightarrow> Inl (Inner (Inner e)) | Inr x \<Rightarrow> Inr x,
                 cb_record cfg (started + latency) was_half_open result m1)))"

text \<open>A sequence of calls \<open>(started, latency, result)\<close> through the whole stack.\<close>

primrec resilient_run ::
  "nat \<Rightarrow> cb_config \<Rightarrow> cb_inner \<Rightarrow> (nat \<times> nat \<times> ('e + 'a)) list
     \<Rightarrow> ('e resilience_error resilience_error + 'a) list \<times> cb_inner" where
  "resilient_run duration cfg m [] = ([], m)"
| "resilient_run duration cfg m (c # cs) =
     (case c of (started, latency, result) \<Rightarrow>
        (case resilient_call duration cfg started latency result m of
           (r, m1) \<Rightarrow>
             (case resilient_run duration cfg m1 cs of (rs, m2) \<Rightarrow> (r # rs, m2))))"

text \<open>The same without the timeout service.\<close>

primrec cb_run ::
  "cb_config \<Rightarrow> cb_inner \<Rightarrow> (nat \<times> nat \<times> ('e + 'a)) list
     \<Rightarrow> ('e resilience_error + 'a) list \<times> cb_inner" where
  "cb_run cfg m [] = ([], m)"
| "cb_run cfg m (c # cs) =
     (case c of (started, finished, result) \<Rightarrow>
        (case cb_call cfg started finished result m of
           (r, m1) \<Rightarrow> (case cb_run cfg m1 cs of (rs, m2) \<Rightarrow> (r # rs, m2))))"

section \<open>Interleaved calls\<close>

text \<open>
  Where a call is: not started or finished, past \<open>state()\<close> with the answer \<open>HalfOpen\<close>, in the
  inner service (with the flag \<open>was_half_open\<close>), or about to release its slot.
\<close>

datatype call_pc = Ready | Probing | InFlight bool | Releasing

record cb_sys =
  cs_sm :: cb_inner
  cs_now :: nat
  cs_calls :: "nat \<Rightarrow> call_pc"

definition cb_sys_init :: cb_sys where
  "cb_sys_init = \<lparr>cs_sm = state_machine_new, cs_now = 0, cs_calls = (\<lambda>_. Ready)\<rparr>"

primrec after_gate :: "circuit_state \<Rightarrow> call_pc" where
  "after_gate Open = Ready"
| "after_gate HalfOpen = Probing"
| "after_gate Closed = InFlight False"

definition after_record :: "bool \<Rightarrow> call_pc" where
  "after_record was_half_open = (if was_half_open then Releasing else Ready)"

inductive cb_step :: "cb_config \<Rightarrow> cb_sys \<Rightarrow> cb_sys \<Rightarrow> bool" for cfg where
  time_passes: "cb_step cfg s (s\<lparr>cs_now := cs_now s + d\<rparr>)"
| read_state: "cs_calls s i = Ready \<Longrightarrow> circuit_state_of cfg (cs_now s) (cs_sm s) = (st, m) \<Longrightarrow>
    cb_step cfg s (s\<lparr>cs_sm := m, cs_calls := (cs_calls s)(i := after_gate st)\<rparr>)"
| acquire_slot: "cs_calls s i = Probing \<Longrightarrow> try_acquire_half_open_slot cfg (cs_sm s) = (ok, m) \<Longrightarrow>
    cb_step cfg s (s\<lparr>cs_sm := m,
      cs_calls := (cs_calls s)(i := (if ok then InFlight True else Ready))\<rparr>)"
| call_succeeds: "cs_calls s i = InFlight w \<Longrightarrow>
    cb_step cfg s (s\<lparr>cs_sm := on_success cfg (cs_sm s),
      cs_calls := (cs_calls s)(i := after_record w)\<rparr>)"
| call_fails: "cs_calls s i = InFlight w \<Longrightarrow>
    cb_step cfg s (s\<lparr>cs_sm := on_failure cfg (cs_now s) (cs_sm s),
      cs_calls := (cs_calls s)(i := after_record w)\<rparr>)"
| release_slot: "cs_calls s i = Releasing \<Longrightarrow>
    cb_step cfg s (s\<lparr>cs_sm := release_half_open_slot (cs_sm s),
      cs_calls := (cs_calls s)(i := Ready)\<rparr>)"
| future_dropped: "cs_calls s i \<noteq> Ready \<Longrightarrow>
    cb_step cfg s (s\<lparr>cs_calls := (cs_calls s)(i := Ready)\<rparr>)"

inductive cb_reachable :: "cb_config \<Rightarrow> cb_sys \<Rightarrow> bool" for cfg where
  cb_start: "cb_reachable cfg cb_sys_init"
| cb_next: "cb_reachable cfg s \<Longrightarrow> cb_step cfg s t \<Longrightarrow> cb_reachable cfg t"

inductive_cases cb_step_elim: "cb_step cfg s t"

section \<open>The invariant of the state machine\<close>

definition cb_wf :: "cb_config \<Rightarrow> cb_inner \<Rightarrow> bool" where
  "cb_wf cfg m \<longleftrightarrow>
     half_open_inflight m \<le> half_open_max_calls cfg
     \<and> (cb_state m = Open \<longrightarrow> open_since m \<noteq> None)
     \<and> (cb_state m = Closed \<longrightarrow> consecutive_failures m < failure_threshold cfg)
     \<and> (cb_state m = HalfOpen \<longrightarrow>
          consecutive_failures m = 0 \<and> consecutive_successes m < success_threshold cfg)"

lemma word_inc_le: "x < (y :: 'a :: len word) \<Longrightarrow> x + 1 \<le> y"
  by (metis inc_le)

lemma word_dec_le: "x \<noteq> 0 \<Longrightarrow> x \<le> (y :: 'a :: len word) \<Longrightarrow> x - 1 \<le> y"
  by (simp add: word_le_nat_alt unat_minus_one)

lemma cb_wf_new [wf_intros]: "0 < failure_threshold cfg \<Longrightarrow> cb_wf cfg state_machine_new"
  by (simp add: cb_wf_def state_machine_new_def)

lemma cb_wf_state [wf_intros]:
  "0 < success_threshold cfg \<Longrightarrow> cb_wf cfg m \<Longrightarrow> circuit_state_of cfg now m = (st, m') \<Longrightarrow>
   cb_wf cfg m' \<and> st = cb_state m'"
  by (auto simp: cb_wf_def circuit_state_of_def Let_def split: if_splits)

lemma cb_wf_on_success [wf_intros]:
  "0 < failure_threshold cfg \<Longrightarrow> cb_wf cfg m \<Longrightarrow> cb_wf cfg (on_success cfg m)"
  by (auto simp: cb_wf_def on_success_def Let_def not_le)

lemma cb_wf_on_failure [wf_intros]: "cb_wf cfg m \<Longrightarrow> cb_wf cfg (on_failure cfg now m)"
  by (cases "cb_state m") (auto simp: cb_wf_def on_failure_def Let_def not_le)

lemma cb_wf_acquire [wf_intros]:
  "cb_wf cfg m \<Longrightarrow> try_acquire_half_open_slot cfg m = (ok, m') \<Longrightarrow> cb_wf cfg m'"
  by (auto simp: cb_wf_def try_acquire_half_open_slot_def word_inc_le split: if_splits)

lemma cb_wf_release [wf_intros]: "cb_wf cfg m \<Longrightarrow> cb_wf cfg (release_half_open_slot m)"
  by (auto simp: cb_wf_def release_half_open_slot_def word_dec_le)

lemma cb_step_wf:
  assumes "cb_step cfg s t" and "0 < failure_threshold cfg" and "0 < success_threshold cfg"
    and "cb_wf cfg (cs_sm s)"
  shows "cb_wf cfg (cs_sm t)"
  using assms(1)
proof (cases rule: cb_step.cases)
  case (read_state i st m)
  then show ?thesis using assms cb_wf_state by simp
next
  case (acquire_slot i ok m)
  then show ?thesis using assms cb_wf_acquire by simp
qed (use assms in \<open>simp_all add: cb_wf_on_success cb_wf_on_failure cb_wf_release\<close>)

text \<open>
  C5. For every interleaving of calls, cancellations and the passing of time, the breaker keeps
  its invariant: the in-flight counter never exceeds \<open>half_open_max_calls\<close>, an open circuit has
  the instant it opened, a closed circuit has seen fewer consecutive failures than the threshold,
  and a half-open circuit has no failure and fewer successes than the threshold.
\<close>

theorem circuit_breaker_invariant:
  assumes "0 < failure_threshold cfg" and "0 < success_threshold cfg" and "cb_reachable cfg s"
  shows "cb_wf cfg (cs_sm s)"
  using assms(3)
proof (induction rule: cb_reachable.induct)
  case cb_start
  then show ?case using assms(1) by (simp add: cb_sys_init_def cb_wf_new)
next
  case (cb_next s t)
  then show ?case using assms(1,2) cb_step_wf by blast
qed

theorem circuit_breaker_invariant_witness:
  "cb_wf cb_config_default (cs_sm (cb_sys_init\<lparr>cs_now := cs_now cb_sys_init + 7\<rparr>))"
proof (rule circuit_breaker_invariant)
  show "cb_reachable cb_config_default (cb_sys_init\<lparr>cs_now := cs_now cb_sys_init + 7\<rparr>)"
    by (rule cb_next [OF cb_start time_passes])
qed (simp_all add: cb_config_default_def)

section \<open>Tripping, rejecting, recovering\<close>

lemma cb_gate_closed: "cb_state m = Closed \<Longrightarrow> cb_gate cfg t m = (Some False, m)"
  by (simp add: cb_gate_def circuit_state_of_def)

lemma cb_gate_open:
  "cb_state m = Open \<Longrightarrow> \<not> cooldown_over cfg t m \<Longrightarrow> cb_gate cfg t m = (None, m)"
  by (simp add: cb_gate_def circuit_state_of_def)

lemma cb_gate_half_open_free:
  "cb_state m = HalfOpen \<Longrightarrow> half_open_inflight m < half_open_max_calls cfg \<Longrightarrow>
   cb_gate cfg t m = (Some True, m\<lparr>half_open_inflight := half_open_inflight m + 1\<rparr>)"
  by (simp add: cb_gate_def circuit_state_of_def try_acquire_half_open_slot_def)

lemma cb_gate_half_open_full:
  "cb_state m = HalfOpen \<Longrightarrow> \<not> half_open_inflight m < half_open_max_calls cfg \<Longrightarrow>
   cb_gate cfg t m = (None, m)"
  by (simp add: cb_gate_def circuit_state_of_def try_acquire_half_open_slot_def)

lemma cb_gate_cooled:
  "cb_state m = Open \<Longrightarrow> cooldown_over cfg t m \<Longrightarrow>
   cb_gate cfg t m =
     cb_gate cfg t (m\<lparr>cb_state := HalfOpen, consecutive_failures := 0, consecutive_successes := 0\<rparr>)"
  by (simp add: cb_gate_def circuit_state_of_def)

lemmas cb_gate_simps = cb_gate_closed cb_gate_open cb_gate_half_open_free cb_gate_half_open_full

lemma cb_run_append:
  "cb_run cfg m (xs @ ys) =
     (case cb_run cfg m xs of (rs, m1) \<Rightarrow> (case cb_run cfg m1 ys of (rs', m2) \<Rightarrow> (rs @ rs', m2)))"
  by (induction xs arbitrary: m) (auto split: prod.splits)

lemma cb_run_open:
  assumes "cb_state m = Open" and "\<forall>c\<in>set cs. \<not> cooldown_over cfg (fst c) m"
  shows "cb_run cfg m cs = (map (\<lambda>_. Inl CircuitOpen) cs, m)"
  using assms(2)
proof (induction cs)
  case (Cons c cs)
  obtain t f r where c: "c = (t, f, r)" by (cases c)
  with Cons.prems assms(1) have "cb_call cfg t f r m = (Inl CircuitOpen, m)"
    by (simp add: cb_call_def cb_gate_open)
  with Cons c show ?case by simp
qed simp

text \<open>Failures below the threshold are passed through and counted.\<close>

lemma cb_run_failures:
  fixes fs :: "(nat \<times> nat \<times> 'e) list"
  assumes "cb_state m = Closed"
    and "unat (consecutive_failures m) + length fs < unat (failure_threshold cfg)"
  shows "\<exists>m'. cb_run cfg m (map (\<lambda>(t, f, e). (t, f, Inl e :: 'e + 'a)) fs)
            = (map (\<lambda>(t, f, e). Inl (Inner e)) fs, m')
         \<and> cb_state m' = Closed
         \<and> unat (consecutive_failures m') = unat (consecutive_failures m) + length fs"
  using assms
proof (induction fs arbitrary: m)
  case (Cons c fs)
  obtain t f e where c: "c = (t, f, e)" by (cases c)
  let ?m = "on_failure cfg f m"
  have lt: "unat (consecutive_failures m) + 1 < unat (failure_threshold cfg)"
    using Cons.prems(2) by simp
  then have inc: "unat (consecutive_failures m + 1) = unat (consecutive_failures m) + 1"
    using unat_u32_bound [of "failure_threshold cfg"] by (intro unat_u32_Suc) linarith
  with lt have "\<not> failure_threshold cfg \<le> consecutive_failures m + 1"
    by (simp add: word_le_nat_alt)
  with Cons.prems(1) have m: "cb_state ?m = Closed" "consecutive_failures ?m = consecutive_failures m + 1"
    by (simp_all add: on_failure_def Let_def)
  with inc Cons.prems(2) have "unat (consecutive_failures ?m) + length fs < unat (failure_threshold cfg)"
    by simp
  from Cons.IH [OF m(1) this] obtain m' where
    "cb_run cfg ?m (map (\<lambda>(t, f, e). (t, f, Inl e :: 'e + 'a)) fs) = (map (\<lambda>(t, f, e). Inl (Inner e)) fs, m')"
    "cb_state m' = Closed"
    "unat (consecutive_failures m') = unat (consecutive_failures ?m) + length fs" by auto
  moreover have "cb_call cfg t f (Inl e :: 'e + 'a) m = (Inl (Inner e), ?m)"
    using Cons.prems(1) by (simp add: cb_call_def cb_gate_closed cb_record_def)
  ultimately show ?case using c m inc by auto
qed simp

lemma cb_call_trips:
  assumes "cb_state m = Closed" and "unat (consecutive_failures m) + 1 = unat (failure_threshold cfg)"
  shows "\<exists>m'. cb_call cfg t f (Inl e) m = (Inl (Inner e), m') \<and> cb_state m' = Open
           \<and> open_since m' = Some f \<and> half_open_inflight m' = 0"
proof -
  have "unat (consecutive_failures m + 1) = unat (failure_threshold cfg)"
    using assms(2) unat_u32_bound [of "failure_threshold cfg"]
    by (subst unat_u32_Suc) simp_all
  then have "consecutive_failures m + 1 = failure_threshold cfg"
    by (simp add: word_unat_eq_iff)
  with assms(1) show ?thesis
    by (simp add: cb_call_def cb_gate_closed cb_record_def on_failure_def Let_def)
qed

text \<open>
  C6. Exactly \<open>failure_threshold\<close> consecutive failures trip a fresh breaker: those calls reach the
  inner service and surface its errors, and from then on every call that starts before
  \<open>open_duration\<close> has elapsed since the last failure is rejected with \<open>CircuitOpen\<close> without
  touching the inner service or the state.
\<close>

theorem failures_trip_then_reject:
  fixes later :: "(nat \<times> nat \<times> ('e + 'a)) list"
  assumes "length (fs @ [(t, f, e)]) = unat (failure_threshold cfg)"
    and "\<forall>c\<in>set later. fst c - f < open_duration cfg"
  shows "\<exists>m. cb_run cfg state_machine_new (map (\<lambda>(t, f, e). (t, f, Inl e)) (fs @ [(t, f, e)]) @ later)
            = (map (\<lambda>(t, f, e). Inl (Inner e)) (fs @ [(t, f, e)]) @ map (\<lambda>_. Inl CircuitOpen) later, m)
         \<and> cb_state m = Open \<and> open_since m = Some f"
proof -
  obtain m1 where m1:
    "cb_run cfg state_machine_new (map (\<lambda>(t, f, e). (t, f, Inl e :: 'e + 'a)) fs)
       = (map (\<lambda>(t, f, e). Inl (Inner e)) fs, m1)"
    "cb_state m1 = Closed" "unat (consecutive_failures m1) = length fs"
    using cb_run_failures [of state_machine_new fs cfg] assms(1)
    by (auto simp: state_machine_new_def)
  with assms(1) have "unat (consecutive_failures m1) + 1 = unat (failure_threshold cfg)" by simp
  from cb_call_trips [OF m1(2) this, of t f e] obtain m2 where
    m2: "cb_call cfg t f (Inl e :: 'e + 'a) m1 = (Inl (Inner e), m2)" "cb_state m2 = Open"
      "open_since m2 = Some f" by blast
  then have "cb_run cfg m2 later = (map (\<lambda>_. Inl CircuitOpen) later, m2)"
    using assms(2) by (intro cb_run_open) (auto simp: cooldown_over_def)
  with m1 m2 show ?thesis by (simp add: cb_run_append)
qed

theorem failures_trip_then_reject_witness:
  "\<exists>m. cb_run (cb_config_default\<lparr>failure_threshold := 2\<rparr>) state_machine_new
         [(0, 1, Inl ''a''), (2, 3, Inl ''b''), (4, 5, Inr ())]
       = ([Inl (Inner ''a''), Inl (Inner ''b''), Inl CircuitOpen], m)
       \<and> cb_state m = Open \<and> open_since m = Some 3"
  using failures_trip_then_reject
    [of "[(0, 1, ''a'')]" 2 3 "''b''" "cb_config_default\<lparr>failure_threshold := 2\<rparr>" "[(4, 5, Inr ())]"]
  by (simp add: cb_config_default_def)

lemma succ_of_less_nonzero:
  assumes "n < (k :: u32)"
  shows "n + 1 \<noteq> 0"
proof -
  have "unat n + 1 < 4294967296"
    using assms unat_u32_bound [of k] by (simp add: word_less_nat_alt)
  from unat_u32_Suc [OF this] show ?thesis by auto
qed

text \<open>A successful probe below the success threshold leaves the circuit half-open and gives its slot back.\<close>

lemma cb_call_probe_counts:
  assumes "cb_state m = HalfOpen" and "half_open_inflight m < half_open_max_calls cfg"
    and "unat (consecutive_successes m) + 1 < unat (success_threshold cfg)"
  shows "\<exists>m'. cb_call cfg t f (Inr x) m = (Inr x, m') \<and> cb_state m' = HalfOpen
           \<and> half_open_inflight m' = half_open_inflight m \<and> consecutive_failures m' = 0
           \<and> unat (consecutive_successes m') = unat (consecutive_successes m) + 1"
proof -
  have inc: "unat (consecutive_successes m + 1) = unat (consecutive_successes m) + 1"
    using assms(3) unat_u32_bound [of "success_threshold cfg"] by (intro unat_u32_Suc) linarith
  with assms(3) have "\<not> success_threshold cfg \<le> consecutive_successes m + 1"
    by (simp add: word_le_nat_alt)
  with assms(1,2) inc succ_of_less_nonzero [OF assms(2)] show ?thesis
    by (simp add: cb_call_def cb_gate_half_open_free cb_record_def on_success_def
        release_half_open_slot_def Let_def)
qed

lemma cb_call_probe_closes:
  assumes "cb_state m = HalfOpen" and "half_open_inflight m < half_open_max_calls cfg"
    and "unat (consecutive_successes m) + 1 = unat (success_threshold cfg)"
  shows "\<exists>m'. cb_call cfg t f (Inr x) m = (Inr x, m') \<and> cb_state m' = Closed
           \<and> half_open_inflight m' = 0 \<and> consecutive_failures m' = 0"
proof -
  have "unat (consecutive_successes m + 1) = unat (success_threshold cfg)"
    using assms(3) unat_u32_bound [of "success_threshold cfg"] by (subst unat_u32_Suc) simp_all
  then have "consecutive_successes m + 1 = success_threshold cfg"
    by (simp add: word_unat_eq_iff)
  with assms(1,2) show ?thesis
    by (simp add: cb_call_def cb_gate_half_open_free cb_record_def on_success_def
        release_half_open_slot_def Let_def)
qed

lemma cb_run_probes:
  fixes cs :: "(nat \<times> nat \<times> 'a) list"
  assumes "cb_state m = HalfOpen" and "half_open_inflight m < half_open_max_calls cfg"
    and "cs \<noteq> []" and "unat (consecutive_successes m) + length cs = unat (success_threshold cfg)"
  shows "\<exists>m'. cb_run cfg m (map (\<lambda>(t, f, x). (t, f, Inr x :: 'e + 'a)) cs)
            = (map (\<lambda>(t, f, x). Inr x) cs, m')
         \<and> cb_state m' = Closed \<and> half_open_inflight m' = 0 \<and> consecutive_failures m' = 0"
  using assms
proof (induction cs arbitrary: m)
  case (Cons c cs)
  obtain t f x where c: "c = (t, f, x)" by (cases c)
  show ?case
  proof (cases "cs = []")
    case True
    with Cons.prems have "unat (consecutive_successes m) + 1 = unat (success_threshold cfg)" by simp
    from cb_call_probe_closes [OF Cons.prems(1,2) this, of t f x] obtain m1 where
      "cb_call cfg t f (Inr x :: 'e + 'a) m = (Inr x, m1)" "cb_state m1 = Closed"
      "half_open_inflight m1 = 0" "consecutive_failures m1 = 0" by blast
    with True c show ?thesis by simp
  next
    case False
    with Cons.prems(4) have "unat (consecutive_successes m) + 1 < unat (success_threshold cfg)"
      by (cases cs) simp_all
    from cb_call_probe_counts [OF Cons.prems(1,2) this, of t f x] obtain m1 where m1:
      "cb_call cfg t f (Inr x :: 'e + 'a) m = (Inr x, m1)" "cb_state m1 = HalfOpen"
      "half_open_inflight m1 = half_open_inflight m"
      "unat (consecutive_successes m1) = unat (consecutive_successes m) + 1" by blast
    with Cons.prems(2,4) False
    have "\<exists>m'. cb_run cfg m1 (map (\<lambda>(t, f, x). (t, f, Inr x :: 'e + 'a)) cs)
            = (map (\<lambda>(t, f, x). Inr x) cs, m')
         \<and> cb_state m' = Closed \<and> half_open_inflight m' = 0 \<and> consecutive_failures m' = 0"
      by (intro Cons.IH) simp_all
    with m1(1) c show ?thesis by auto
  qed
qed simp

text \<open>With every slot held, a circuit that is not closed rejects each call, whenever it comes.\<close>

lemma cb_run_full:
  assumes "cb_state m \<noteq> Closed" and "\<not> half_open_inflight m < half_open_max_calls cfg"
  shows "\<exists>m'. cb_run cfg m cs = (map (\<lambda>_. Inl CircuitOpen) cs, m')
           \<and> cb_state m' \<noteq> Closed \<and> half_open_inflight m' = half_open_inflight m"
  using assms
proof (induction cs arbitrary: m)
  case (Cons c cs)
  obtain t f r where c: "c = (t, f, r)" by (cases c)
  have "\<exists>m1. cb_call cfg t f r m = (Inl CircuitOpen, m1)
      \<and> cb_state m1 \<noteq> Closed \<and> half_open_inflight m1 = half_open_inflight m"
    using Cons.prems
    by (cases "cb_state m") (auto simp: cb_call_def cb_gate_def circuit_state_of_def try_acquire_half_open_slot_def)
  then obtain m1 where m1: "cb_call cfg t f r m = (Inl CircuitOpen, m1)" "cb_state m1 \<noteq> Closed"
    "half_open_inflight m1 = half_open_inflight m" by blast
  with Cons.prems(2) obtain m2 where "cb_run cfg m1 cs = (map (\<lambda>_. Inl CircuitOpen) cs, m2)"
    "cb_state m2 \<noteq> Closed" "half_open_inflight m2 = half_open_inflight m"
    using Cons.IH [of m1] by auto
  with m1(1) c show ?case by simp
qed simp

text \<open>
  C7. What an open circuit does after its cooldown depends on the probe slots alone.  If a slot is free,
  \<open>success_threshold\<close> successful probes, one after another, are all admitted, answer their callers and
  close the circuit with its failure count and its slots cleared.  If all slots are held, every call of
  any sequence of calls, at whatever times, is rejected, and neither closes the circuit nor frees a slot.
\<close>

theorem probes_close_circuit:
  fixes cs :: "(nat \<times> nat \<times> 'a) list" and later :: "(nat \<times> nat \<times> ('e + 'a)) list"
  assumes "cb_state m = Open" and "open_since m = Some since" and "0 < success_threshold cfg"
    and "length cs = unat (success_threshold cfg)" and "open_duration cfg \<le> fst (hd cs) - since"
  shows "if half_open_inflight m < half_open_max_calls cfg
     then (\<exists>m'. cb_run cfg m (map (\<lambda>(t, f, x). (t, f, Inr x :: 'e + 'a)) cs)
            = (map (\<lambda>(t, f, x). Inr x) cs, m')
         \<and> cb_state m' = Closed \<and> half_open_inflight m' = 0 \<and> consecutive_failures m' = 0)
     else (\<exists>m'. cb_run cfg m later = (map (\<lambda>_. Inl CircuitOpen) later, m')
         \<and> cb_state m' \<noteq> Closed \<and> half_open_inflight m' = half_open_inflight m)"
proof -
  let ?h = "m\<lparr>cb_state := HalfOpen, consecutive_failures := 0, consecutive_successes := 0\<rparr>"
  have "cs \<noteq> []" using assms(3,4) by (auto simp: word_less_nat_alt)
  then obtain t f x cs' where cs: "cs = (t, f, x) # cs'" by (metis neq_Nil_conv prod_cases3)
  with assms(1,2,5) have "cb_gate cfg t m = cb_gate cfg t ?h"
    by (intro cb_gate_cooled) (simp_all add: cooldown_over_def)
  then have "cb_run cfg m (map (\<lambda>(t, f, x). (t, f, Inr x :: 'e + 'a)) cs)
      = cb_run cfg ?h (map (\<lambda>(t, f, x). (t, f, Inr x)) cs)"
    by (simp add: cs cb_call_def)
  moreover have "\<exists>m'. cb_run cfg ?h (map (\<lambda>(t, f, x). (t, f, Inr x :: 'e + 'a)) cs)
            = (map (\<lambda>(t, f, x). Inr x) cs, m')
         \<and> cb_state m' = Closed \<and> half_open_inflight m' = 0 \<and> consecutive_failures m' = 0"
    if "half_open_inflight m < half_open_max_calls cfg"
    using that assms(4) \<open>cs \<noteq> []\<close> by (intro cb_run_probes) simp_all
  ultimately show ?thesis using cb_run_full [of m cfg later] assms(1) by simp
qed

theorem probes_close_circuit_witness:
  "(\<exists>m'. cb_run cb_config_default
          \<lparr>cb_state = Open, open_since = Some 5, consecutive_failures = 5,
           consecutive_successes = 0, half_open_inflight = 0\<rparr>
          [(30000000005, 30000000006, Inr ''a'' :: nat + string), (30000000007, 30000000009, Inr ''b'')]
        = ([Inr ''a'', Inr ''b''], m')
        \<and> cb_state m' = Closed \<and> half_open_inflight m' = 0 \<and> consecutive_failures m' = 0)
   \<and> (\<exists>m'. cb_run cb_config_default
          \<lparr>cb_state = Open, open_since = Some 5, consecutive_failures = 5,
           consecutive_successes = 0, half_open_inflight = 1\<rparr>
          [(30000000005, 30000000006, Inr ''a'' :: nat + string), (90000000007, 90000000009, Inr ''b'')]
        = ([Inl CircuitOpen, Inl CircuitOpen], m')
        \<and> cb_state m' \<noteq> Closed \<and> half_open_inflight m' = 1)"
  using probes_close_circuit
    [of "\<lparr>cb_state = Open, open_since = Some 5, consecutive_failures = 5,
          consecutive_successes = 0, half_open_inflight = 0\<rparr>" 5 cb_config_default
        "[(30000000005, 30000000006, ''a''), (30000000007, 30000000009, ''b'')]"]
    probes_close_circuit
    [of "\<lparr>cb_state = Open, open_since = Some 5, consecutive_failures = 5,
          consecutive_successes = 0, half_open_inflight = 1\<rparr>" 5 cb_config_default
        "[(30000000005, 30000000006, ''a''), (30000000007, 30000000009, ''b'')]"
        "[(30000000005, 30000000006, Inr ''a''), (90000000007, 90000000009, Inr ''b'')]"]
  by (simp add: cb_config_default_def)

section \<open>What a dropped call does to the breaker\<close>

lemma resilient_run_wedged:
  assumes "cb_state m = HalfOpen" and "\<not> half_open_inflight m < half_open_max_calls cfg"
  shows "resilient_run duration cfg m cs = (map (\<lambda>_. Inl (Inner CircuitOpen)) cs, m)"
  by (induction cs)
    (auto simp: resilient_call_def cb_gate_half_open_full [OF assms])

text \<open>
  C13. The stack \<open>Timeout \<rightarrow> CircuitBreaker\<close> loses the probe slot of a half-open call that times
  out: with one slot, as in the default configuration, every later call is rejected with
  \<open>CircuitOpen\<close>, whatever the time and however healthy the dependency, and the state never
  changes again.
\<close>

theorem timed_out_probe_wedges_breaker:
  fixes result :: "'e + 'a"
  assumes "cb_state m = Open" and "open_since m = Some since" and "half_open_inflight m = 0"
    and "half_open_max_calls cfg = 1" and "open_duration cfg \<le> started - since"
    and "duration < latency"
  shows "\<exists>m'. resilient_call duration cfg started latency result m = (Inl (Timeout duration), m')
         \<and> (\<forall>cs :: (nat \<times> nat \<times> ('e + 'a)) list.
              resilient_run duration cfg m' cs = (map (\<lambda>_. Inl (Inner CircuitOpen)) cs, m'))"
proof -
  let ?h = "m\<lparr>cb_state := HalfOpen, consecutive_failures := 0, consecutive_successes := 0\<rparr>"
  let ?m' = "?h\<lparr>half_open_inflight := 1\<rparr>"
  have "cb_gate cfg started m = cb_gate cfg started ?h"
    using assms(1,2,5) by (intro cb_gate_cooled) (simp_all add: cooldown_over_def)
  also have "\<dots> = (Some True, ?m')"
    using assms(3,4) by (subst cb_gate_half_open_free) simp_all
  finally have "resilient_call duration cfg started latency result m = (Inl (Timeout duration), ?m')"
    using assms(6) by (simp add: resilient_call_def)
  moreover have "resilient_run duration cfg ?m' cs = (map (\<lambda>_. Inl (Inner CircuitOpen)) cs, ?m')"
    for cs :: "(nat \<times> nat \<times> ('e + 'a)) list"
    using assms(4) by (intro resilient_run_wedged) simp_all
  ultimately show ?thesis by blast
qed

theorem timed_out_probe_wedges_breaker_witness:
  "\<exists>m'. resilient_call 10 cb_config_default 30000000005 11 (Inr () :: string + unit)
          \<lparr>cb_state = Open, open_since = Some 5, consecutive_failures = 5,
           consecutive_successes = 0, half_open_inflight = 0\<rparr>
        = (Inl (Timeout 10), m')
        \<and> (\<forall>cs :: (nat \<times> nat \<times> (string + unit)) list.
             resilient_run 10 cb_config_default m' cs = (map (\<lambda>_. Inl (Inner CircuitOpen)) cs, m'))"
  by (rule timed_out_probe_wedges_breaker [where since = 5])
    (simp_all add: cb_config_default_def)

text \<open>
  A run of five calls of a breaker with a threshold of one failure and one probe slot.  Calls 0
  and 1 start while the circuit is closed; 0 fails and opens it; after the cooldown call 2 takes
  the probe slot; call 1 fails late, which re-opens the circuit and clears the slot counter; after
  another cooldown call 3 takes the slot that call 2 still occupies.
\<close>

definition overrun_config :: cb_config where
  "overrun_config =
     \<lparr>failure_threshold = 1, success_threshold = 1, open_duration = 10, half_open_max_calls = 1\<rparr>"

definition overrun_calls :: "nat \<Rightarrow> call_pc" where
  "overrun_calls = (\<lambda>_. Ready)(2 := InFlight True, 3 := InFlight True)"

lemma overrun_reachable:
  "\<exists>s. cb_reachable overrun_config s \<and> cs_calls s = overrun_calls
     \<and> half_open_inflight (cs_sm s) = 1"
proof -
  note defs = cb_sys_init_def state_machine_new_def overrun_config_def circuit_state_of_def
    on_failure_def try_acquire_half_open_slot_def after_record_def cooldown_over_def Let_def
  let ?c = overrun_config
  let ?closed = "state_machine_new"
  let ?open1 = "\<lparr>cb_state = Open, open_since = Some 0, consecutive_failures = 1,
                  consecutive_successes = 0, half_open_inflight = 0\<rparr>"
  let ?half = "\<lambda>t n. \<lparr>cb_state = HalfOpen, open_since = Some t, consecutive_failures = 0,
                  consecutive_successes = 0, half_open_inflight = n\<rparr>"
  let ?open2 = "\<lparr>cb_state = Open, open_since = Some 10, consecutive_failures = 1,
                  consecutive_successes = 0, half_open_inflight = 0\<rparr>"
  let ?sys = "\<lambda>m t cs. \<lparr>cs_sm = m, cs_now = t, cs_calls = cs\<rparr>"
  let ?r = "(\<lambda>_. Ready) :: nat \<Rightarrow> call_pc"
  have rd: "?r(i := Ready) = ?r" for i by auto
  have s0: "cb_reachable ?c (?sys ?closed 0 ?r)"
    using cb_start [of ?c] by (simp add: cb_sys_init_def)
  have s1: "cb_reachable ?c (?sys ?closed 0 (?r(0 := InFlight False)))"
    using cb_next [OF s0 read_state [of _ 0]] by (simp add: defs)
  have s2: "cb_reachable ?c (?sys ?closed 0 (?r(0 := InFlight False, 1 := InFlight False)))"
    using cb_next [OF s1 read_state [of _ 1]] by (simp add: defs)
  have s3: "cb_reachable ?c (?sys ?open1 0 (?r(1 := InFlight False)))"
    using cb_next [OF s2 call_fails [of _ 0 False]] by (simp add: defs fun_upd_twist rd)
  have s4: "cb_reachable ?c (?sys ?open1 10 (?r(1 := InFlight False)))"
    using cb_next [OF s3 time_passes [of _ _ 10]] by simp
  have s5: "cb_reachable ?c (?sys (?half 0 0) 10 (?r(1 := InFlight False, 2 := Probing)))"
    using cb_next [OF s4 read_state [of _ 2]] by (simp add: defs)
  have s6: "cb_reachable ?c (?sys (?half 0 1) 10 (?r(1 := InFlight False, 2 := InFlight True)))"
    using cb_next [OF s5 acquire_slot [of _ 2]] by (simp add: defs)
  have s7: "cb_reachable ?c (?sys ?open2 10 (?r(2 := InFlight True)))"
    using cb_next [OF s6 call_fails [of _ 1 False]] by (simp add: defs fun_upd_twist rd)
  have s8: "cb_reachable ?c (?sys ?open2 20 (?r(2 := InFlight True)))"
    using cb_next [OF s7 time_passes [of _ _ 10]] by simp
  have s9: "cb_reachable ?c (?sys (?half 10 0) 20 (?r(2 := InFlight True, 3 := Probing)))"
    using cb_next [OF s8 read_state [of _ 3]] by (simp add: defs)
  have s10: "cb_reachable ?c (?sys (?half 10 1) 20 (?r(2 := InFlight True, 3 := InFlight True)))"
    using cb_next [OF s9 acquire_slot [of _ 3]] by (simp add: defs)
  then show ?thesis by (auto simp: overrun_calls_def)
qed

text \<open>
  The bound on half-open probes is a bound on the counter, not on the calls: there is a run in
  which two probes are in the inner service at once although \<open>half_open_max_calls\<close> is 1 and the
  counter reads 1.
\<close>

lemma half_open_cap_overrun:
  "\<exists>cfg s. cb_reachable cfg s \<and> half_open_max_calls cfg = 1 \<and> half_open_inflight (cs_sm s) = 1
     \<and> cs_calls s 2 = InFlight True \<and> cs_calls s 3 = InFlight True"
proof -
  obtain s where "cb_reachable overrun_config s" "cs_calls s = overrun_calls"
    "half_open_inflight (cs_sm s) = 1"
    using overrun_reachable by blast
  then show ?thesis
    by (intro exI [of _ overrun_config] exI [of _ s])
      (simp add: overrun_config_def overrun_calls_def)
qed

text \<open>
  An open circuit whose only slot is held is reachable: calls 1 and 2 both find the circuit half-open;
  1 takes the slot, fails, which re-opens the circuit, and gives the slot back; 2 then takes it without
  looking at the state again, and its future is dropped.
\<close>

lemma open_with_slot_lost:
  "\<exists>s. cb_reachable overrun_config s \<and> cs_calls s = (\<lambda>_. Ready) \<and> cb_state (cs_sm s) = Open
     \<and> half_open_max_calls overrun_config \<le> half_open_inflight (cs_sm s)"
proof -
  note defs = cb_sys_init_def state_machine_new_def overrun_config_def circuit_state_of_def
    on_failure_def try_acquire_half_open_slot_def release_half_open_slot_def after_record_def
    cooldown_over_def Let_def
  let ?c = overrun_config
  let ?open = "\<lambda>t n. \<lparr>cb_state = Open, open_since = Some t, consecutive_failures = 1,
                  consecutive_successes = 0, half_open_inflight = n\<rparr>"
  let ?half = "\<lambda>n. \<lparr>cb_state = HalfOpen, open_since = Some 0, consecutive_failures = 0,
                  consecutive_successes = 0, half_open_inflight = n\<rparr>"
  let ?sys = "\<lambda>m t cs. \<lparr>cs_sm = m, cs_now = t, cs_calls = cs\<rparr>"
  let ?r = "(\<lambda>_. Ready) :: nat \<Rightarrow> call_pc"
  have rd: "?r(i := Ready) = ?r" for i by auto
  have s0: "cb_reachable ?c (?sys state_machine_new 0 ?r)"
    using cb_start [of ?c] by (simp add: cb_sys_init_def)
  have s1: "cb_reachable ?c (?sys state_machine_new 0 (?r(0 := InFlight False)))"
    using cb_next [OF s0 read_state [of _ 0]] by (simp add: defs)
  have s2: "cb_reachable ?c (?sys (?open 0 0) 0 ?r)"
    using cb_next [OF s1 call_fails [of _ 0 False]] by (simp add: defs rd)
  have s3: "cb_reachable ?c (?sys (?open 0 0) 10 ?r)"
    using cb_next [OF s2 time_passes [of _ _ 10]] by simp
  have s4: "cb_reachable ?c (?sys (?half 0) 10 (?r(1 := Probing)))"
    using cb_next [OF s3 read_state [of _ 1]] by (simp add: defs)
  have s5: "cb_reachable ?c (?sys (?half 0) 10 (?r(1 := Probing, 2 := Probing)))"
    using cb_next [OF s4 read_state [of _ 2]] by (simp add: defs)
  have s6: "cb_reachable ?c (?sys (?half 1) 10 (?r(2 := Probing, 1 := InFlight True)))"
    using cb_next [OF s5 acquire_slot [of _ 1]] by (simp add: defs fun_upd_twist)
  have s7: "cb_reachable ?c (?sys (?open 10 0) 10 (?r(2 := Probing, 1 := Releasing)))"
    using cb_next [OF s6 call_fails [of _ 1 True]] by (simp add: defs)
  have s8: "cb_reachable ?c (?sys (?open 10 0) 10 (?r(2 := Probing)))"
    using cb_next [OF s7 release_slot [of _ 1]] by (simp add: defs fun_upd_twist rd)
  have s9: "cb_reachable ?c (?sys (?open 10 1) 10 (?r(2 := InFlight True)))"
    using cb_next [OF s8 acquire_slot [of _ 2]] by (simp add: defs)
  have "cb_reachable ?c (?sys (?open 10 1) 10 ?r)"
    using cb_next [OF s9 future_dropped [of _ 2]] by (simp add: rd)
  then show ?thesis by (intro exI [of _ "?sys (?open 10 1) 10 ?r"]) (simp add: overrun_config_def)
qed

end
