(* ===== verification/Retry.thy ===== *)
theory Retry
  imports CircuitBreaker
begin

text \<open>
  The retry middleware of \<open>crates/foundation/resilience/src/retry\<close>: the exponential backoff with
  its saturating arithmetic and its three kinds of jitter, and the retry loop of the Tower service.
  The loop counts attempts in a \<open>u32\<close>; it is a partial function into \<open>option\<close>, so that "the
  loop returns" is a theorem.  The random generator, the retry policy and the inner service are
  parameters.
\<close>

section \<open>Exponential backoff\<close>

datatype jitter_kind = NoJitter | FullJitter | EqualJitter

record exponential_backoff =
  base_ms :: u64
  max_ms :: u64
  jitter :: jitter_kind

definition exponential_backoff_default :: exponential_backoff where
  "exponential_backoff_default = \<lparr>base_ms = 50, max_ms = 10000, jitter = FullJitter\<rparr>"

datatype backoff_spec = Exponential u64 u64 jitter_kind

primrec backoff_spec_resolve :: "backoff_spec \<Rightarrow> exponential_backoff" where
  "backoff_spec_resolve (Exponential b m j) = \<lparr>base_ms = b, max_ms = m, jitter = j\<rparr>"

definition backoff_spec_default :: backoff_spec where
  "backoff_spec_default = Exponential 50 10000 FullJitter"

definition u64_saturating_mul :: "u64 \<Rightarrow> u64 \<Rightarrow> u64" where
  "u64_saturating_mul a b = (if unat a * unat b < 18446744073709551616 then a * b else - 1)"

definition backoff_exp :: "u32 \<Rightarrow> nat" where
  "backoff_exp attempt = min (unat attempt - 1) 30"

definition backoff_cap :: "exponential_backoff \<Rightarrow> u32 \<Rightarrow> u64" where
  "backoff_cap b attempt =
     min (u64_saturating_mul (base_ms b) (push_bit (backoff_exp attempt) 1)) (max_ms b)"

text \<open>\<open>draw c\<close> stands for \<open>rand::rng().random_range(0..=c)\<close>.\<close>

definition next_delay :: "(u64 \<Rightarrow> u64) \<Rightarrow> exponential_backoff \<Rightarrow> u32 \<Rightarrow> u64" where
  "next_delay draw b attempt =
     (let cap = backoff_cap b attempt
      in case jitter b of
           NoJitter \<Rightarrow> cap
         | FullJitter \<Rightarrow> draw cap
         | EqualJitter \<Rightarrow> cap div 2 + draw (cap div 2))"

section \<open>The retry loop\<close>

record retry_config =
  max_attempts :: u32
  backoff :: exponential_backoff

definition retry_config_default_exponential :: retry_config where
  "retry_config_default_exponential = \<lparr>max_attempts = 3, backoff = exponential_backoff_default\<rparr>"

text \<open>
  \<open>svc n\<close> is the outcome of the \<open>n\<close>-th attempt (from 0), a readiness error counting as a failed
  attempt.  The loop carries the attempt counter, the number of attempts made and the delays slept.
\<close>

partial_function (option) retry_loop ::
  "(u32 \<Rightarrow> u64) \<Rightarrow> ('e \<Rightarrow> u32 \<Rightarrow> bool) \<Rightarrow> u32 \<Rightarrow> (nat \<Rightarrow> 'e + 'a) \<Rightarrow> u32 \<Rightarrow> nat \<Rightarrow> u64 list
     \<Rightarrow> (('e resilience_error + 'a) \<times> nat \<times> u64 list) option" where
  "retry_loop delay should_retry budget svc attempt n delays =
     (let attempt' = attempt + 1
      in case svc n of
           Inr x \<Rightarrow> Some (Inr x, n + 1, delays)
         | Inl e \<Rightarrow>
             (if attempt' \<le> budget \<and> should_retry e attempt'
              then retry_loop delay should_retry budget svc attempt' (n + 1) (delays @ [delay attempt'])
              else Some (if budget < attempt' then Inl (MaxRetriesExhausted budget) else Inl (Inner e),
                         n + 1, delays)))"

definition retry_call ::
  "(u64 \<Rightarrow> u64) \<Rightarrow> ('e \<Rightarrow> u32 \<Rightarrow> bool) \<Rightarrow> retry_config \<Rightarrow> (nat \<Rightarrow> 'e + 'a)
     \<Rightarrow> (('e resilience_error + 'a) \<times> nat \<times> u64 list) option" where
  "retry_call draw should_retry cfg svc =
     retry_loop (next_delay draw (backoff cfg)) should_retry (max_attempts cfg) svc 0 0 []"

text \<open>The three policies of \<open>retry/policy.rs\<close>; the default one asks the error.\<close>

definition default_should_retry :: "('e \<Rightarrow> bool) \<Rightarrow> 'e \<Rightarrow> u32 \<Rightarrow> bool" where
  "default_should_retry is_retryable e attempt = is_retryable e"

definition always_should_retry :: "'e \<Rightarrow> u32 \<Rightarrow> bool" where
  "always_should_retry e attempt = True"

definition never_should_retry :: "'e \<Rightarrow> u32 \<Rightarrow> bool" where
  "never_should_retry e attempt = False"

section \<open>Bounds of the backoff\<close>

lemma unat_u64_power: "n \<le> 30 \<Longrightarrow> unat (2 ^ n :: u64) = 2 ^ n"
proof -
  assume "n \<le> 30"
  then have "(2 :: nat) ^ n \<le> 2 ^ 30" by (rule power_increasing) simp
  then have "(2 :: nat) ^ n mod 2 ^ 64 = 2 ^ n" by simp
  then have "unat (of_nat (2 ^ n) :: u64) = 2 ^ n"
    by (subst unat_of_nat) simp
  then show ?thesis by simp
qed

lemma unat_u64_saturating_mul:
  "unat (u64_saturating_mul a b) = min (unat a * unat b) 18446744073709551615"
  by (auto simp: u64_saturating_mul_def unat_word_ariths min_def unsigned_minus_1_eq_mask mask_eq_exp_minus_1)

lemma unat_min_word: "unat (min a b) = min (unat a) (unat (b :: 'a :: len word))"
  by (auto simp: min_def word_le_nat_alt)

lemma backoff_exp_le: "backoff_exp attempt \<le> 30"
  by (simp add: backoff_exp_def)

lemma unat_backoff_cap:
  "unat (backoff_cap b attempt) = min (unat (base_ms b) * 2 ^ backoff_exp attempt) (unat (max_ms b))"
  using unat_u64_bound [of "max_ms b"]
  by (simp add: backoff_cap_def unat_min_word unat_u64_saturating_mul
      unat_u64_power [OF backoff_exp_le])

lemma u64_half_plus_half:
  "x \<le> c div 2 \<Longrightarrow> unat (c div 2 + x) = unat c div 2 + unat x \<and> unat c div 2 + unat x \<le> unat (c :: u64)"
proof -
  assume "x \<le> c div 2"
  then have x: "unat x \<le> unat c div 2" by (simp add: word_le_nat_alt unat_div)
  then have "unat c div 2 + unat x \<le> unat c" by linarith
  moreover from this have "unat c div 2 + unat x < 18446744073709551616"
    using unat_u64_bound [of c] by linarith
  ultimately show ?thesis by (simp add: unat_word_ariths unat_div)
qed

text \<open>
  C9. The delay before a retry never exceeds \<open>min (base_ms * 2 ^ (attempt - 1)) max_ms\<close> (with the
  exponent clamped to 30), for every base, cap, attempt number and kind of jitter: no
  multiplication or addition overflows.  Without jitter the delay is exactly that cap, and with
  equal jitter it is at least half of it.
\<close>

theorem next_delay_bounds:
  assumes "\<And>c. draw c \<le> c"
  shows "unat (next_delay draw b attempt)
           \<le> min (unat (base_ms b) * 2 ^ min (unat attempt - 1) 30) (unat (max_ms b))
       \<and> (jitter b = NoJitter \<longrightarrow> unat (next_delay draw b attempt)
           = min (unat (base_ms b) * 2 ^ min (unat attempt - 1) 30) (unat (max_ms b)))
       \<and> (jitter b = EqualJitter \<longrightarrow>
           min (unat (base_ms b) * 2 ^ min (unat attempt - 1) 30) (unat (max_ms b)) div 2
             \<le> unat (next_delay draw b attempt))"
proof -
  let ?c = "backoff_cap b attempt"
  have cap: "min (unat (base_ms b) * 2 ^ min (unat attempt - 1) 30) (unat (max_ms b)) = unat ?c"
    by (simp add: unat_backoff_cap backoff_exp_def)
  have "unat (draw ?c) \<le> unat ?c" using assms by (simp add: word_le_nat_alt)
  moreover note u64_half_plus_half [OF assms [of "?c div 2"]]
  ultimately show ?thesis
    unfolding cap by (auto simp: next_delay_def Let_def split: jitter_kind.splits)
qed

theorem next_delay_bounds_witness:
  "unat (next_delay (\<lambda>c. c) (exponential_backoff_default\<lparr>jitter := EqualJitter\<rparr>) 4)
     \<le> min (50 * 2 ^ min (4 - 1) 30) 10000
   \<and> min (50 * 2 ^ min (4 - 1) 30) 10000 div 2
     \<le> unat (next_delay (\<lambda>c. c) (exponential_backoff_default\<lparr>jitter := EqualJitter\<rparr>) 4)"
  using next_delay_bounds [of "\<lambda>c. c" "exponential_backoff_default\<lparr>jitter := EqualJitter\<rparr>" 4]
  by (simp add: exponential_backoff_default_def)

text \<open>Without jitter the delays do not shrink from one attempt to the next.\<close>

lemma backoff_cap_mono:
  assumes "a \<le> a'"
  shows "backoff_cap b a \<le> backoff_cap b a'"
proof -
  have "backoff_exp a \<le> backoff_exp a'"
    using assms by (auto simp: backoff_exp_def word_le_nat_alt min_def)
  then have "unat (base_ms b) * 2 ^ backoff_exp a \<le> unat (base_ms b) * 2 ^ backoff_exp a'"
    by (intro mult_le_mono2 power_increasing) simp_all
  then show ?thesis by (simp add: word_le_nat_alt unat_backoff_cap min.coboundedI1)
qed

section \<open>The loop returns, and what it returns\<close>

lemma word_of_nat_Suc_le:
  assumes "k \<le> unat (budget :: u32)"
  shows "unat (of_nat k :: u32) = k"
proof -
  have "k < 4294967296" using assms unat_u32_bound [of budget] by linarith
  then show ?thesis by (simp add: unat_of_nat)
qed

text \<open>
  The attempt at which the loop stops, counted from 0: the first one that succeeds or whose error
  the policy declines, or the last one of the budget.
\<close>

definition stops_at :: "('e \<Rightarrow> u32 \<Rightarrow> bool) \<Rightarrow> nat \<Rightarrow> (nat \<Rightarrow> 'e + 'a) \<Rightarrow> nat \<Rightarrow> bool" where
  "stops_at should_retry budget svc n \<longleftrightarrow>
     n = budget \<or> (case svc n of Inr _ \<Rightarrow> True | Inl e \<Rightarrow> \<not> should_retry e (of_nat (Suc n)))"

definition retry_answer :: "u32 \<Rightarrow> (nat \<Rightarrow> 'e + 'a) \<Rightarrow> nat \<Rightarrow> 'e resilience_error + 'a" where
  "retry_answer budget svc n =
     (case svc n of
        Inr x \<Rightarrow> Inr x
      | Inl e \<Rightarrow> if n = unat budget then Inl (MaxRetriesExhausted budget) else Inl (Inner e))"

lemma u32_budget_less: "budget \<noteq> - 1 \<Longrightarrow> (budget :: u32) < budget + 1"
proof -
  assume "budget \<noteq> - 1"
  then have "unat budget \<noteq> 4294967295"
    by (simp add: word_unat_eq_iff unsigned_minus_1_eq_mask mask_eq_exp_minus_1)
  then have "unat budget + 1 < 4294967296" using unat_u32_bound [of budget] by linarith
  then show ?thesis by (simp add: word_less_nat_alt unat_u32_Suc)
qed

lemma retry_loop_stop:
  assumes "budget \<noteq> - 1" and "k \<le> unat budget" and "stops_at should_retry (unat budget) svc k"
  shows "retry_loop delay should_retry budget svc (of_nat k) k ds
           = Some (retry_answer budget svc k, Suc k, ds)"
proof (cases "k = unat budget")
  case True
  have "budget < of_nat k + 1" using u32_budget_less [OF assms(1)] by (simp add: True)
  moreover from this have "\<not> of_nat k + 1 \<le> budget" by simp
  ultimately show ?thesis
    by (subst retry_loop.simps) (simp add: Let_def retry_answer_def True split: sum.split)
next
  case False
  then have "unat (of_nat (Suc k) :: u32) = Suc k"
    using assms(2) by (intro word_of_nat_Suc_le [of _ budget]) simp
  then have "of_nat k + 1 \<le> budget" using False assms(2) by (simp add: word_le_nat_alt add.commute)
  with False assms(3) show ?thesis
    by (subst retry_loop.simps)
      (auto simp add: Let_def retry_answer_def stops_at_def add.commute split: sum.splits)
qed

lemma retry_loop_continue:
  assumes "k < unat budget" and "\<not> stops_at should_retry (unat budget) svc k"
  shows "retry_loop delay should_retry budget svc (of_nat k) k ds
           = retry_loop delay should_retry budget svc (of_nat (Suc k)) (Suc k)
               (ds @ [delay (of_nat (Suc k))])"
proof -
  have "unat (of_nat (Suc k) :: u32) = Suc k"
    using assms(1) by (intro word_of_nat_Suc_le [of _ budget]) simp
  then have le: "1 + of_nat k \<le> budget" using assms(1) by (simp add: word_le_nat_alt)
  obtain e where "svc k = Inl e" "should_retry e (1 + of_nat k)"
    using assms by (auto simp: stops_at_def split: sum.splits)
  with le show ?thesis
    by (subst retry_loop.simps) (simp add: Let_def add.commute)
qed

lemma retry_loop_spec:
  assumes "budget \<noteq> - 1" and "k \<le> unat budget"
    and "\<forall>i<k. \<not> stops_at should_retry (unat budget) svc i"
  shows "\<exists>n\<ge>k. n \<le> unat budget \<and> stops_at should_retry (unat budget) svc n
           \<and> (\<forall>i<n. \<not> stops_at should_retry (unat budget) svc i)
           \<and> retry_loop delay should_retry budget svc (of_nat k) k ds
               = Some (retry_answer budget svc n, Suc n, ds @ map (\<lambda>i. delay (of_nat (Suc i))) [k..<n])"
  using assms(2,3)
proof (induction "unat budget - k" arbitrary: k ds)
  case 0
  then have "stops_at should_retry (unat budget) svc k" by (simp add: stops_at_def)
  with 0 assms(1) show ?case by (intro exI [of _ k]) (simp add: retry_loop_stop)
next
  case (Suc d)
  show ?case
  proof (cases "stops_at should_retry (unat budget) svc k")
    case True
    with Suc.prems assms(1) show ?thesis by (intro exI [of _ k]) (simp add: retry_loop_stop)
  next
    case False
    let ?ds = "ds @ [delay (of_nat (Suc k))]"
    have lt: "k < unat budget" using Suc.hyps(2) by simp
    have "\<forall>i<Suc k. \<not> stops_at should_retry (unat budget) svc i"
      using False Suc.prems(2) less_Suc_eq by auto
    moreover have "d = unat budget - Suc k" using Suc.hyps(2) by linarith
    moreover have "Suc k \<le> unat budget" using lt by simp
    ultimately obtain n where n: "n \<ge> Suc k" "n \<le> unat budget" "stops_at should_retry (unat budget) svc n"
      "\<forall>i<n. \<not> stops_at should_retry (unat budget) svc i"
      "retry_loop delay should_retry budget svc (of_nat (Suc k)) (Suc k) ?ds
         = Some (retry_answer budget svc n, Suc n, ?ds @ map (\<lambda>i. delay (of_nat (Suc i))) [Suc k..<n])"
      using Suc.hyps(1) [of "Suc k" ?ds] by blast
    have "?ds @ map (\<lambda>i. delay (of_nat (Suc i))) [Suc k..<n]
        = ds @ map (\<lambda>i. delay (of_nat (Suc i))) [k..<n]"
      using n(1) by (simp add: upt_conv_Cons)
    with n retry_loop_continue [OF lt False, of delay ds] show ?thesis
      by (intro exI [of _ n]) simp
  qed
qed

text \<open>
  C8. The retry loop returns for every budget below \<open>u32::MAX\<close>, after at most \<open>max_attempts + 1\<close>
  attempts, and its answer is determined by the first attempt that succeeds, is declined by the
  policy or is the last of the budget: success is passed on, the last error of an exhausted budget
  becomes \<open>MaxRetriesExhausted\<close>, a declined error is surfaced as it is.  Between attempts it sleeps
  the backoff delays of attempts 1, 2, \<dots>, in this order.
\<close>

theorem retry_call_returns:
  assumes "max_attempts cfg \<noteq> - 1"
  shows "\<exists>n\<le>unat (max_attempts cfg).
           stops_at should_retry (unat (max_attempts cfg)) svc n
           \<and> (\<forall>i<n. \<not> stops_at should_retry (unat (max_attempts cfg)) svc i)
           \<and> retry_call draw should_retry cfg svc
               = Some (case svc n of
                         Inr x \<Rightarrow> Inr x
                       | Inl e \<Rightarrow> if n = unat (max_attempts cfg)
                                  then Inl (MaxRetriesExhausted (max_attempts cfg)) else Inl (Inner e),
                       Suc n, map (\<lambda>i. next_delay draw (backoff cfg) (of_nat (Suc i))) [0..<n])"
  using retry_loop_spec [OF assms, of 0 should_retry svc "next_delay draw (backoff cfg)" "[]"]
  by (auto simp: retry_call_def retry_answer_def)

theorem retry_call_returns_witness:
  "retry_call (\<lambda>c. c) always_should_retry retry_config_default_exponential
      (\<lambda>n. if n = 1 then Inr True else Inl ''down'')
   = Some (Inr True, 2, [next_delay (\<lambda>c. c) exponential_backoff_default 1])"
proof -
  let ?svc = "\<lambda>n. if n = 1 then Inr True else Inl ''down''"
  let ?c = retry_config_default_exponential
  have c: "unat (max_attempts ?c) = 3" "backoff ?c = exponential_backoff_default"
    "max_attempts ?c \<noteq> - 1"
    by (simp_all add: retry_config_default_exponential_def)
  have st: "\<not> stops_at always_should_retry 3 ?svc 0" "stops_at always_should_retry 3 ?svc 1"
    by (simp_all add: stops_at_def always_should_retry_def)
  from retry_call_returns [OF c(3), of always_should_retry ?svc "\<lambda>c. c"] obtain n where
    n: "stops_at always_should_retry 3 ?svc n" "\<forall>i<n. \<not> stops_at always_should_retry 3 ?svc i"
    and eq: "retry_call (\<lambda>c. c) always_should_retry ?c ?svc
      = Some (case ?svc n of Inr x \<Rightarrow> Inr x
              | Inl e \<Rightarrow> if n = unat (max_attempts ?c)
                         then Inl (MaxRetriesExhausted (max_attempts ?c)) else Inl (Inner e),
              Suc n, map (\<lambda>i. next_delay (\<lambda>c. c) (backoff ?c) (of_nat (Suc i))) [0..<n])"
    unfolding c(1) by blast
  have "n = 1" using n st by (metis less_one linorder_neqE_nat)
  with eq show ?thesis by (simp add: c(2))
qed

text \<open>
  The hypothesis is needed: with a budget of \<open>u32::MAX\<close> the counter wraps to 0 in a release build
  and a dependency that never recovers is retried for ever.
\<close>

lemma retry_loop_wraps:
  assumes ret: "retry_loop delay sr budget svc a n ds = Some r"
    and "sr = always_should_retry" and "budget = - 1" and "\<forall>i. \<exists>e. svc i = Inl e"
  shows False
proof -
  have "sr = always_should_retry \<longrightarrow> budget = - 1 \<longrightarrow> (\<forall>i. \<exists>e. svc i = Inl e) \<longrightarrow> False"
  proof (rule retry_loop.raw_induct
      [where P = "\<lambda>delay sr budget svc a n ds r.
         sr = always_should_retry \<longrightarrow> budget = - 1 \<longrightarrow> (\<forall>i. \<exists>e. svc i = Inl e) \<longrightarrow> False",
       OF _ ret])
    fix f delay sr budget svc a n ds r
    assume IH: "\<And>delay sr budget svc a n ds r. f delay sr budget svc a n ds = Some r \<Longrightarrow>
        sr = always_should_retry \<longrightarrow> budget = - 1 \<longrightarrow> (\<forall>i. \<exists>e. svc i = Inl e) \<longrightarrow> False"
      and eq: "(let a' = a + 1 in case svc n of
          Inl e \<Rightarrow> if a' \<le> budget \<and> sr e a' then f delay sr budget svc a' (n + 1) (ds @ [delay a'])
             else Some (if budget < a' then Inl (MaxRetriesExhausted budget) else Inl (Inner e), n + 1, ds)
        | Inr x \<Rightarrow> Some (Inr x, n + 1, ds)) = Some r"
    show "sr = always_should_retry \<longrightarrow> budget = - 1 \<longrightarrow> (\<forall>i. \<exists>e. svc i = Inl e) \<longrightarrow> False"
    proof (intro impI)
      assume h: "sr = always_should_retry" "budget = - 1" "\<forall>i. \<exists>e. svc i = Inl e"
      then obtain e where "svc n = Inl e" by blast
      with eq h(1,2) have "f delay sr budget svc (a + 1) (n + 1) (ds @ [delay (a + 1)]) = Some r"
        by (simp add: Let_def always_should_retry_def)
      from IH [OF this] h show False by blast
    qed
  qed
  with assms(2-4) show ?thesis by blast
qed

end
