(* ===== verification/AuditCanonical.thy ===== *)
theory AuditCanonical
  imports Prelude
begin

text \<open>
  The canonical byte encoding behind the audit ledger's hash chain
  (\<open>crates/services/audit/src/domain/value_object/hash.rs\<close>, \<open>pii.rs\<close>, \<open>classification.rs\<close> and
  \<open>domain/event.rs\<close>): little-endian fixed-width integers, length-prefixed byte fields, presence
  bytes for optional fields and a count-prefixed map.  The interface \<open>self_delimiting\<close> states what
  the chain needs of an encoder, namely that the encoded value can be cut off the front of any byte
  string in one way only; the theory shows it for the primitive fields and for the whole event.
\<close>

section \<open>The writer\<close>

text \<open>A writer is its buffer; each method appends.\<close>

type_synonym canonical_writer = bytes

definition u64_le :: "u64 \<Rightarrow> bytes" where
  "u64_le x = map (\<lambda>i. ucast (drop_bit (8 * i) x)) [0..<8]"

definition w_bytes :: "canonical_writer \<Rightarrow> bytes \<Rightarrow> canonical_writer" where
  "w_bytes w v = w @ u64_le (of_nat (length v)) @ v"

definition str_bytes :: "string \<Rightarrow> bytes" where
  "str_bytes s = map of_char s"

definition w_str :: "canonical_writer \<Rightarrow> string \<Rightarrow> canonical_writer" where
  "w_str w s = w_bytes w (str_bytes s)"

definition w_u8 :: "canonical_writer \<Rightarrow> u8 \<Rightarrow> canonical_writer" where
  "w_u8 w x = w @ [x]"

definition w_u64 :: "canonical_writer \<Rightarrow> u64 \<Rightarrow> canonical_writer" where
  "w_u64 w x = w @ u64_le x"

definition w_i64 :: "canonical_writer \<Rightarrow> i64 \<Rightarrow> canonical_writer" where
  "w_i64 w x = w @ u64_le (of_int x)"

section \<open>The event\<close>

datatype event_category =
  Authentication | Authorization | Moderation | Consent | DataAccess | DataExport | DataErasure
| PrivilegedAction | Retention | Identity

primrec requires_lawful_basis :: "event_category \<Rightarrow> bool" where
  "requires_lawful_basis Authentication = False"
| "requires_lawful_basis Authorization = False"
| "requires_lawful_basis Moderation = True"
| "requires_lawful_basis Consent = True"
| "requires_lawful_basis DataAccess = True"
| "requires_lawful_basis DataExport = True"
| "requires_lawful_basis DataErasure = True"
| "requires_lawful_basis PrivilegedAction = False"
| "requires_lawful_basis Retention = False"
| "requires_lawful_basis Identity = False"

primrec category_hash_tag :: "event_category \<Rightarrow> u8" where
  "category_hash_tag Authentication = 1"
| "category_hash_tag Authorization = 2"
| "category_hash_tag Moderation = 3"
| "category_hash_tag Consent = 4"
| "category_hash_tag DataAccess = 5"
| "category_hash_tag DataExport = 6"
| "category_hash_tag DataErasure = 7"
| "category_hash_tag PrivilegedAction = 8"
| "category_hash_tag Retention = 9"
| "category_hash_tag Identity = 10"

datatype actor_type = ActorUser | ActorAdmin | ActorService | ActorSystem

primrec actor_type_hash_tag :: "actor_type \<Rightarrow> u8" where
  "actor_type_hash_tag ActorUser = 1"
| "actor_type_hash_tag ActorAdmin = 2"
| "actor_type_hash_tag ActorService = 3"
| "actor_type_hash_tag ActorSystem = 4"

datatype outcome = Permitted | Denied | Executed | Failed

primrec outcome_hash_tag :: "outcome \<Rightarrow> u8" where
  "outcome_hash_tag Permitted = 1"
| "outcome_hash_tag Denied = 2"
| "outcome_hash_tag Executed = 3"
| "outcome_hash_tag Failed = 4"

datatype lawful_basis =
  BasisUnspecified | BasisConsent | BasisContract | BasisLegalObligation | BasisVitalInterests
| BasisPublicTask | BasisLegitimateInterests

definition basis_is_specified :: "lawful_basis \<Rightarrow> bool" where
  "basis_is_specified b \<longleftrightarrow> b \<noteq> BasisUnspecified"

primrec basis_hash_tag :: "lawful_basis \<Rightarrow> u8" where
  "basis_hash_tag BasisUnspecified = 0"
| "basis_hash_tag BasisConsent = 1"
| "basis_hash_tag BasisContract = 2"
| "basis_hash_tag BasisLegalObligation = 3"
| "basis_hash_tag BasisVitalInterests = 4"
| "basis_hash_tag BasisPublicTask = 5"
| "basis_hash_tag BasisLegitimateInterests = 6"

record pii_envelope =
  subject_key_ref :: string
  ciphertext :: bytes
  nonce :: bytes
  algorithm :: string

record actor =
  actor_type :: actor_type
  actor_pseudonym :: string
  session_ref :: string

record resource_ref =
  resource_type :: string
  resource_id :: string

text \<open>
  \<open>NewAuditEvent\<close> and \<open>AuditEvent\<close> have the same fields; \<open>try_new\<close> is what tells them apart.
  The attribute map is its entry list in key order, the order \<open>BTreeMap\<close> iterates in.
\<close>

record audit_event =
  event_id :: string
  category :: event_category
  subject :: "string option"
  tenant :: "string option"
  ev_actor :: actor
  action :: string
  resource :: resource_ref
  ev_outcome :: outcome
  ev_lawful_basis :: lawful_basis
  source_service :: string
  correlation_id :: string
  occurred_at :: datetime
  pii :: "pii_envelope option"
  attributes :: "(string \<times> string) list"

definition has_pii :: "audit_event \<Rightarrow> bool" where
  "has_pii e \<longleftrightarrow> pii e \<noteq> None"

definition pii_write_canonical :: "canonical_writer \<Rightarrow> pii_envelope \<Rightarrow> canonical_writer" where
  "pii_write_canonical w p =
     w_str (w_bytes (w_bytes (w_str w (subject_key_ref p)) (ciphertext p)) (nonce p)) (algorithm p)"

definition actor_write_canonical :: "canonical_writer \<Rightarrow> actor \<Rightarrow> canonical_writer" where
  "actor_write_canonical w a =
     w_str (w_str (w_u8 w (actor_type_hash_tag (actor_type a))) (actor_pseudonym a)) (session_ref a)"

definition resource_write_canonical :: "canonical_writer \<Rightarrow> resource_ref \<Rightarrow> canonical_writer" where
  "resource_write_canonical w r = w_str (w_str w (resource_type r)) (resource_id r)"

definition w_opt_str :: "canonical_writer \<Rightarrow> string option \<Rightarrow> canonical_writer" where
  "w_opt_str w x = (case x of Some s \<Rightarrow> w_str (w_u8 w 1) s | None \<Rightarrow> w_u8 w 0)"

definition w_attributes :: "canonical_writer \<Rightarrow> (string \<times> string) list \<Rightarrow> canonical_writer" where
  "w_attributes w kvs =
     foldl (\<lambda>w (k, v). w_str (w_str w k) v) (w_u64 w (of_nat (length kvs))) kvs"

definition canonical_bytes :: "audit_event \<Rightarrow> bytes" where
  "canonical_bytes e =
     (let w = w_u8 (w_str [] (event_id e)) (category_hash_tag (category e));
          w = w_opt_str w (subject e);
          w = w_opt_str w (tenant e);
          w = actor_write_canonical w (ev_actor e);
          w = w_str w (action e);
          w = resource_write_canonical w (resource e);
          w = w_u8 w (outcome_hash_tag (ev_outcome e));
          w = w_u8 w (basis_hash_tag (ev_lawful_basis e));
          w = w_str w (source_service e);
          w = w_str w (correlation_id e);
          w = w_i64 w (timestamp_millis (occurred_at e));
          w = (case pii e of Some p \<Rightarrow> pii_write_canonical (w_u8 w 1) p | None \<Rightarrow> w_u8 w 0)
      in w_attributes w (attributes e))"

section \<open>Self-delimiting encoders\<close>

text \<open>
  \<open>enc\<close> writes a value, \<open>dom\<close> says which values the Rust type can hold (a length fits into a
  \<open>u64\<close>, a timestamp into an \<open>i64\<close>), \<open>view\<close> is what of the value is written.
\<close>

locale self_delimiting =
  fixes enc :: "'a \<Rightarrow> bytes"
    and dom :: "'a \<Rightarrow> bool"
    and view :: "'a \<Rightarrow> 'v"
  assumes cut: "dom a \<Longrightarrow> dom b \<Longrightarrow> enc a @ r = enc b @ r' \<Longrightarrow> view a = view b \<and> r = r'"
begin

lemma enc_view: "dom a \<Longrightarrow> dom b \<Longrightarrow> enc a = enc b \<Longrightarrow> view a = view b"
  using cut [of a b "[]" "[]"] by simp

lemma list_cut:
  "\<lbrakk>length xs = length ys; list_all dom xs; list_all dom ys;
    concat (map enc xs) @ r = concat (map enc ys) @ r'\<rbrakk>
   \<Longrightarrow> map view xs = map view ys \<and> r = r'"
proof (induction xs ys rule: list_induct2)
  case (Cons x xs y ys)
  then have "enc x @ (concat (map enc xs) @ r) = enc y @ (concat (map enc ys) @ r')" by simp
  from cut [OF _ _ this] Cons show ?case by simp
qed simp

end

section \<open>The primitive fields cut\<close>

lemma length_u64_le [simp]: "length (u64_le x) = 8"
  by (simp add: u64_le_def)

lemma u64_le_nth: "i < 8 \<Longrightarrow> j < 8 \<Longrightarrow> bit (u64_le x ! i) j = bit x (8 * i + j)"
  by (simp add: u64_le_def bit_ucast_iff bit_drop_bit_eq)

lemma u64_le_inject: "u64_le x = u64_le y \<longleftrightarrow> x = y"
proof
  assume eq: "u64_le x = u64_le y"
  show "x = y"
  proof (rule bit_word_eqI)
    fix n assume "n < LENGTH(64)"
    then have "n div 8 < 8" "n mod 8 < 8" "8 * (n div 8) + n mod 8 = n" by auto
    then show "bit x n \<longleftrightarrow> bit y n"
      using eq u64_le_nth [of "n div 8" "n mod 8" x] u64_le_nth [of "n div 8" "n mod 8" y] by simp
  qed
qed simp

lemma u64_le_cut: "u64_le x @ r = u64_le y @ r' \<longleftrightarrow> x = y \<and> r = r'"
  by (simp add: u64_le_inject)

definition fits_u64 :: "'a list \<Rightarrow> bool" where
  "fits_u64 xs \<longleftrightarrow> length xs < 2 ^ 64"

lemma of_nat_u64_inject:
  "m < 2 ^ 64 \<Longrightarrow> n < 2 ^ 64 \<Longrightarrow> (of_nat m :: u64) = of_nat n \<longleftrightarrow> m = n"
  by (auto simp: word_unat_eq_iff unat_of_nat)

lemma w_bytes_cut:
  assumes "fits_u64 v" "fits_u64 v'" "w_bytes [] v @ r = w_bytes [] v' @ r'"
  shows "v = v' \<and> r = r'"
proof -
  have "u64_le (of_nat (length v)) @ (v @ r) = u64_le (of_nat (length v')) @ (v' @ r')"
    using assms(3) by (simp add: w_bytes_def)
  then have "(of_nat (length v) :: u64) = of_nat (length v')" "v @ r = v' @ r'"
    by (simp_all only: u64_le_cut)
  then show ?thesis
    using assms(1,2) by (simp add: fits_u64_def of_nat_u64_inject)
qed

lemma str_bytes_inject: "str_bytes s = str_bytes t \<longleftrightarrow> s = t"
proof -
  have "inj (of_char :: char \<Rightarrow> u8)"
  proof (rule injI)
    fix a b :: char
    assume "(of_char a :: u8) = of_char b"
    then have "unat (of_nat (of_char a) :: u8) = unat (of_nat (of_char b) :: u8)"
      by (simp only: of_nat_of_char)
    moreover have "of_char a < (256 :: nat)" "of_char b < (256 :: nat)"
      by (simp_all add: of_char_def horner_sum_bit_eq_take_bit)
    ultimately have "(of_char a :: nat) = of_char b" by (simp add: unat_of_nat)
    then show "a = b" by (simp only: of_char_eq_iff)
  qed
  then show ?thesis by (simp add: str_bytes_def inj_map_eq_map)
qed

lemma length_str_bytes [simp]: "length (str_bytes s) = length s"
  by (simp add: str_bytes_def)

lemma fits_str_bytes [simp]: "fits_u64 (str_bytes s) = fits_u64 s"
  by (simp add: fits_u64_def)

lemma w_str_cut:
  "fits_u64 s \<Longrightarrow> fits_u64 t \<Longrightarrow> w_str [] s @ r = w_str [] t @ r' \<Longrightarrow> s = t \<and> r = r'"
  using w_bytes_cut [of "str_bytes s" "str_bytes t" r r'] by (simp add: w_str_def str_bytes_inject)

interpretation u64_field: self_delimiting u64_le "\<lambda>_. True" "\<lambda>x. x"
  by unfold_locales (simp add: u64_le_cut)

interpretation bytes_field: self_delimiting "w_bytes []" fits_u64 "\<lambda>x. x"
  by unfold_locales (rule w_bytes_cut)

interpretation str_field: self_delimiting "w_str []" fits_u64 "\<lambda>x. x"
  by unfold_locales (rule w_str_cut)

section \<open>Every method appends\<close>

lemma w_bytes_append: "w_bytes w v = w @ w_bytes [] v"
  by (simp add: w_bytes_def)

lemma w_str_append: "w_str w s = w @ w_str [] s"
  by (simp add: w_str_def w_bytes_def)

lemma w_u8_append: "w_u8 w x = w @ [x]"
  by (simp add: w_u8_def)

lemma w_u64_append: "w_u64 w x = w @ u64_le x"
  by (simp add: w_u64_def)

lemma w_i64_append: "w_i64 w x = w @ u64_le (of_int x)"
  by (simp add: w_i64_def)

definition opt_str_part :: "string option \<Rightarrow> bytes" where
  "opt_str_part x = (case x of Some s \<Rightarrow> 1 # w_str [] s | None \<Rightarrow> [0])"

lemma w_opt_str_append:
  "w_opt_str w x = w @ opt_str_part x"
  by (cases x) (simp_all add: w_opt_str_def opt_str_part_def w_u8_def w_str_append [of "w @ [1]"])

definition w_entry :: "string \<times> string \<Rightarrow> bytes" where
  "w_entry kv = w_str [] (fst kv) @ w_str [] (snd kv)"

lemma w_attributes_append:
  "w_attributes w kvs = w @ u64_le (of_nat (length kvs)) @ concat (map w_entry kvs)"
proof -
  have entries: "foldl (\<lambda>w (k, v). w_str (w_str w k) v) u kvs = u @ concat (map w_entry kvs)" for u
  proof (induction kvs arbitrary: u)
    case (Cons kv kvs)
    obtain k v where kv: "kv = (k, v)" by fastforce
    have "w_str (w_str u k) v = u @ w_entry kv"
      by (simp add: kv w_entry_def w_str_append [of u] w_str_append [of "u @ w_str [] k"])
    then show ?case by (simp add: kv Cons.IH)
  qed simp
  show ?thesis by (simp add: w_attributes_def entries w_u64_append)
qed

section \<open>The event cuts\<close>

definition fits_entry :: "string \<times> string \<Rightarrow> bool" where
  "fits_entry kv \<longleftrightarrow> fits_u64 (fst kv) \<and> fits_u64 (snd kv)"

definition fits_pii :: "pii_envelope \<Rightarrow> bool" where
  "fits_pii p \<longleftrightarrow> fits_u64 (subject_key_ref p) \<and> fits_u64 (ciphertext p) \<and> fits_u64 (nonce p)
                 \<and> fits_u64 (algorithm p)"

definition fits_event :: "audit_event \<Rightarrow> bool" where
  "fits_event e \<longleftrightarrow>
     fits_u64 (event_id e) \<and> pred_option fits_u64 (subject e)
   \<and> pred_option fits_u64 (tenant e)
   \<and> fits_u64 (actor_pseudonym (ev_actor e)) \<and> fits_u64 (session_ref (ev_actor e))
   \<and> fits_u64 (action e) \<and> fits_u64 (resource_type (resource e))
   \<and> fits_u64 (resource_id (resource e)) \<and> fits_u64 (source_service e)
   \<and> fits_u64 (correlation_id e) \<and> in_i64 (timestamp_millis (occurred_at e))
   \<and> pred_option fits_pii (pii e)
   \<and> fits_u64 (attributes e) \<and> list_all fits_entry (attributes e)"

text \<open>What the bytes determine: the whole event, its time to the millisecond.\<close>

definition hashed_view :: "audit_event \<Rightarrow> audit_event" where
  "hashed_view e = e\<lparr>occurred_at := timestamp_millis (occurred_at e)\<rparr>"

lemma w_opt_str_cut:
  assumes "pred_option fits_u64 x" "pred_option fits_u64 y"
    and "opt_str_part x @ r
       = opt_str_part y @ r'"
  shows "x = y \<and> r = r'"
  using assms by (cases x; cases y) (auto simp: opt_str_part_def dest: w_str_cut)

definition pii_part :: "pii_envelope option \<Rightarrow> bytes" where
  "pii_part x = (case x of
     Some p \<Rightarrow> 1 # w_str [] (subject_key_ref p) @ w_bytes [] (ciphertext p) @ w_bytes [] (nonce p)
                @ w_str [] (algorithm p)
   | None \<Rightarrow> [0])"

lemma pii_part_cut:
  assumes "pred_option fits_pii x" "pred_option fits_pii y"
    and "pii_part x @ r = pii_part y @ r'"
  shows "x = y \<and> r = r'"
proof (cases x)
  case None
  with assms(3) show ?thesis by (cases y) (simp_all add: pii_part_def)
next
  case (Some p)
  with assms(3) obtain q where y: "y = Some q" by (cases y) (simp_all add: pii_part_def)
  have fits: "fits_pii p" "fits_pii q" using assms(1,2) Some y by simp_all
  from assms(3) have "w_str [] (subject_key_ref p) @ w_bytes [] (ciphertext p)
      @ w_bytes [] (nonce p) @ w_str [] (algorithm p) @ r
    = w_str [] (subject_key_ref q) @ w_bytes [] (ciphertext q)
      @ w_bytes [] (nonce q) @ w_str [] (algorithm q) @ r'"
    by (simp add: Some y pii_part_def)
  note eq = this
  note fit = fits [unfolded fits_pii_def]
  from w_str_cut [OF _ _ eq] fit have key: "subject_key_ref p = subject_key_ref q"
    and eq1: "w_bytes [] (ciphertext p) @ w_bytes [] (nonce p) @ w_str [] (algorithm p) @ r
      = w_bytes [] (ciphertext q) @ w_bytes [] (nonce q) @ w_str [] (algorithm q) @ r'" by simp_all
  from w_bytes_cut [OF _ _ eq1] fit have ct: "ciphertext p = ciphertext q"
    and eq2: "w_bytes [] (nonce p) @ w_str [] (algorithm p) @ r
      = w_bytes [] (nonce q) @ w_str [] (algorithm q) @ r'" by simp_all
  from w_bytes_cut [OF _ _ eq2] fit have nc: "nonce p = nonce q"
    and eq3: "w_str [] (algorithm p) @ r = w_str [] (algorithm q) @ r'" by simp_all
  from w_str_cut [OF _ _ eq3] fit key ct nc show ?thesis by (simp add: Some y)
qed

lemma of_int_u64_inject:
  assumes "in_i64 a" "in_i64 b"
  shows "(of_int a :: u64) = of_int b \<longleftrightarrow> a = b"
proof -
  have "sint (of_int x :: u64) = x" if "in_i64 x" for x
    using that by (simp add: signed_of_int signed_take_bit_int_eq_self in_i64_def i64_max_def i64_min_def)
  with assms show ?thesis by metis
qed

interpretation entry_field: self_delimiting w_entry fits_entry "\<lambda>x. x"
proof unfold_locales
  fix a b r r'
  assume fits: "fits_entry a" "fits_entry b" and eq: "w_entry a @ r = w_entry b @ r'"
  have "w_str [] (fst a) @ (w_str [] (snd a) @ r) = w_str [] (fst b) @ (w_str [] (snd b) @ r')"
    using eq by (simp add: w_entry_def)
  from w_str_cut [OF _ _ this] fits
  have "fst a = fst b" "w_str [] (snd a) @ r = w_str [] (snd b) @ r'"
    by (simp_all add: fits_entry_def)
  with w_str_cut [OF _ _ this(2)] fits show "a = b \<and> r = r'"
    by (simp add: fits_entry_def prod_eq_iff)
qed

lemma w_attributes_cut:
  assumes "fits_u64 xs" "fits_u64 ys" "list_all fits_entry xs" "list_all fits_entry ys"
    and "w_attributes [] xs @ r = w_attributes [] ys @ r'"
  shows "xs = ys \<and> r = r'"
proof -
  from assms(5) have "u64_le (of_nat (length xs)) @ concat (map w_entry xs) @ r
      = u64_le (of_nat (length ys)) @ concat (map w_entry ys) @ r'"
    by (simp add: w_attributes_append)
  then have "length xs = length ys" "concat (map w_entry xs) @ r = concat (map w_entry ys) @ r'"
    using assms(1,2) by (simp_all only: u64_le_cut of_nat_u64_inject fits_u64_def)
  from entry_field.list_cut [OF this(1) assms(3,4) this(2)] show ?thesis by simp
qed

text \<open>The same laws as rewrite rules: on a buffer that is already an append they cannot loop.\<close>

lemma w_str_on_append: "w_str (a @ b) s = a @ b @ w_str [] s"
  by (simp add: w_str_append [of "a @ b"])

lemma w_bytes_on_append: "w_bytes (a @ b) s = a @ b @ w_bytes [] s"
  by (simp add: w_bytes_append [of "a @ b"])

lemma w_attributes_on_append: "w_attributes (a @ b) x = a @ b @ w_attributes [] x"
  by (simp add: w_attributes_append)

lemmas writer_rewrites = w_str_on_append w_bytes_on_append w_attributes_on_append w_u8_append
  w_i64_append w_opt_str_append append_assoc append_Cons append_Nil

lemma pii_append:
  "(case x of Some p \<Rightarrow> pii_write_canonical (w_u8 w 1) p | None \<Rightarrow> w_u8 w 0) = w @ pii_part x"
  by (cases x) (simp_all only: option.case pii_write_canonical_def pii_part_def writer_rewrites)

lemma actor_append:
  "actor_write_canonical w a = w @ actor_type_hash_tag (actor_type a)
     # w_str [] (actor_pseudonym a) @ w_str [] (session_ref a)"
  by (simp only: actor_write_canonical_def writer_rewrites)

lemma resource_append:
  "resource_write_canonical (a @ b) x
     = a @ b @ w_str [] (resource_type x) @ w_str [] (resource_id x)"
  by (simp only: resource_write_canonical_def writer_rewrites)

lemma canonical_bytes_parts:
  "canonical_bytes e =
     w_str [] (event_id e) @ category_hash_tag (category e)
     # opt_str_part (subject e)
     @ opt_str_part (tenant e)
     @ actor_type_hash_tag (actor_type (ev_actor e))
     # w_str [] (actor_pseudonym (ev_actor e)) @ w_str [] (session_ref (ev_actor e))
     @ w_str [] (action e)
     @ w_str [] (resource_type (resource e)) @ w_str [] (resource_id (resource e))
     @ outcome_hash_tag (ev_outcome e) # basis_hash_tag (ev_lawful_basis e)
     # w_str [] (source_service e) @ w_str [] (correlation_id e)
     @ u64_le (of_int (timestamp_millis (occurred_at e)))
     @ pii_part (pii e) @ w_attributes [] (attributes e)"
  unfolding canonical_bytes_def Let_def pii_append
  by (simp only: actor_append resource_append writer_rewrites)

text \<open>The cuts as conditional equations, so that the simplifier cuts a whole event.\<close>

lemma w_str_cut_iff:
  "fits_u64 s \<Longrightarrow> fits_u64 t \<Longrightarrow> w_str [] s @ r = w_str [] t @ r' \<longleftrightarrow> s = t \<and> r = r'"
  using w_str_cut by blast

lemma w_opt_str_cut_iff:
  "\<lbrakk>pred_option fits_u64 x; pred_option fits_u64 y\<rbrakk> \<Longrightarrow>
   opt_str_part x @ r
     = opt_str_part y @ r' \<longleftrightarrow> x = y \<and> r = r'"
  using w_opt_str_cut by blast

lemma pii_part_cut_iff:
  "\<lbrakk>pred_option fits_pii x; pred_option fits_pii y\<rbrakk> \<Longrightarrow>
   pii_part x @ r = pii_part y @ r' \<longleftrightarrow> x = y \<and> r = r'"
  using pii_part_cut by blast

lemma w_attributes_cut_iff:
  "\<lbrakk>fits_u64 xs; fits_u64 ys; list_all fits_entry xs; list_all fits_entry ys\<rbrakk> \<Longrightarrow>
   w_attributes [] xs @ r = w_attributes [] ys @ r' \<longleftrightarrow> xs = ys \<and> r = r'"
  using w_attributes_cut by blast

lemma category_hash_tag_inject: "category_hash_tag a = category_hash_tag b \<longleftrightarrow> a = b"
  by (cases a; cases b) simp_all

lemma actor_type_hash_tag_inject: "actor_type_hash_tag a = actor_type_hash_tag b \<longleftrightarrow> a = b"
  by (cases a; cases b) simp_all

lemma outcome_hash_tag_inject: "outcome_hash_tag a = outcome_hash_tag b \<longleftrightarrow> a = b"
  by (cases a; cases b) simp_all

lemma basis_hash_tag_inject: "basis_hash_tag a = basis_hash_tag b \<longleftrightarrow> a = b"
  by (cases a; cases b) simp_all

lemmas field_cuts = w_str_cut_iff w_opt_str_cut_iff pii_part_cut_iff w_attributes_cut_iff
  u64_le_cut of_int_u64_inject category_hash_tag_inject actor_type_hash_tag_inject
  outcome_hash_tag_inject basis_hash_tag_inject

lemma actor_eqI:
  "\<lbrakk>actor_type a = actor_type b; actor_pseudonym a = actor_pseudonym b;
    session_ref a = session_ref b\<rbrakk> \<Longrightarrow> a = (b :: actor)"
  by (cases a; cases b) simp

lemma resource_eqI:
  "\<lbrakk>resource_type a = resource_type b; resource_id a = resource_id b\<rbrakk> \<Longrightarrow> a = (b :: resource_ref)"
  by (cases a; cases b) simp

lemma canonical_bytes_cut:
  assumes "fits_event a" "fits_event b" "canonical_bytes a @ r = canonical_bytes b @ r'"
  shows "hashed_view a = hashed_view b \<and> r = r'"
proof -
  have parts: "event_id a = event_id b \<and> category a = category b \<and> subject a = subject b
    \<and> tenant a = tenant b \<and> actor_type (ev_actor a) = actor_type (ev_actor b)
    \<and> actor_pseudonym (ev_actor a) = actor_pseudonym (ev_actor b)
    \<and> session_ref (ev_actor a) = session_ref (ev_actor b) \<and> action a = action b
    \<and> resource_type (resource a) = resource_type (resource b)
    \<and> resource_id (resource a) = resource_id (resource b) \<and> ev_outcome a = ev_outcome b
    \<and> ev_lawful_basis a = ev_lawful_basis b \<and> source_service a = source_service b
    \<and> correlation_id a = correlation_id b
    \<and> timestamp_millis (occurred_at a) = timestamp_millis (occurred_at b)
    \<and> pii a = pii b \<and> attributes a = attributes b \<and> r = r'"
    using assms(3)
    unfolding canonical_bytes_parts append_assoc append_Cons
    using assms(1,2) [unfolded fits_event_def]
    by (simp only: field_cuts list.inject simp_thms)
  moreover from parts have "ev_actor a = ev_actor b" by (simp add: actor_eqI)
  moreover from parts have "resource a = resource b" by (simp add: resource_eqI)
  ultimately show ?thesis by (simp add: hashed_view_def)
qed

interpretation event_field: self_delimiting canonical_bytes fits_event hashed_view
  by unfold_locales (rule canonical_bytes_cut)

section \<open>The encoding binds the event\<close>

definition sample_actor :: actor where
  "sample_actor = \<lparr>actor_type = ActorUser, actor_pseudonym = ''a-1'', session_ref = ''s-1''\<rparr>"

definition sample_event :: audit_event where
  "sample_event =
     \<lparr>event_id = ''e-1'', category = Identity, subject = Some ''u-1'', tenant = None,
      ev_actor = sample_actor, action = ''email.changed'',
      resource = \<lparr>resource_type = ''account'', resource_id = ''u-1''\<rparr>,
      ev_outcome = Executed, ev_lawful_basis = BasisContract, source_service = ''account'',
      correlation_id = '''', occurred_at = 1700000000123456789,
      pii = Some \<lparr>subject_key_ref = ''dek:u-1'', ciphertext = [1, 2, 3], nonce = [9],
                  algorithm = ''aes''\<rparr>,
      attributes = [(''k'', ''v'')]\<rparr>"

lemma fits_sample [simp]: "fits_event sample_event" "fits_event (sample_event\<lparr>occurred_at := 1700000000123000000\<rparr>)"
  by (simp_all add: fits_event_def sample_event_def sample_actor_def fits_u64_def fits_pii_def
      fits_entry_def in_i64_def i64_max_def i64_min_def timestamp_millis_def)

text \<open>
  C3. The canonical bytes determine the event: two events (with field lengths that fit the 64-bit
  prefixes) that have the same canonical bytes agree in every field, the time of occurrence to the
  millisecond.  No choice of field contents makes one event's bytes those of another.
\<close>

theorem canonical_bytes_bind_event:
  assumes "fits_event a" "fits_event b" "canonical_bytes a = canonical_bytes b"
  shows "hashed_view a = hashed_view b"
  using event_field.enc_view assms by blast

theorem canonical_bytes_bind_event_witness:
  "hashed_view sample_event = hashed_view (sample_event\<lparr>occurred_at := 1700000000123000000\<rparr>)"
  by (rule canonical_bytes_bind_event)
    (simp_all, simp add: canonical_bytes_parts sample_event_def timestamp_millis_def)

end
