(* ===== verification/AppError.thy ===== *)
theory AppError
  imports Prelude
begin

text \<open>
  The shared error vocabulary (\<open>crates/foundation/error\<close>, \<open>crates/foundation/validate-core\<close>,
  \<open>crates/platform/validation/src/error\<close>): severities, the answers an \<open>AppError\<close> gives, the
  distributed context, the body that reaches a client, and the one concrete error the platform
  itself defines, \<open>ValidationError\<close>.
\<close>

section \<open>Severity\<close>

datatype severity = Critical | High | Medium | Low | Info

datatype log_level = LevelError | LevelWarn | LevelInfo | LevelDebug

definition should_page :: "severity \<Rightarrow> bool" where
  "should_page s \<longleftrightarrow> s \<in> {Critical, High}"

primrec severity_log_level :: "severity \<Rightarrow> log_level" where
  "severity_log_level Critical = LevelError"
| "severity_log_level High = LevelError"
| "severity_log_level Medium = LevelWarn"
| "severity_log_level Low = LevelInfo"
| "severity_log_level Info = LevelDebug"

primrec severity_rank :: "severity \<Rightarrow> nat" where
  "severity_rank Critical = 0"
| "severity_rank High = 1"
| "severity_rank Medium = 2"
| "severity_rank Low = 3"
| "severity_rank Info = 4"

text \<open>The derived \<open>Ord\<close>: declaration order, so \<open>Critical\<close> is least.\<close>

instantiation severity :: linorder
begin

definition less_eq_severity :: "severity \<Rightarrow> severity \<Rightarrow> bool" where
  "less_eq_severity a b \<longleftrightarrow> severity_rank a \<le> severity_rank b"

definition less_severity :: "severity \<Rightarrow> severity \<Rightarrow> bool" where
  "less_severity a b \<longleftrightarrow> severity_rank a < severity_rank b"

lemma severity_rank_inject: "severity_rank a = severity_rank b \<Longrightarrow> a = b"
  by (cases a; cases b) simp_all

instance
  by standard (auto simp: less_eq_severity_def less_severity_def intro: severity_rank_inject)

end

lemma should_page_iff_error_level: "should_page s \<longleftrightarrow> severity_log_level s = LevelError"
  by (cases s) (simp_all add: should_page_def)

lemma should_page_upward: "a \<le> b \<Longrightarrow> should_page b \<Longrightarrow> should_page a"
  by (cases a; cases b) (simp_all add: should_page_def less_eq_severity_def)

section \<open>The answers of an error and the client-facing body\<close>

record app_answers =
  error_code :: string
  http_status :: nat
  severity :: severity
  retryable :: bool
  err_category :: string
  user_facing_message :: string

record error_context =
  request_id :: string
  trace_id :: "string option"
  span_id :: "string option"
  service_name :: string
  ctx_timestamp :: datetime
  metadata :: "(string, string) map"

definition error_context_new :: "string \<Rightarrow> string \<Rightarrow> datetime \<Rightarrow> error_context" where
  "error_context_new uuid service now =
     \<lparr>request_id = uuid, trace_id = None, span_id = None, service_name = service,
      ctx_timestamp = now, metadata = Map.empty\<rparr>"

definition with_trace :: "string \<Rightarrow> string \<Rightarrow> error_context \<Rightarrow> error_context" where
  "with_trace t s ctx = ctx\<lparr>trace_id := Some t, span_id := Some s\<rparr>"

definition with_meta :: "string \<Rightarrow> string \<Rightarrow> error_context \<Rightarrow> error_context" where
  "with_meta k v ctx = ctx\<lparr>metadata := (metadata ctx)(k \<mapsto> v)\<rparr>"

record api_error_response =
  resp_error_code :: string
  resp_message :: string
  resp_request_id :: string
  resp_service :: string
  resp_severity :: severity
  resp_retryable :: bool
  resp_category :: string
  resp_timestamp :: datetime
  resp_details :: "(string, string) map"

definition from_error :: "app_answers \<Rightarrow> error_context \<Rightarrow> api_error_response" where
  "from_error e ctx =
     \<lparr>resp_error_code = error_code e, resp_message = user_facing_message e,
      resp_request_id = request_id ctx, resp_service = service_name ctx,
      resp_severity = severity e, resp_retryable = retryable e,
      resp_category = err_category e, resp_timestamp = ctx_timestamp ctx,
      resp_details = metadata ctx\<rparr>"

section \<open>Validation\<close>

record field_violation =
  fv_field :: string
  fv_code :: string
  fv_message :: string

datatype validation_error = ValidationError (violations: "field_violation list")

definition to_details_map :: "validation_error \<Rightarrow> (string, string) map" where
  "to_details_map e =
     foldl (\<lambda>m v. m(fv_field v \<mapsto> fv_code v @ '': '' @ fv_message v)) Map.empty (violations e)"

definition validation_answers :: app_answers where
  "validation_answers =
     \<lparr>error_code = ''VAL-0001'', http_status = 422, severity = Low, retryable = False,
      err_category = ''VALIDATION'',
      user_facing_message =
        ''One or more fields failed validation. Please review and correct your input.''\<rparr>"

text \<open>Every violated field is in the map; of several violations of one field the last is.\<close>

lemma foldl_details_dom:
  "dom (foldl (\<lambda>m v. m(fv_field v \<mapsto> f v)) m vs) = dom m \<union> fv_field ` set vs"
  by (induction vs arbitrary: m) auto

lemma to_details_map_dom: "dom (to_details_map e) = fv_field ` set (violations e)"
  by (simp add: to_details_map_def foldl_details_dom)

lemma to_details_map_last:
  "to_details_map (ValidationError (vs @ [v])) (fv_field v) = Some (fv_code v @ '': '' @ fv_message v)"
  by (simp add: to_details_map_def)

end
