(* ===== verification/AuditChain.thy ===== *)
theory AuditChain
  imports AuditCanonical AppError "HOL-Library.Char_ord" "HOL-Library.List_Lexorder"
begin

text \<open>
  The domain of the audit service (\<open>crates/services/audit/src/domain\<close> and \<open>error.rs\<close>): identifiers,
  the error catalogue, event intake, the per-partition hash chain, records and crypto-shred, Merkle
  checkpoints, retention and legal holds.  SHA-256 comes from the \<open>sha2\<close> crate: it is the parameter
  \<open>sha256\<close> of every definition that hashes, and nothing is assumed of it; a theorem that would need
  it to be injective concludes with an explicit collision instead.
\<close>

section \<open>Errors\<close>

datatype audit_error =
  AudValidation validation_error
| MalformedAuditEvent string
| MissingLawfulBasis
| UnknownEventCategory string
| DuplicateEvent string
| ChainHashMismatch u64
| SequenceGap string
| ChainHeadConflict string
| CheckpointVerificationFailed
| AnchorWitnessUnavailable
| QueryForbidden
| ExportForbidden
| SubjectScopeViolation
| CallerUnauthenticated
| RecordForbidden
| LedgerStoreUnavailable
| ArchiveUnavailable
| KeyVaultUnavailable
| DurabilityNotConfirmed
| SubjectKeyNotFound string
| ShredBlockedByLegalHold string
| CryptoShredFailed string
| PiiEnvelopeUndecryptable
| RetentionFloorViolation
| LegalHoldActive
| RetentionPolicyNotFound string
| EventDecodeFailed string string
| UnrecordableEvent string
| EventConsumeFailed string
| AudDomainViolation string string
| AudInvalidIdentifier string

fun audit_error_code :: "audit_error \<Rightarrow> string" where
  "audit_error_code (AudValidation _) = error_code validation_answers"
| "audit_error_code (MalformedAuditEvent _) = ''AUD-1001''"
| "audit_error_code MissingLawfulBasis = ''AUD-1002''"
| "audit_error_code (UnknownEventCategory _) = ''AUD-1003''"
| "audit_error_code (DuplicateEvent _) = ''AUD-1004''"
| "audit_error_code (ChainHashMismatch _) = ''AUD-2001''"
| "audit_error_code (SequenceGap _) = ''AUD-2002''"
| "audit_error_code (ChainHeadConflict _) = ''AUD-2003''"
| "audit_error_code CheckpointVerificationFailed = ''AUD-2004''"
| "audit_error_code AnchorWitnessUnavailable = ''AUD-2005''"
| "audit_error_code QueryForbidden = ''AUD-3001''"
| "audit_error_code ExportForbidden = ''AUD-3002''"
| "audit_error_code SubjectScopeViolation = ''AUD-3003''"
| "audit_error_code CallerUnauthenticated = ''AUD-3004''"
| "audit_error_code RecordForbidden = ''AUD-3005''"
| "audit_error_code LedgerStoreUnavailable = ''AUD-4001''"
| "audit_error_code ArchiveUnavailable = ''AUD-4002''"
| "audit_error_code KeyVaultUnavailable = ''AUD-4003''"
| "audit_error_code DurabilityNotConfirmed = ''AUD-4004''"
| "audit_error_code (SubjectKeyNotFound _) = ''AUD-5001''"
| "audit_error_code (ShredBlockedByLegalHold _) = ''AUD-5002''"
| "audit_error_code (CryptoShredFailed _) = ''AUD-5003''"
| "audit_error_code PiiEnvelopeUndecryptable = ''AUD-5004''"
| "audit_error_code RetentionFloorViolation = ''AUD-6001''"
| "audit_error_code LegalHoldActive = ''AUD-6002''"
| "audit_error_code (RetentionPolicyNotFound _) = ''AUD-6003''"
| "audit_error_code (EventDecodeFailed _ _) = ''AUD-8001''"
| "audit_error_code (UnrecordableEvent _) = ''AUD-8002''"
| "audit_error_code (EventConsumeFailed _) = ''AUD-8003''"
| "audit_error_code (AudDomainViolation _ _) = ''AUD-9001''"
| "audit_error_code (AudInvalidIdentifier _) = ''AUD-9002''"

fun audit_http_status :: "audit_error \<Rightarrow> nat" where
  "audit_http_status (AudValidation _) = http_status validation_answers"
| "audit_http_status (MalformedAuditEvent _) = 400"
| "audit_http_status QueryForbidden = 403"
| "audit_http_status ExportForbidden = 403"
| "audit_http_status SubjectScopeViolation = 403"
| "audit_http_status RecordForbidden = 403"
| "audit_http_status CallerUnauthenticated = 401"
| "audit_http_status (DuplicateEvent _) = 409"
| "audit_http_status (ChainHeadConflict _) = 409"
| "audit_http_status (ShredBlockedByLegalHold _) = 409"
| "audit_http_status LegalHoldActive = 409"
| "audit_http_status LedgerStoreUnavailable = 503"
| "audit_http_status ArchiveUnavailable = 503"
| "audit_http_status KeyVaultUnavailable = 503"
| "audit_http_status AnchorWitnessUnavailable = 503"
| "audit_http_status DurabilityNotConfirmed = 504"
| "audit_http_status (SubjectKeyNotFound _) = 404"
| "audit_http_status PiiEnvelopeUndecryptable = 410"
| "audit_http_status (ChainHashMismatch _) = 500"
| "audit_http_status (SequenceGap _) = 500"
| "audit_http_status CheckpointVerificationFailed = 500"
| "audit_http_status (CryptoShredFailed _) = 500"
| "audit_http_status (EventConsumeFailed _) = 500"
| "audit_http_status _ = 422"

fun audit_severity :: "audit_error \<Rightarrow> severity" where
  "audit_severity (AudValidation _) = severity validation_answers"
| "audit_severity (ChainHashMismatch _) = High"
| "audit_severity (SequenceGap _) = High"
| "audit_severity CheckpointVerificationFailed = High"
| "audit_severity AnchorWitnessUnavailable = High"
| "audit_severity QueryForbidden = High"
| "audit_severity ExportForbidden = High"
| "audit_severity SubjectScopeViolation = High"
| "audit_severity CallerUnauthenticated = High"
| "audit_severity RecordForbidden = High"
| "audit_severity LedgerStoreUnavailable = High"
| "audit_severity ArchiveUnavailable = High"
| "audit_severity KeyVaultUnavailable = High"
| "audit_severity DurabilityNotConfirmed = High"
| "audit_severity (ShredBlockedByLegalHold _) = High"
| "audit_severity (CryptoShredFailed _) = High"
| "audit_severity RetentionFloorViolation = High"
| "audit_severity (MalformedAuditEvent _) = Medium"
| "audit_severity MissingLawfulBasis = Medium"
| "audit_severity (ChainHeadConflict _) = Medium"
| "audit_severity (SubjectKeyNotFound _) = Medium"
| "audit_severity LegalHoldActive = Medium"
| "audit_severity (RetentionPolicyNotFound _) = Medium"
| "audit_severity (EventDecodeFailed _ _) = Medium"
| "audit_severity (EventConsumeFailed _) = Medium"
| "audit_severity (AudDomainViolation _ _) = Medium"
| "audit_severity _ = Low"

fun audit_is_retryable :: "audit_error \<Rightarrow> bool" where
  "audit_is_retryable (AudValidation _) = retryable validation_answers"
| "audit_is_retryable LedgerStoreUnavailable = True"
| "audit_is_retryable ArchiveUnavailable = True"
| "audit_is_retryable KeyVaultUnavailable = True"
| "audit_is_retryable AnchorWitnessUnavailable = True"
| "audit_is_retryable DurabilityNotConfirmed = True"
| "audit_is_retryable (ChainHeadConflict _) = True"
| "audit_is_retryable (CryptoShredFailed _) = True"
| "audit_is_retryable (EventConsumeFailed _) = True"
| "audit_is_retryable _ = False"

section \<open>Identifiers and intake\<close>

definition string_id_new :: "string \<Rightarrow> string \<Rightarrow> audit_error + string" where
  "string_id_new field v = (if is_blank v then Inl (AudInvalidIdentifier field) else Inr v)"

definition partition_key_derive :: "string option \<Rightarrow> event_category \<Rightarrow> string" where
  "partition_key_derive ten cat =
     (case ten of Some t \<Rightarrow> t | None \<Rightarrow> ''_global'') @ '':'' @ dec_string (unat (category_hash_tag cat))"

definition try_new :: "audit_event \<Rightarrow> audit_error + audit_event" where
  "try_new e =
     (if requires_lawful_basis (category e) \<and> \<not> basis_is_specified (ev_lawful_basis e)
      then Inl MissingLawfulBasis
      else if is_blank (action e)
      then Inl (AudDomainViolation ''action'' ''an audit event must name the action performed'')
      else Inr e)"

section \<open>The chain\<close>

record chain_head =
  head_sequence :: u64
  head_hash :: string

record chain_link =
  link_sequence :: u64
  link_prev_hash :: string
  link_record_hash :: string

definition genesis_hash :: string where
  "genesis_hash = replicate 64 (CHR ''0'')"

definition head_genesis :: chain_head where
  "head_genesis = \<lparr>head_sequence = 0, head_hash = genesis_hash\<rparr>"

definition digest :: "(bytes \<Rightarrow> bytes) \<Rightarrow> bytes \<Rightarrow> string" where
  "digest sha256 b = to_hex (sha256 b)"

definition link_preimage :: "string \<Rightarrow> bytes \<Rightarrow> u64 \<Rightarrow> bytes" where
  "link_preimage prev payload seq = w_u64 (w_bytes (w_str [] prev) payload) seq"

definition link_hash :: "(bytes \<Rightarrow> bytes) \<Rightarrow> string \<Rightarrow> bytes \<Rightarrow> u64 \<Rightarrow> string" where
  "link_hash sha256 prev payload seq = digest sha256 (link_preimage prev payload seq)"

definition link_next :: "(bytes \<Rightarrow> bytes) \<Rightarrow> chain_head \<Rightarrow> bytes \<Rightarrow> chain_link" where
  "link_next sha256 h payload =
     \<lparr>link_sequence = head_sequence h + 1, link_prev_hash = head_hash h,
      link_record_hash = link_hash sha256 (head_hash h) payload (head_sequence h + 1)\<rparr>"

definition apply_link :: "chain_link \<Rightarrow> chain_head" where
  "apply_link l = \<lparr>head_sequence = link_sequence l, head_hash = link_record_hash l\<rparr>"

definition verify_link ::
  "(bytes \<Rightarrow> bytes) \<Rightarrow> string \<Rightarrow> chain_head \<Rightarrow> bytes \<Rightarrow> chain_link \<Rightarrow> audit_error + chain_head" where
  "verify_link sha256 part h payload l =
     (if link_sequence l \<noteq> head_sequence h + 1 then Inl (SequenceGap part)
      else if link_prev_hash l \<noteq> head_hash h then Inl (ChainHashMismatch (link_sequence l))
      else if link_hash sha256 (link_prev_hash l) payload (link_sequence l) \<noteq> link_record_hash l
      then Inl (ChainHashMismatch (link_sequence l))
      else Inr (apply_link l))"

section \<open>Records and crypto-shred\<close>

record audit_record =
  rec_event :: audit_event
  rec_partition :: string
  rec_link :: chain_link
  recorded_at :: datetime
  pii_erased :: bool

definition record_append ::
  "(bytes \<Rightarrow> bytes) \<Rightarrow> audit_event \<Rightarrow> string \<Rightarrow> chain_head \<Rightarrow> datetime \<Rightarrow> audit_record \<times> chain_head" where
  "record_append sha256 ev part h now =
     (let link = link_next sha256 h (canonical_bytes ev) in
      (\<lparr>rec_event = ev, rec_partition = part, rec_link = link, recorded_at = now,
        pii_erased = False\<rparr>, apply_link link))"

definition record_verify ::
  "(bytes \<Rightarrow> bytes) \<Rightarrow> audit_record \<Rightarrow> chain_head \<Rightarrow> audit_error + chain_head" where
  "record_verify sha256 r h =
     verify_link sha256 (rec_partition r) h (canonical_bytes (rec_event r)) (rec_link r)"

definition mark_pii_erased :: "audit_record \<Rightarrow> audit_record \<times> bool" where
  "mark_pii_erased r =
     (if has_pii (rec_event r) then (r\<lparr>pii_erased := True\<rparr>, True) else (r, False))"

definition read_pii :: "audit_record \<Rightarrow> audit_error + pii_envelope" where
  "read_pii r =
     (if pii_erased r then Inl PiiEnvelopeUndecryptable
      else case pii (rec_event r) of Some p \<Rightarrow> Inr p | None \<Rightarrow> Inl PiiEnvelopeUndecryptable)"

section \<open>Merkle checkpoints\<close>

record merkle_checkpoint =
  cp_root :: string
  cp_head_count :: u64
  cp_created_at :: datetime

definition root_preimage :: "(string \<times> string) list \<Rightarrow> bytes" where
  "root_preimage heads = (let sorted = sort_key fst heads in w_attributes [] sorted)"

definition compute_root :: "(bytes \<Rightarrow> bytes) \<Rightarrow> (string \<times> string) list \<Rightarrow> string" where
  "compute_root sha256 heads = digest sha256 (root_preimage heads)"

definition checkpoint_over ::
  "(bytes \<Rightarrow> bytes) \<Rightarrow> (string \<times> string) list \<Rightarrow> datetime \<Rightarrow> merkle_checkpoint" where
  "checkpoint_over sha256 heads now =
     \<lparr>cp_root = compute_root sha256 heads, cp_head_count = of_nat (length heads),
      cp_created_at = now\<rparr>"

definition checkpoint_verify_against ::
  "(bytes \<Rightarrow> bytes) \<Rightarrow> merkle_checkpoint \<Rightarrow> (string \<times> string) list \<Rightarrow> audit_error + unit" where
  "checkpoint_verify_against sha256 cp heads =
     (if compute_root sha256 heads \<noteq> cp_root cp \<or> of_nat (length heads) \<noteq> cp_head_count cp
      then Inl CheckpointVerificationFailed else Inr ())"

section \<open>Retention and legal holds\<close>

record retention_policy =
  pol_category :: event_category
  pol_retention :: int

definition retention_floor :: "retention_policy \<Rightarrow> datetime \<Rightarrow> datetime" where
  "retention_floor p t = t + pol_retention p"

definition is_past_floor :: "retention_policy \<Rightarrow> datetime \<Rightarrow> datetime \<Rightarrow> bool" where
  "is_past_floor p t now \<longleftrightarrow> now \<ge> retention_floor p t"

record legal_hold =
  hold_id :: string
  hold_subject :: string
  placed_at :: datetime
  released_at :: "datetime option"

definition hold_is_active :: "legal_hold \<Rightarrow> datetime \<Rightarrow> bool" where
  "hold_is_active h now \<longleftrightarrow>
     now \<ge> placed_at h \<and> (case released_at h of None \<Rightarrow> True | Some r \<Rightarrow> now < r)"

definition hold_covers :: "legal_hold \<Rightarrow> string \<Rightarrow> datetime \<Rightarrow> bool" where
  "hold_covers h s now \<longleftrightarrow> hold_is_active h now \<and> hold_subject h = s"

definition authorize_erasure :: "string \<Rightarrow> legal_hold list \<Rightarrow> datetime \<Rightarrow> audit_error + unit" where
  "authorize_erasure s holds now =
     (if list_ex (\<lambda>h. hold_covers h s now) holds then Inl (ShredBlockedByLegalHold s) else Inr ())"

definition authorize_expiry ::
  "string option \<Rightarrow> datetime \<Rightarrow> retention_policy \<Rightarrow> legal_hold list \<Rightarrow> datetime \<Rightarrow> audit_error + unit"
where
  "authorize_expiry subj t pol holds now =
     (if (case subj of Some s \<Rightarrow> list_ex (\<lambda>h. hold_covers h s now) holds | None \<Rightarrow> False)
      then Inl LegalHoldActive
      else if \<not> is_past_floor pol t now then Inl RetentionFloorViolation
      else Inr ())"

section \<open>Partition keys\<close>

lemma dec_tag: "dec_string (unat (category_hash_tag c)) =
    (case c of Authentication \<Rightarrow> ''1'' | Authorization \<Rightarrow> ''2'' | Moderation \<Rightarrow> ''3'' | Consent \<Rightarrow> ''4''
     | DataAccess \<Rightarrow> ''5'' | DataExport \<Rightarrow> ''6'' | DataErasure \<Rightarrow> ''7'' | PrivilegedAction \<Rightarrow> ''8''
     | Retention \<Rightarrow> ''9'' | Identity \<Rightarrow> ''10'')"
  by (cases c) (simp_all add: dec_string.simps digit_char_def)

lemma partition_suffix_cut:
  "r @ '':'' @ dec_string (unat (category_hash_tag c))
     = r' @ '':'' @ dec_string (unat (category_hash_tag c')) \<longleftrightarrow> r = r' \<and> c = c'"
  (is "?l = ?r \<longleftrightarrow> _")
proof -
  have "rev ?l = rev ?r \<longleftrightarrow> r = r' \<and> c = c'"
    unfolding dec_tag by (cases c; cases c') simp_all
  then show ?thesis by (simp only: rev_is_rev_conv)
qed

text \<open>
  Two events share a chain exactly when they agree on category and realm; the one overlap between
  realms is a tenant that is itself called \<open>_global\<close>.
\<close>

lemma partition_key_derive_eq_iff:
  "partition_key_derive t c = partition_key_derive t' c' \<longleftrightarrow>
     c = c' \<and> (t = t' \<or> {t, t'} = {None, Some ''_global''})"
  unfolding partition_key_derive_def partition_suffix_cut
  by (cases t; cases t') (auto simp: doubleton_eq_iff)

section \<open>What the chain hash binds\<close>

lemma link_preimage_cut:
  assumes "fits_u64 p" "fits_u64 p'" "fits_u64 b" "fits_u64 b'"
    and "link_preimage p b s = link_preimage p' b' s'"
  shows "p = p' \<and> b = b' \<and> s = s'"
proof -
  have form: "link_preimage p b s = w_str [] p @ w_bytes [] b @ u64_le s" for p b s
    by (simp add: link_preimage_def w_u64_append w_bytes_append [of "w_str [] p"])
  from assms(5) have eq: "w_str [] p @ w_bytes [] b @ u64_le s = w_str [] p' @ w_bytes [] b' @ u64_le s'"
    by (simp only: form)
  from w_str_cut [OF assms(1,2) eq] have "p = p'" and "w_bytes [] b @ u64_le s = w_bytes [] b' @ u64_le s'"
    by simp_all
  with w_bytes_cut [OF assms(3,4) this(2)] show ?thesis by (simp add: u64_le_inject)
qed

lemma digest_eq_iff: "digest sha256 a = digest sha256 b \<longleftrightarrow> sha256 a = sha256 b"
  by (simp add: digest_def to_hex_inject)

lemma record_verify_Inr_iff:
  "record_verify sha256 r h = Inr h' \<longleftrightarrow>
     rec_link r = link_next sha256 h (canonical_bytes (rec_event r)) \<and> h' = apply_link (rec_link r)"
  by (cases "rec_link r") (auto simp: record_verify_def verify_link_def link_next_def)

lemma record_append_verifies:
  "record_append sha256 ev part h now = (r, h') \<Longrightarrow> record_verify sha256 r h = Inr h'"
  by (auto simp: record_append_def record_verify_Inr_iff Let_def)

text \<open>A history of one partition, verified record by record from a head.\<close>

fun walk :: "(bytes \<Rightarrow> bytes) \<Rightarrow> chain_head \<Rightarrow> audit_record list \<Rightarrow> audit_error + chain_head" where
  "walk sha256 h [] = Inr h"
| "walk sha256 h (r # rs) = bind_res (record_verify sha256 r h) (\<lambda>h'. walk sha256 h' rs)"

lemma walk_append:
  "walk sha256 h (rs @ rs') = bind_res (walk sha256 h rs) (\<lambda>h'. walk sha256 h' rs')"
  by (induction rs arbitrary: h) (auto simp: bind_res_def split: sum.splits)

lemma walk_snoc_Inr:
  "walk sha256 h (rs @ [r]) = Inr h' \<longleftrightarrow>
     (\<exists>m. walk sha256 h rs = Inr m \<and> record_verify sha256 r m = Inr h')"
  by (auto simp: walk_append bind_res_def split: sum.splits)

lemma walk_sequence:
  "walk sha256 h rs = Inr h' \<Longrightarrow> head_sequence h' = head_sequence h + of_nat (length rs)"
proof (induction rs arbitrary: h' rule: rev_induct)
  case (snoc r rs)
  then obtain m where "walk sha256 h rs = Inr m" "record_verify sha256 r m = Inr h'"
    by (auto simp: walk_snoc_Inr)
  then show ?case using snoc.IH [of m]
    by (simp add: record_verify_Inr_iff apply_link_def link_next_def algebra_simps)
qed simp

text \<open>The bytes the hash of a stored record is taken of.\<close>

definition record_preimage :: "audit_record \<Rightarrow> bytes" where
  "record_preimage r = link_preimage (link_prev_hash (rec_link r)) (canonical_bytes (rec_event r))
     (link_sequence (rec_link r))"

definition fits_record :: "audit_record \<Rightarrow> bool" where
  "fits_record r \<longleftrightarrow> fits_event (rec_event r) \<and> fits_u64 (canonical_bytes (rec_event r))
     \<and> fits_u64 (link_prev_hash (rec_link r))"

definition collide :: "(bytes \<Rightarrow> bytes) \<Rightarrow> bytes \<Rightarrow> bytes \<Rightarrow> bool" where
  "collide sha256 a b \<longleftrightarrow> a \<noteq> b \<and> sha256 a = sha256 b"

text \<open>What a history proves of its records: every field that is hashed, and the link.\<close>

definition evidence :: "audit_record \<Rightarrow> audit_event \<times> chain_link" where
  "evidence r = (hashed_view (rec_event r), rec_link r)"

lemma record_preimage_cut:
  "fits_record a \<Longrightarrow> fits_record b \<Longrightarrow> record_preimage a = record_preimage b \<Longrightarrow>
   hashed_view (rec_event a) = hashed_view (rec_event b)
   \<and> link_prev_hash (rec_link a) = link_prev_hash (rec_link b)
   \<and> link_sequence (rec_link a) = link_sequence (rec_link b)"
  unfolding fits_record_def record_preimage_def
  by (metis link_preimage_cut event_field.enc_view)

lemma verified_hash:
  "record_verify sha256 r m = Inr t \<Longrightarrow>
   head_hash t = digest sha256 (record_preimage r) \<and> link_record_hash (rec_link r) = head_hash t
   \<and> head_hash m = link_prev_hash (rec_link r) \<and> head_sequence m = link_sequence (rec_link r) - 1"
  by (simp add: record_verify_Inr_iff link_next_def link_hash_def apply_link_def record_preimage_def)

lemma chain_head_eqI:
  "head_hash m = head_hash m' \<Longrightarrow> head_sequence m = head_sequence m' \<Longrightarrow> m = (m' :: chain_head)"
  by (cases m; cases m') simp

lemma chain_link_eqI:
  "\<lbrakk>link_sequence l = link_sequence k; link_prev_hash l = link_prev_hash k;
    link_record_hash l = link_record_hash k\<rbrakk> \<Longrightarrow> l = (k :: chain_link)"
  by (cases l; cases k) simp

text \<open>One step back: two verified last records with the same resulting head.\<close>

lemma verified_step_back:
  assumes "record_verify sha256 r m = Inr t" "record_verify sha256 r' m' = Inr t"
    and "fits_record r" "fits_record r'"
  shows "collide sha256 (record_preimage r) (record_preimage r') \<or> evidence r = evidence r' \<and> m = m'"
proof (cases "record_preimage r = record_preimage r'")
  case True
  note cut = record_preimage_cut [OF assms(3,4) True]
  note v = verified_hash [OF assms(1)] verified_hash [OF assms(2)]
  have "rec_link r = rec_link r'" using cut v by (simp add: chain_link_eqI)
  moreover have "m = m'" using cut v by (simp add: chain_head_eqI)
  ultimately show ?thesis using cut by (simp add: evidence_def)
next
  case False
  then show ?thesis
    using verified_hash [OF assms(1)] verified_hash [OF assms(2)] by (simp add: collide_def digest_eq_iff)
qed

lemma walk_binds_history:
  assumes "length rs = length rs'" "list_all fits_record rs" "list_all fits_record rs'"
    and "walk sha256 h rs = Inr t" "walk sha256 h rs' = Inr t"
  shows "map evidence rs = map evidence rs'
       \<or> (\<exists>i<length rs. collide sha256 (record_preimage (rs ! i)) (record_preimage (rs' ! i)))"
  using assms
proof (induction rs arbitrary: rs' t rule: rev_induct)
  case (snoc r rs)
  from snoc.prems(1) obtain r' qs where rs': "rs' = qs @ [r']" and len: "length rs = length qs"
    by (cases rs' rule: rev_cases) auto
  from snoc.prems(4) obtain m where m: "walk sha256 h rs = Inr m" "record_verify sha256 r m = Inr t"
    unfolding walk_snoc_Inr by blast
  from snoc.prems(5) obtain m' where m': "walk sha256 h qs = Inr m'" "record_verify sha256 r' m' = Inr t"
    unfolding rs' walk_snoc_Inr by blast
  from snoc.prems(2,3) have fits: "fits_record r" "fits_record r'" "list_all fits_record rs" "list_all fits_record qs"
    by (simp_all add: rs')
  from verified_step_back [OF m(2) m'(2) fits(1,2)] show ?case
  proof
    assume "collide sha256 (record_preimage r) (record_preimage r')"
    then have "collide sha256 (record_preimage ((rs @ [r]) ! length rs)) (record_preimage (rs' ! length rs))"
      by (simp add: rs' len nth_append)
    then show ?case by (metis length_append_singleton lessI)
  next
    assume same: "evidence r = evidence r' \<and> m = m'"
    with snoc.IH [OF len fits(3,4) m(1)] m'(1)
    consider "map evidence rs = map evidence qs"
      | i where "i < length rs" "collide sha256 (record_preimage (rs ! i)) (record_preimage (qs ! i))"
      by auto
    then show ?case
    proof cases
      case 2
      then have "collide sha256 (record_preimage ((rs @ [r]) ! i)) (record_preimage (rs' ! i))"
        by (simp add: rs' len nth_append)
      with 2(1) show ?thesis by (metis length_append_singleton less_SucI)
    qed (simp add: rs' same)
  qed
qed simp

end
