(* ===== verification/AuditLedger.thy ===== *)
theory AuditLedger
  imports AuditChain "HOL-Library.Multiset"
begin

text \<open>
  The application layer of the audit service (\<open>crates/services/audit/src/application\<close>) over its
  ports, and the Postgres adapters behind them (\<open>infrastructure/pg_ledger.rs\<close>, \<open>pg_anchor.rs\<close>,
  \<open>pg_key_vault.rs\<close>).  A use case takes the operations of its ports as arguments, as the handlers
  hold them as \<open>Arc<dyn ...>\<close>; the interface \<open>ledger_store\<close> states what the commit path and the
  verifier need of a ledger and is discharged for the Postgres one.
\<close>

section \<open>The Postgres ledger\<close>

text \<open>
  The table in insertion order and whether the pool answers.  The application role may only insert
  and select.  Sequence numbers are compared as the signed \<open>bigint\<close> they are stored as.
\<close>

record pg_ledger =
  rows :: "audit_record list"
  pool_up :: bool

definition rec_sequence :: "audit_record \<Rightarrow> u64" where
  "rec_sequence r = link_sequence (rec_link r)"

definition rec_event_id :: "audit_record \<Rightarrow> string" where
  "rec_event_id r = event_id (rec_event r)"

definition in_partition :: "string \<Rightarrow> audit_record \<Rightarrow> bool" where
  "in_partition p r \<longleftrightarrow> rec_partition r = p"

text \<open>\<open>ORDER BY sequence_no DESC LIMIT 1\<close>.\<close>

fun top_row :: "audit_record list \<Rightarrow> audit_record option" where
  "top_row [] = None"
| "top_row (r # rs) = (case top_row rs of None \<Rightarrow> Some r
     | Some q \<Rightarrow> if sint (rec_sequence q) > sint (rec_sequence r) then Some q else Some r)"

definition pg_head :: "pg_ledger \<Rightarrow> string \<Rightarrow> audit_error + chain_head" where
  "pg_head s p =
     (if \<not> pool_up s then Inl LedgerStoreUnavailable
      else Inr (case top_row (filter (in_partition p) (rows s)) of
        Some r \<Rightarrow> \<lparr>head_sequence = rec_sequence r, head_hash = link_record_hash (rec_link r)\<rparr>
      | None \<Rightarrow> head_genesis))"

definition pg_lookup :: "pg_ledger \<Rightarrow> string \<Rightarrow> audit_error + audit_record option" where
  "pg_lookup s eid =
     (if \<not> pool_up s then Inl LedgerStoreUnavailable
      else Inr (find (\<lambda>r. rec_event_id r = eid) (rows s)))"

text \<open>
  The primary key slot decides first (\<open>ON CONFLICT ... DO NOTHING\<close>), the unique event id second;
  the expected head that the caller passes is not looked at.
\<close>

definition pg_append :: "pg_ledger \<Rightarrow> audit_record \<Rightarrow> chain_head \<Rightarrow> audit_error + pg_ledger" where
  "pg_append s r expected =
     (if \<not> pool_up s then Inl LedgerStoreUnavailable
      else if list_ex (\<lambda>q. in_partition (rec_partition r) q \<and> rec_sequence q = rec_sequence r) (rows s)
      then Inl (ChainHeadConflict (rec_partition r))
      else if list_ex (\<lambda>q. rec_event_id q = rec_event_id r) (rows s)
      then Inl (DuplicateEvent (rec_event_id r))
      else Inr (s\<lparr>rows := rows s @ [r]\<rparr>))"

definition pg_read_partition :: "pg_ledger \<Rightarrow> string \<Rightarrow> audit_error + audit_record list" where
  "pg_read_partition s p =
     (if \<not> pool_up s then Inl LedgerStoreUnavailable
      else Inr (sort_key (\<lambda>r. sint (rec_sequence r)) (filter (in_partition p) (rows s))))"

definition pg_partition_heads :: "pg_ledger \<Rightarrow> audit_error + (string \<times> string) list" where
  "pg_partition_heads s =
     (if \<not> pool_up s then Inl LedgerStoreUnavailable
      else Inr (List.map_filter
        (\<lambda>p. case string_id_new ''partition_key'' p of
           Inl _ \<Rightarrow> None
         | Inr k \<Rightarrow> map_option (\<lambda>r. (k, link_record_hash (rec_link r)))
                      (top_row (filter (in_partition p) (rows s))))
        (sort (remdups (map rec_partition (rows s))))))"

record ledger_query =
  q_subject :: "string option"
  q_tenant :: "string option"
  q_category :: "event_category option"
  q_from :: "datetime option"
  q_to :: "datetime option"
  q_limit :: u64

definition max_page :: int where
  "max_page = 500"

definition query_matches :: "ledger_query \<Rightarrow> audit_record \<Rightarrow> bool" where
  "query_matches q r \<longleftrightarrow>
     (case q_subject q of None \<Rightarrow> True | Some s \<Rightarrow> subject (rec_event r) = Some s)
   \<and> (case q_tenant q of None \<Rightarrow> True | Some t \<Rightarrow> tenant (rec_event r) = Some t)
   \<and> (case q_category q of None \<Rightarrow> True
      | Some c \<Rightarrow> category_hash_tag (category (rec_event r)) = category_hash_tag c)
   \<and> (case q_from q of None \<Rightarrow> True
      | Some t \<Rightarrow> timestamp_millis (occurred_at (rec_event r)) \<ge> timestamp_millis t)
   \<and> (case q_to q of None \<Rightarrow> True
      | Some t \<Rightarrow> timestamp_millis (occurred_at (rec_event r)) \<le> timestamp_millis t)"

text \<open>
  Rows recorded in the same millisecond come in insertion order, one of the orders SQL allows.  A
  limit of \<open>2 ^ 63\<close> or more is negative as an \<open>i64\<close>, and Postgres rejects a negative \<open>LIMIT\<close>.
\<close>

definition pg_query :: "pg_ledger \<Rightarrow> ledger_query \<Rightarrow> audit_error + audit_record list" where
  "pg_query s q =
     (if \<not> pool_up s then Inl LedgerStoreUnavailable
      else let limit = (if q_limit q = 0 \<or> sint (q_limit q) > max_page then max_page
                        else sint (q_limit q))
           in if limit < 0 then Inl LedgerStoreUnavailable
              else Inr (take (nat limit) (sort_key (\<lambda>r. timestamp_millis (recorded_at r))
                (filter (query_matches q) (rows s)))))"

section \<open>Commit\<close>

record record_proof =
  proof_event_id :: string
  proof_partition :: string
  proof_sequence :: u64
  proof_record_hash :: string
  committed_at :: datetime

datatype commit_outcome = Committed record_proof | AlreadyRecorded record_proof

primrec outcome_proof :: "commit_outcome \<Rightarrow> record_proof" where
  "outcome_proof (Committed p) = p"
| "outcome_proof (AlreadyRecorded p) = p"

definition is_duplicate :: "commit_outcome \<Rightarrow> bool" where
  "is_duplicate out = (case out of AlreadyRecorded _ \<Rightarrow> True | Committed _ \<Rightarrow> False)"

definition proof_of :: "audit_record \<Rightarrow> record_proof" where
  "proof_of r =
     \<lparr>proof_event_id = rec_event_id r, proof_partition = rec_partition r,
      proof_sequence = rec_sequence r, proof_record_hash = link_record_hash (rec_link r),
      committed_at = recorded_at r\<rparr>"

definition max_append_retries :: nat where
  "max_append_retries = 8"

text \<open>
  The retry loop of \<open>commit_event\<close>.  \<open>clock\<close> gives the reading taken in each attempt.  The result
  comes with the ledger and the archive as the call leaves them: an append that went through is not
  undone when the archive then fails.
\<close>

function commit_loop ::
  "(bytes \<Rightarrow> bytes) \<Rightarrow> ('s \<Rightarrow> string \<Rightarrow> audit_error + chain_head)
   \<Rightarrow> ('s \<Rightarrow> audit_record \<Rightarrow> chain_head \<Rightarrow> audit_error + 's)
   \<Rightarrow> ('a \<Rightarrow> audit_record \<Rightarrow> audit_error + 'a) \<Rightarrow> (nat \<Rightarrow> datetime)
   \<Rightarrow> audit_event \<Rightarrow> string \<Rightarrow> 's \<Rightarrow> 'a \<Rightarrow> nat \<Rightarrow> (audit_error + commit_outcome) \<times> 's \<times> 'a"
where
  "commit_loop sha256 port_head port_append port_archive clock ev part s a attempt =
     (case port_head s part of
        Inl e \<Rightarrow> (Inl e, s, a)
      | Inr h \<Rightarrow>
          (let r = fst (record_append sha256 ev part h (clock attempt)) in
           case port_append s r h of
             Inr s' \<Rightarrow> (case port_archive a r of
                 Inl e \<Rightarrow> (Inl e, s', a)
               | Inr a' \<Rightarrow> (Inr (Committed (proof_of r)), s', a'))
           | Inl e \<Rightarrow>
               if (case e of ChainHeadConflict _ \<Rightarrow> True | _ \<Rightarrow> False) \<and> attempt + 1 < max_append_retries
               then commit_loop sha256 port_head port_append port_archive clock ev part s a (attempt + 1)
               else (Inl e, s, a)))"
  by pat_completeness auto

termination
  by (relation "measure (\<lambda>(_, _, _, _, _, _, _, _, _, k). max_append_retries - k)") auto

declare commit_loop.simps [simp del]

definition commit_event ::
  "(bytes \<Rightarrow> bytes) \<Rightarrow> ('s \<Rightarrow> string \<Rightarrow> audit_error + audit_record option)
   \<Rightarrow> ('s \<Rightarrow> string \<Rightarrow> audit_error + chain_head)
   \<Rightarrow> ('s \<Rightarrow> audit_record \<Rightarrow> chain_head \<Rightarrow> audit_error + 's)
   \<Rightarrow> ('a \<Rightarrow> audit_record \<Rightarrow> audit_error + 'a) \<Rightarrow> (nat \<Rightarrow> datetime)
   \<Rightarrow> audit_event \<Rightarrow> 's \<Rightarrow> 'a \<Rightarrow> (audit_error + commit_outcome) \<times> 's \<times> 'a"
where
  "commit_event sha256 port_lookup port_head port_append port_archive clock ev s a =
     (case port_lookup s (event_id ev) of
        Inl e \<Rightarrow> (Inl e, s, a)
      | Inr (Some existing) \<Rightarrow> (Inr (AlreadyRecorded (proof_of existing)), s, a)
      | Inr None \<Rightarrow>
          commit_loop sha256 port_head port_append port_archive clock ev
            (partition_key_derive (tenant ev) (category ev)) s a 0)"

section \<open>The write lanes\<close>

text \<open>\<open>IngestHandler::ingest\<close> is the commit itself; the driver folds it over the source until an error.\<close>

fun run_ingest ::
  "(audit_event \<Rightarrow> 's \<Rightarrow> (audit_error + commit_outcome) \<times> 's) \<Rightarrow> audit_event list \<Rightarrow> 's
   \<Rightarrow> (audit_error + unit) \<times> 's" where
  "run_ingest ingest [] s = (Inr (), s)"
| "run_ingest ingest (ev # evs) s =
     (case ingest ev s of
        (Inl e, s') \<Rightarrow> (Inl e, s')
      | (Inr _, s') \<Rightarrow> run_ingest ingest evs s')"

datatype privileged_action_type = BreakGlassAccess | LegalHoldPlace | LegalHoldRelease

definition record_privileged ::
  "(audit_event \<Rightarrow> 's \<Rightarrow> (audit_error + commit_outcome) \<times> 's) \<Rightarrow> audit_event
   \<Rightarrow> privileged_action_type \<Rightarrow> 's \<Rightarrow> (audit_error + record_proof) \<times> 's" where
  "record_privileged commit ev act s =
     (case commit ev s of
        (Inl e, s') \<Rightarrow> (Inl e, s')
      | (Inr out, s') \<Rightarrow> (Inr (outcome_proof out), s'))"

section \<open>Verification\<close>

datatype integrity_status = Verified | HashMismatch | StatusSequenceGap | CheckpointDivergence

record integrity_report =
  status :: integrity_status
  verified_through :: u64
  divergence_at :: "u64 option"
  checkpoint_root :: "string option"

definition report :: "integrity_status \<Rightarrow> u64 \<Rightarrow> u64 option \<Rightarrow> integrity_report" where
  "report st thr at =
     \<lparr>status = st, verified_through = thr, divergence_at = at, checkpoint_root = None\<rparr>"

definition report_verified :: "u64 \<Rightarrow> integrity_report" where
  "report_verified thr =
     \<lparr>status = Verified, verified_through = thr, divergence_at = None, checkpoint_root = None\<rparr>"

fun verify_records ::
  "(bytes \<Rightarrow> bytes) \<Rightarrow> chain_head \<Rightarrow> audit_record list \<Rightarrow> audit_error + integrity_report" where
  "verify_records sha256 h [] = Inr (report_verified (head_sequence h))"
| "verify_records sha256 h (r # rs) =
     (case record_verify sha256 r h of
        Inr h' \<Rightarrow> verify_records sha256 h' rs
      | Inl (ChainHashMismatch seq) \<Rightarrow> Inr (report HashMismatch (head_sequence h) (Some seq))
      | Inl (SequenceGap _) \<Rightarrow> Inr (report StatusSequenceGap (head_sequence h) (Some (rec_sequence r)))
      | Inl e \<Rightarrow> Inl e)"

definition verify_partition ::
  "(bytes \<Rightarrow> bytes) \<Rightarrow> ('s \<Rightarrow> string \<Rightarrow> audit_error + audit_record list) \<Rightarrow> 's \<Rightarrow> string
   \<Rightarrow> audit_error + integrity_report" where
  "verify_partition sha256 port_read s p =
     bind_res (port_read s p) (verify_records sha256 head_genesis)"

definition verify_global ::
  "(bytes \<Rightarrow> bytes) \<Rightarrow> (audit_error + (string \<times> string) list)
   \<Rightarrow> (audit_error + merkle_checkpoint option) \<Rightarrow> audit_error + integrity_report" where
  "verify_global sha256 heads_result latest =
     bind_res heads_result (\<lambda>heads.
       case latest of
         Inr None \<Rightarrow> Inr (report_verified 0)
       | Inl CheckpointVerificationFailed \<Rightarrow> Inr (report CheckpointDivergence 0 None)
       | Inl e \<Rightarrow> Inl e
       | Inr (Some cp) \<Rightarrow>
           (case checkpoint_verify_against sha256 cp heads of
              Inr _ \<Rightarrow> Inr ((report Verified 0 None)\<lparr>checkpoint_root := Some (cp_root cp)\<rparr>)
            | Inl CheckpointVerificationFailed \<Rightarrow>
                Inr ((report CheckpointDivergence 0 None)\<lparr>checkpoint_root := Some (cp_root cp)\<rparr>)
            | Inl e \<Rightarrow> Inl e))"

section \<open>Checkpointing\<close>

text \<open>
  The anchors table, keyed by the checkpoint's time in milliseconds; a second checkpoint of the same
  millisecond is dropped (\<open>ON CONFLICT DO NOTHING\<close>).
\<close>

type_synonym anchors = "merkle_checkpoint list"

definition pg_anchor :: "bool \<Rightarrow> anchors \<Rightarrow> merkle_checkpoint \<Rightarrow> audit_error + anchors" where
  "pg_anchor up as cp =
     (if \<not> up then Inl AnchorWitnessUnavailable
      else if list_ex (\<lambda>q. timestamp_millis (cp_created_at q) = timestamp_millis (cp_created_at cp)) as
      then Inr as else Inr (as @ [cp]))"

fun latest_by_millis :: "anchors \<Rightarrow> merkle_checkpoint option" where
  "latest_by_millis [] = None"
| "latest_by_millis (c # cs) = (case latest_by_millis cs of None \<Rightarrow> Some c
     | Some d \<Rightarrow> if timestamp_millis (cp_created_at d) > timestamp_millis (cp_created_at c)
                then Some d else Some c)"

definition pg_latest_anchored :: "bool \<Rightarrow> anchors \<Rightarrow> audit_error + merkle_checkpoint option" where
  "pg_latest_anchored up as =
     (if \<not> up then Inl AnchorWitnessUnavailable else Inr (latest_by_millis as))"

definition create_and_anchor ::
  "(bytes \<Rightarrow> bytes) \<Rightarrow> (audit_error + (string \<times> string) list)
   \<Rightarrow> ('w \<Rightarrow> merkle_checkpoint \<Rightarrow> audit_error + 'w) \<Rightarrow> datetime \<Rightarrow> 'w
   \<Rightarrow> audit_error + merkle_checkpoint \<times> 'w" where
  "create_and_anchor sha256 heads_result anchor now w =
     bind_res heads_result (\<lambda>heads.
       let cp = checkpoint_over sha256 heads now in
       bind_res (anchor w cp) (\<lambda>w'. Inr (cp, w')))"

section \<open>Crypto-shred\<close>

type_synonym key_vault = "(string, bytes) map"

definition pg_destroy_subject_key :: "bool \<Rightarrow> string \<Rightarrow> key_vault \<Rightarrow> (audit_error + unit) \<times> key_vault" where
  "pg_destroy_subject_key up k v = (if \<not> up then (Inl KeyVaultUnavailable, v) else (Inr (), v(k := None)))"

definition pg_key_exists :: "bool \<Rightarrow> key_vault \<Rightarrow> string \<Rightarrow> audit_error + bool" where
  "pg_key_exists up v k = (if \<not> up then Inl KeyVaultUnavailable else Inr (v k \<noteq> None))"

text \<open>\<open>destroy\<close> is the vault port; the vault it leaves behind is kept on every outcome.\<close>

definition shred ::
  "(string \<Rightarrow> 'v \<Rightarrow> (audit_error + unit) \<times> 'v) \<Rightarrow> datetime \<Rightarrow> string \<Rightarrow> string \<Rightarrow> legal_hold list \<Rightarrow> 'v
   \<Rightarrow> (audit_error + unit) \<times> 'v" where
  "shred destroy now subj key_ref holds =
     st_bind (st_lift (authorize_erasure subj holds now)) (\<lambda>_. destroy key_ref)"

text \<open>
  The \<open>GdprDeletionRequested\<close> arm of the account consumer: chain the request, then shred with no
  holds.
\<close>

definition on_gdpr_deletion ::
  "(audit_event \<Rightarrow> 's \<Rightarrow> (audit_error + commit_outcome) \<times> 's)
   \<Rightarrow> (string \<Rightarrow> 'v \<Rightarrow> (audit_error + unit) \<times> 'v) \<Rightarrow> datetime \<Rightarrow> (audit_error + audit_event) \<Rightarrow> string
   \<Rightarrow> 's \<Rightarrow> 'v \<Rightarrow> (audit_error + unit) \<times> 's \<times> 'v" where
  "on_gdpr_deletion ingest destroy now mapped account_id s v =
     (case string_id_new ''subject_pseudonym'' account_id of
        Inl e \<Rightarrow> (Inl e, s, v)
      | Inr subj \<Rightarrow>
          (case mapped of
             Inl e \<Rightarrow> (Inl e, s, v)
           | Inr ev \<Rightarrow>
               (case ingest ev s of
                  (Inl e, s') \<Rightarrow> (Inl e, s', v)
                | (Inr _, s') \<Rightarrow>
                    (case string_id_new ''subject_key_ref'' (''dek:'' @ subj) of
                       Inl e \<Rightarrow> (Inl e, s', v)
                     | Inr key_ref \<Rightarrow>
                         (case shred destroy now subj key_ref [] v of (res, v') \<Rightarrow> (res, s', v'))))))"

section \<open>Query and export\<close>

record export_manifest =
  export_id :: string
  record_count :: u64
  content_hash :: string
  artifact_ref :: string
  generated_at :: datetime

definition serialize_bundle :: "audit_record list \<Rightarrow> bytes" where
  "serialize_bundle rs =
     foldl (\<lambda>w r. w_str (w_u64 (w_str w (rec_partition r)) (rec_sequence r)) (link_record_hash (rec_link r)))
       (w_u64 [] (of_nat (length rs))) rs"

definition export_records ::
  "(bytes \<Rightarrow> bytes) \<Rightarrow> (audit_error + audit_record list) \<Rightarrow> (string \<Rightarrow> bytes \<Rightarrow> audit_error + string)
   \<Rightarrow> datetime \<Rightarrow> string \<Rightarrow> audit_error + export_manifest" where
  "export_records sha256 queried store_export now eid =
     bind_res queried (\<lambda>rs.
       let content = serialize_bundle rs in
       bind_res (store_export eid content) (\<lambda>ref.
         Inr \<lparr>export_id = eid, record_count = of_nat (length rs),
              content_hash = digest sha256 content, artifact_ref = ref, generated_at = now\<rparr>))"

section \<open>What a ledger promises\<close>

text \<open>
  \<open>history s p\<close> is the chain of partition \<open>p\<close> in the state \<open>s\<close>, \<open>room s\<close> says that one more record
  can be numbered.
\<close>

locale ledger_store =
  fixes sha256 :: "bytes \<Rightarrow> bytes"
    and inv :: "'s \<Rightarrow> bool"
    and room :: "'s \<Rightarrow> bool"
    and history :: "'s \<Rightarrow> string \<Rightarrow> audit_record list"
    and port_lookup :: "'s \<Rightarrow> string \<Rightarrow> audit_error + audit_record option"
    and port_head :: "'s \<Rightarrow> string \<Rightarrow> audit_error + chain_head"
    and port_append :: "'s \<Rightarrow> audit_record \<Rightarrow> chain_head \<Rightarrow> audit_error + 's"
    and port_read :: "'s \<Rightarrow> string \<Rightarrow> audit_error + audit_record list"
  assumes read_law: "inv s \<Longrightarrow> port_read s p = Inr (history s p)"
    and head_law: "inv s \<Longrightarrow> \<exists>h. port_head s p = Inr h \<and> walk sha256 head_genesis (history s p) = Inr h"
    and lookup_total: "inv s \<Longrightarrow> \<exists>x. port_lookup s i = Inr x"
    and lookup_found: "inv s \<Longrightarrow> port_lookup s i = Inr (Some r)
          \<Longrightarrow> r \<in> set (history s (rec_partition r)) \<and> rec_event_id r = i"
    and lookup_missed: "inv s \<Longrightarrow> port_lookup s i = Inr None \<Longrightarrow> r \<in> set (history s p) \<Longrightarrow> rec_event_id r \<noteq> i"
    and ids_unique: "inv s \<Longrightarrow> r \<in> set (history s p) \<Longrightarrow> r' \<in> set (history s q)
          \<Longrightarrow> rec_event_id r = rec_event_id r' \<Longrightarrow> r = r'"
    and append_law: "inv s \<Longrightarrow> room s \<Longrightarrow> port_head s p = Inr h \<Longrightarrow> port_lookup s (event_id ev) = Inr None
          \<Longrightarrow> r = fst (record_append sha256 ev p h now)
          \<Longrightarrow> \<exists>s'. port_append s r h = Inr s' \<and> inv s' \<and> history s' = (history s)(p := history s p @ [r])"
begin

lemma verify_records_of_walk:
  "walk sha256 h rs = Inr t \<Longrightarrow> verify_records sha256 h rs = Inr (report_verified (head_sequence t))"
  by (induction rs arbitrary: h) (auto simp: bind_res_def split: sum.splits)

lemma partition_verifies:
  assumes "inv s"
  shows "verify_partition sha256 port_read s p = Inr (report_verified (of_nat (length (history s p))))"
proof -
  from head_law [OF assms, of p] obtain h where "walk sha256 head_genesis (history s p) = Inr h" by blast
  with walk_sequence [OF this] verify_records_of_walk [OF this] show ?thesis
    by (simp add: verify_partition_def read_law [OF assms] head_genesis_def)
qed

lemma commit_fresh:
  assumes "inv s" "room s" "port_lookup s (event_id ev) = Inr None"
    and "\<And>r. port_archive a r = Inr (store r)"
  shows "\<exists>r s'. commit_event sha256 port_lookup port_head port_append port_archive clock ev s a
             = (Inr (Committed (proof_of r)), s', store r)
         \<and> rec_event r = ev \<and> inv s'
         \<and> history s' = (history s)(rec_partition r := history s (rec_partition r) @ [r])
         \<and> rec_partition r = partition_key_derive (tenant ev) (category ev)"
proof -
  let ?p = "partition_key_derive (tenant ev) (category ev)"
  from head_law [OF assms(1)] obtain h where h: "port_head s ?p = Inr h" by blast
  let ?r = "fst (record_append sha256 ev ?p h (clock 0))"
  have part: "rec_partition ?r = ?p" "rec_event ?r = ev" by (simp_all add: record_append_def Let_def)
  from append_law [OF assms(1,2) h assms(3) refl, of "clock 0"] obtain s'
    where s': "port_append s ?r h = Inr s'" "inv s'" "history s' = (history s)(?p := history s ?p @ [?r])"
    by blast
  have "commit_event sha256 port_lookup port_head port_append port_archive clock ev s a
      = (Inr (Committed (proof_of ?r)), s', store ?r)"
    by (simp add: commit_event_def assms(3,4) commit_loop.simps h s'(1) Let_def)
  with s' part show ?thesis by (intro exI [of _ ?r] exI [of _ s']) simp
qed

text \<open>A redelivery finds the record and changes nothing.\<close>

lemma commit_again:
  assumes "inv s" "r \<in> set (history s p)" "rec_event_id r = event_id ev"
  shows "commit_event sha256 port_lookup port_head port_append port_archive clock ev s a
     = (Inr (AlreadyRecorded (proof_of r)), s, a)"
proof -
  from lookup_total [OF assms(1), of "event_id ev"] obtain x where x: "port_lookup s (event_id ev) = Inr x"
    by blast
  moreover have "x = Some r"
  proof (cases x)
    case None
    then show ?thesis using lookup_missed [OF assms(1) _ assms(2), of "event_id ev"] x assms(3) by simp
  next
    case (Some r')
    with x lookup_found [OF assms(1)] have "r' \<in> set (history s (rec_partition r'))" "rec_event_id r' = event_id ev"
      by simp_all
    with ids_unique [OF assms(1,2)] assms(3) Some show ?thesis by simp
  qed
  ultimately show ?thesis by (simp add: commit_event_def)
qed

end

section \<open>The Postgres ledger keeps the promises\<close>

definition chain_of :: "audit_record list \<Rightarrow> string \<Rightarrow> audit_record list" where
  "chain_of L p = filter (in_partition p) L"

definition ledger_wf :: "(bytes \<Rightarrow> bytes) \<Rightarrow> audit_record list \<Rightarrow> bool" where
  "ledger_wf sha256 L \<longleftrightarrow>
     distinct (map rec_event_id L) \<and> length L < 2 ^ 63
   \<and> (\<forall>p. is_ok (walk sha256 head_genesis (chain_of L p)))"

lemma walk_sequences:
  "walk sha256 head_genesis rs = Inr h \<Longrightarrow> i < length rs \<Longrightarrow> rec_sequence (rs ! i) = of_nat (Suc i)"
proof (induction rs arbitrary: h rule: rev_induct)
  case (snoc r rs)
  then obtain m where m: "walk sha256 head_genesis rs = Inr m" "record_verify sha256 r m = Inr h"
    by (auto simp: walk_snoc_Inr)
  have "rec_sequence r = head_sequence m + 1"
    using m(2) by (simp add: record_verify_Inr_iff rec_sequence_def link_next_def)
  also have "head_sequence m = of_nat (length rs)"
    using walk_sequence [OF m(1)] by (simp add: head_genesis_def)
  finally have "rec_sequence r = of_nat (Suc (length rs))" by simp
  with snoc.IH [OF m(1)] snoc.prems(2) show ?case by (auto simp: nth_append less_Suc_eq)
qed simp

lemma sint_of_nat_small: "n < 2 ^ 63 \<Longrightarrow> sint (of_nat n :: u64) = int n"
  using signed_take_bit_int_eq_self [of 63 "int n"] by (simp add: signed_of_nat)

lemma top_row_snoc:
  "(\<And>q. q \<in> set rs \<Longrightarrow> sint (rec_sequence q) < sint (rec_sequence r)) \<Longrightarrow> top_row (rs @ [r]) = Some r"
  by (induction rs) auto

lemma chain_sint_nth:
  assumes "walk sha256 head_genesis rs = Inr h" "length rs < 2 ^ 63" "i < length rs"
  shows "sint (rec_sequence (rs ! i)) = int (Suc i)"
  unfolding walk_sequences [OF assms(1,3)] using assms(2,3) by (intro sint_of_nat_small) simp

lemma chain_sorted:
  assumes "walk sha256 head_genesis rs = Inr h" "length rs < 2 ^ 63"
  shows "sort_key (\<lambda>r. sint (rec_sequence r)) rs = rs"
  by (rule sort_key_id_if_sorted) (simp add: sorted_iff_nth_mono chain_sint_nth [OF assms])

lemma top_row_chain:
  assumes "walk sha256 head_genesis rs = Inr h" "length rs < 2 ^ 63"
  shows "(case top_row rs of
        Some r \<Rightarrow> \<lparr>head_sequence = rec_sequence r, head_hash = link_record_hash (rec_link r)\<rparr>
      | None \<Rightarrow> head_genesis) = h"
proof (cases rs rule: rev_cases)
  case Nil
  with assms show ?thesis by simp
next
  case (snoc qs r)
  have "sint (rec_sequence q) < sint (rec_sequence r)" if "q \<in> set qs" for q
  proof -
    from that obtain i where i: "i < length qs" "q = qs ! i" by (auto simp: in_set_conv_nth)
    with snoc chain_sint_nth [OF assms, of i] chain_sint_nth [OF assms, of "length qs"]
    show ?thesis by (simp add: nth_append)
  qed
  then have "top_row rs = Some r" unfolding snoc by (rule top_row_snoc)
  moreover from assms(1) snoc obtain m where "record_verify sha256 r m = Inr h"
    by (auto simp: walk_snoc_Inr)
  ultimately show ?thesis
    by (simp add: record_verify_Inr_iff apply_link_def rec_sequence_def)
qed

lemma length_chain_of: "length (chain_of L p) \<le> length L"
  by (simp add: chain_of_def)

lemma chain_of_snoc: "chain_of (L @ [r]) p = (if rec_partition r = p then chain_of L p @ [r] else chain_of L p)"
  by (simp add: chain_of_def in_partition_def)

lemma set_chain_of: "r \<in> set (chain_of L p) \<longleftrightarrow> r \<in> set L \<and> rec_partition r = p"
  by (auto simp: chain_of_def in_partition_def)

lemma ledger_wf_walk:
  assumes "ledger_wf sha256 L"
  obtains h where "walk sha256 head_genesis (chain_of L p) = Inr h" "length (chain_of L p) < 2 ^ 63"
proof -
  from assms have "is_ok (walk sha256 head_genesis (chain_of L p))" "length L < 2 ^ 63"
    by (simp_all add: ledger_wf_def)
  with length_chain_of [of L p] that show ?thesis
    by (auto simp: is_ok_def split: sum.splits)
qed

lemma pg_head_chain:
  assumes "pool_up s" "ledger_wf sha256 (rows s)" "walk sha256 head_genesis (chain_of (rows s) p) = Inr h"
  shows "pg_head s p = Inr h"
proof -
  from ledger_wf_walk [OF assms(2), of p] have "length (chain_of (rows s) p) < 2 ^ 63" by blast
  from top_row_chain [OF assms(3) this] assms(1) show ?thesis
    by (simp add: pg_head_def chain_of_def)
qed

text \<open>The slots that are taken are exactly those up to the head.\<close>

lemma slot_taken_iff:
  assumes "walk sha256 head_genesis (chain_of L p) = Inr h"
  shows "list_ex (\<lambda>q. in_partition p q \<and> rec_sequence q = n) L
     \<longleftrightarrow> (\<exists>i<length (chain_of L p). n = of_nat (Suc i))"
proof -
  have "list_ex (\<lambda>q. in_partition p q \<and> rec_sequence q = n) L
      \<longleftrightarrow> (\<exists>q\<in>set (chain_of L p). rec_sequence q = n)"
    by (auto simp: list_ex_iff chain_of_def)
  also have "\<dots> \<longleftrightarrow> (\<exists>i<length (chain_of L p). rec_sequence (chain_of L p ! i) = n)"
    by (metis in_set_conv_nth)
  finally show ?thesis using walk_sequences [OF assms] by auto
qed

lemma next_slot_free:
  assumes "ledger_wf sha256 L" "walk sha256 head_genesis (chain_of L p) = Inr h"
  shows "\<not> list_ex (\<lambda>q. in_partition p q \<and> rec_sequence q = head_sequence h + 1) L"
proof -
  have "head_sequence h + 1 = of_nat (Suc (length (chain_of L p)))"
    using walk_sequence [OF assms(2)] by (simp add: head_genesis_def)
  moreover from ledger_wf_walk [OF assms(1), of p] have "length (chain_of L p) < 2 ^ 63" by blast
  ultimately show ?thesis
    by (simp only: slot_taken_iff [OF assms(2)]) (auto simp: of_nat_u64_inject simp del: of_nat_Suc)
qed

lemma appended_record:
  "rec_partition (fst (record_append sha256 ev p h now)) = p"
  "rec_event (fst (record_append sha256 ev p h now)) = ev"
  "rec_event_id (fst (record_append sha256 ev p h now)) = event_id ev"
  "rec_sequence (fst (record_append sha256 ev p h now)) = head_sequence h + 1"
  "record_verify sha256 (fst (record_append sha256 ev p h now)) h
     = Inr (snd (record_append sha256 ev p h now))"
  by (simp_all add: record_append_def Let_def rec_event_id_def rec_sequence_def link_next_def
      record_verify_Inr_iff)

lemma ledger_wf_append:
  assumes "ledger_wf sha256 L" "Suc (length L) < 2 ^ 63"
    and "walk sha256 head_genesis (chain_of L p) = Inr h" "event_id ev \<notin> rec_event_id ` set L"
  shows "ledger_wf sha256 (L @ [fst (record_append sha256 ev p h now)])"
proof -
  let ?r = "fst (record_append sha256 ev p h now)"
  have "is_ok (walk sha256 head_genesis (chain_of (L @ [?r]) q))" for q
  proof (cases "q = p")
    case True
    then show ?thesis using assms(3) by (simp add: chain_of_snoc appended_record walk_append)
  next
    case False
    then show ?thesis using assms(1) by (simp add: chain_of_snoc appended_record ledger_wf_def)
  qed
  moreover have "distinct (map rec_event_id (L @ [?r]))"
    using assms(1,4) by (simp add: appended_record ledger_wf_def)
  ultimately show ?thesis using assms(2) unfolding ledger_wf_def by simp
qed

lemma pg_append_at_head:
  assumes "pool_up s" "ledger_wf sha256 (rows s)" "Suc (length (rows s)) < 2 ^ 63"
    and "walk sha256 head_genesis (chain_of (rows s) p) = Inr h"
    and "event_id ev \<notin> rec_event_id ` set (rows s)"
    and "r = fst (record_append sha256 ev p h now)"
  shows "pg_append s r expected = Inr (s\<lparr>rows := rows s @ [r]\<rparr>)"
proof -
  have "\<not> list_ex (\<lambda>q. in_partition (rec_partition r) q \<and> rec_sequence q = rec_sequence r) (rows s)"
    using next_slot_free [OF assms(2,4)] by (simp add: assms(6) appended_record)
  moreover have "\<not> list_ex (\<lambda>q. rec_event_id q = rec_event_id r) (rows s)"
    using assms(5) unfolding assms(6) appended_record list_ex_iff image_iff by metis
  ultimately show ?thesis using assms(1) by (simp add: pg_append_def)
qed

lemma pg_lookup_None: "pg_lookup s i = Inr None \<Longrightarrow> i \<notin> rec_event_id ` set (rows s)"
  by (auto simp: pg_lookup_def find_None_iff split: if_splits)

lemma pg_lookup_Some: "pg_lookup s i = Inr (Some r) \<Longrightarrow> r \<in> set (rows s) \<and> rec_event_id r = i"
  by (auto simp: pg_lookup_def find_Some_iff split: if_splits)

definition pg_inv :: "(bytes \<Rightarrow> bytes) \<Rightarrow> pg_ledger \<Rightarrow> bool" where
  "pg_inv sha256 s \<longleftrightarrow> pool_up s \<and> ledger_wf sha256 (rows s)"

definition pg_room :: "pg_ledger \<Rightarrow> bool" where
  "pg_room s \<longleftrightarrow> Suc (length (rows s)) < 2 ^ 63"

interpretation pg: ledger_store sha256 "pg_inv sha256" pg_room "\<lambda>s. chain_of (rows s)"
  pg_lookup pg_head pg_append pg_read_partition
  for sha256
proof unfold_locales
  fix s p assume inv: "pg_inv sha256 s"
  then have up: "pool_up s" and wf: "ledger_wf sha256 (rows s)" by (simp_all add: pg_inv_def)
  from ledger_wf_walk [OF wf, of p] obtain h where
    h: "walk sha256 head_genesis (chain_of (rows s) p) = Inr h" "length (chain_of (rows s) p) < 2 ^ 63" by blast
  show "pg_read_partition s p = Inr (chain_of (rows s) p)"
    using chain_sorted [OF h] up by (simp add: pg_read_partition_def chain_of_def)
  show "\<exists>h. pg_head s p = Inr h \<and> walk sha256 head_genesis (chain_of (rows s) p) = Inr h"
    using pg_head_chain [OF up wf h(1)] h(1) by blast
next
  fix s i assume "pg_inv sha256 s"
  then show "\<exists>x. pg_lookup s i = Inr x" by (simp add: pg_inv_def pg_lookup_def)
next
  fix s i r assume "pg_lookup s i = Inr (Some r)"
  then show "r \<in> set (chain_of (rows s) (rec_partition r)) \<and> rec_event_id r = i"
    using pg_lookup_Some by (simp add: set_chain_of)
next
  fix s i r p assume "pg_lookup s i = Inr None" "r \<in> set (chain_of (rows s) p)"
  then show "rec_event_id r \<noteq> i" using pg_lookup_None by (auto simp: set_chain_of)
next
  fix s r r' p q
  assume "pg_inv sha256 s" "r \<in> set (chain_of (rows s) p)" "r' \<in> set (chain_of (rows s) q)"
    "rec_event_id r = rec_event_id r'"
  then show "r = r'"
    by (auto simp: pg_inv_def ledger_wf_def set_chain_of distinct_map dest: inj_onD)
next
  fix s p h ev r now
  assume inv: "pg_inv sha256 s" and room: "pg_room s" and head: "pg_head s p = Inr h"
    and fresh: "pg_lookup s (event_id ev) = Inr None" and r: "r = fst (record_append sha256 ev p h now)"
  then have up: "pool_up s" and wf: "ledger_wf sha256 (rows s)" by (simp_all add: pg_inv_def)
  from ledger_wf_walk [OF wf, of p] obtain h' where "walk sha256 head_genesis (chain_of (rows s) p) = Inr h'" by blast
  with pg_head_chain [OF up wf this] head have w: "walk sha256 head_genesis (chain_of (rows s) p) = Inr h" by simp
  note ok = room [unfolded pg_room_def] w pg_lookup_None [OF fresh]
  have "pg_append s r h = Inr (s\<lparr>rows := rows s @ [r]\<rparr>)"
    using pg_append_at_head [OF up wf ok r] .
  moreover have "pg_inv sha256 (s\<lparr>rows := rows s @ [r]\<rparr>)"
    using up ledger_wf_append [OF wf ok] by (simp add: pg_inv_def r)
  moreover have "chain_of (rows s @ [r]) = (chain_of (rows s))(p := chain_of (rows s) p @ [r])"
    by (auto simp: fun_eq_iff chain_of_snoc r appended_record)
  ultimately show "\<exists>s'. pg_append s r h = Inr s' \<and> pg_inv sha256 s'
      \<and> chain_of (rows s') = (chain_of (rows s))(p := chain_of (rows s) p @ [r])"
    by (intro exI [of _ "s\<lparr>rows := rows s @ [r]\<rparr>"]) simp
qed

section \<open>Properties of the ledger\<close>

lemma verify_records_Verified:
  "verify_records sha256 h rs = Inr rep \<Longrightarrow> status rep = Verified \<Longrightarrow>
   \<exists>t. walk sha256 h rs = Inr t \<and> rep = report_verified (head_sequence t)"
  by (induction rs arbitrary: h)
    (auto simp: bind_res_def report_def split: sum.splits audit_error.splits)

lemma walk_nonempty:
  "walk sha256 h rs = Inr t \<Longrightarrow> rs \<noteq> [] \<Longrightarrow> t = apply_link (rec_link (last rs))"
  by (cases rs rule: rev_cases) (auto simp: walk_snoc_Inr record_verify_Inr_iff)

definition sample_record :: "(bytes \<Rightarrow> bytes) \<Rightarrow> datetime \<Rightarrow> audit_record" where
  "sample_record sha256 t = fst (record_append sha256 sample_event ''_global:10'' head_genesis t)"

lemma fits_sample_record: "fits_record (sample_record sha256 t)"
  unfolding fits_record_def sample_record_def appended_record(2)
  by (rule conjI, rule fits_sample) (simp add: record_append_def Let_def link_next_def head_genesis_def genesis_hash_def fits_u64_def
      canonical_bytes_parts sample_event_def sample_actor_def opt_str_part_def pii_part_def w_str_def
      w_bytes_def w_attributes_append w_entry_def)

lemma verify_sample:
  "verify_records sha256 head_genesis [sample_record sha256 t] = Inr (report_verified 1)"
  unfolding sample_record_def
  by (simp add: appended_record) (simp add: record_append_def Let_def apply_link_def link_next_def head_genesis_def)

text \<open>
  C1. Tamper evidence.  Take two versions of a partition that both verify from genesis and end in the
  same record hash at the same sequence number, for instance the stored rows and the rows as they
  were when an auditor noted the head.  Then they agree record by record in every hashed field and in
  every link, or some pair of records at one position is an explicit SHA-256 collision.  Rewriting
  history without changing the head therefore takes a collision.
\<close>

theorem verified_history_is_bound:
  assumes "verify_records sha256 head_genesis rs = Inr rep" "status rep = Verified"
    and "verify_records sha256 head_genesis rs' = Inr rep'" "status rep' = Verified"
    and "verified_through rep = verified_through rep'"
    and "rs \<noteq> []" "link_record_hash (rec_link (last rs)) = link_record_hash (rec_link (last rs'))"
    and "length rs < 2 ^ 64" "length rs' < 2 ^ 64"
    and "list_all fits_record rs" "list_all fits_record rs'"
  shows "map evidence rs = map evidence rs'
       \<or> (\<exists>i<length rs. collide sha256 (record_preimage (rs ! i)) (record_preimage (rs' ! i)))"
proof -
  from verify_records_Verified [OF assms(1,2)] obtain t
    where t: "walk sha256 head_genesis rs = Inr t" "rep = report_verified (head_sequence t)" by blast
  from verify_records_Verified [OF assms(3,4)] obtain t'
    where t': "walk sha256 head_genesis rs' = Inr t'" "rep' = report_verified (head_sequence t')" by blast
  have seq: "head_sequence t = head_sequence t'"
    using assms(5) t(2) t'(2) by (simp add: report_verified_def)
  then have len: "length rs = length rs'"
    using walk_sequence [OF t(1)] walk_sequence [OF t'(1)] assms(8,9)
    by (simp add: head_genesis_def of_nat_u64_inject)
  with assms(6) have "rs' \<noteq> []" by auto
  with walk_nonempty [OF t(1) assms(6)] walk_nonempty [OF t'(1)] assms(7) seq
  have "t = t'" by (simp add: chain_head_eqI apply_link_def)
  with walk_binds_history [OF len assms(10,11) t(1)] t'(1) show ?thesis by simp
qed

theorem verified_history_is_bound_witness:
  "map evidence [sample_record (\<lambda>b. b) 5] = map evidence [sample_record (\<lambda>b. b) 7]
   \<or> (\<exists>i<length [sample_record (\<lambda>b. b) 5]. collide (\<lambda>b. b) (record_preimage ([sample_record (\<lambda>b. b) 5] ! i))
        (record_preimage ([sample_record (\<lambda>b. b) 7] ! i)))"
  by (rule verified_history_is_bound [OF verify_sample _ verify_sample])
    (simp_all add: report_verified_def fits_sample_record, simp add: sample_record_def record_append_def Let_def)

text \<open>
  C10. Crypto-shred leaves the evidence intact: marking any selection of records erased changes no
  verification answer, and the personal data of a marked record can no longer be read.
\<close>

theorem erasure_keeps_chain:
  "verify_records sha256 h (map (\<lambda>r. if sel r then fst (mark_pii_erased r) else r) rs)
     = verify_records sha256 h rs
   \<and> read_pii (fst (mark_pii_erased r)) = Inl PiiEnvelopeUndecryptable"
proof
  have "record_verify sha256 (fst (mark_pii_erased r)) h = record_verify sha256 r h"
    "rec_sequence (fst (mark_pii_erased r)) = rec_sequence r" for r h
    by (simp_all add: mark_pii_erased_def record_verify_def rec_sequence_def)
  then show "verify_records sha256 h (map (\<lambda>r. if sel r then fst (mark_pii_erased r) else r) rs)
     = verify_records sha256 h rs"
    by (induction rs arbitrary: h) (auto split: sum.splits audit_error.splits)
  show "read_pii (fst (mark_pii_erased r)) = Inl PiiEnvelopeUndecryptable"
    by (simp add: mark_pii_erased_def read_pii_def has_pii_def)
qed

definition archive_to :: "audit_record list \<Rightarrow> audit_record \<Rightarrow> audit_error + audit_record list" where
  "archive_to a r = Inr (a @ [r])"

definition empty_ledger :: pg_ledger where
  "empty_ledger = \<lparr>rows = [], pool_up = True\<rparr>"

lemma empty_ledger_facts:
  "pg_inv sha256 empty_ledger" "pg_room empty_ledger" "pg_lookup empty_ledger i = Inr None"
  by (simp_all add: pg_inv_def pg_room_def empty_ledger_def pg_lookup_def ledger_wf_def chain_of_def)

text \<open>
  C4. Exactly once.  On a healthy ledger an event whose id is not recorded is committed: it becomes
  the last record of its own partition, no other partition changes, the answer is the proof of that
  record, every partition verifies to its full length, and the archive receives the record.  A
  redelivery of the event then answers with the same proof and changes neither ledger nor archive.
\<close>

theorem commit_event_exactly_once:
  assumes "pg_inv sha256 s" "pg_room s" "pg_lookup s (event_id ev) = Inr None"
    and "\<And>r. port_archive a r = Inr (store r)"
    and "part = partition_key_derive (tenant ev) (category ev)"
  shows "\<exists>r s'.
      commit_event sha256 pg_lookup pg_head pg_append port_archive clock ev s a
        = (Inr (Committed (proof_of r)), s', store r)
    \<and> rec_event r = ev
    \<and> chain_of (rows s') = (chain_of (rows s))(part := chain_of (rows s) part @ [r])
    \<and> (\<forall>p. verify_partition sha256 pg_read_partition s' p
            = Inr (report_verified (of_nat (length (chain_of (rows s') p)))))
    \<and> commit_event sha256 pg_lookup pg_head pg_append port_archive' clock' ev s' a'
        = (Inr (AlreadyRecorded (proof_of r)), s', a')"
proof -
  obtain r s' where c: "commit_event sha256 pg_lookup pg_head pg_append port_archive clock ev s a
      = (Inr (Committed (proof_of r)), s', store r)" "rec_event r = ev" "pg_inv sha256 s'"
    "chain_of (rows s') = (chain_of (rows s))(part := chain_of (rows s) part @ [r])"
    using pg.commit_fresh [OF assms(1-3), of port_archive a store clock, OF assms(4)] assms(5) by metis
  have mem: "r \<in> set (chain_of (rows s') part)" using c(4) by simp
  have "commit_event sha256 pg_lookup pg_head pg_append port_archive' clock' ev s' a'
      = (Inr (AlreadyRecorded (proof_of r)), s', a')"
    by (rule pg.commit_again [OF c(3) mem]) (simp add: rec_event_id_def c(2))
  with c pg.partition_verifies [OF c(3)] show ?thesis by blast
qed

theorem commit_event_exactly_once_witness:
  "\<exists>r s'.
      commit_event (\<lambda>b. b) pg_lookup pg_head pg_append archive_to (\<lambda>_. 0) sample_event empty_ledger []
        = (Inr (Committed (proof_of r)), s', [r])
    \<and> rec_event r = sample_event
    \<and> chain_of (rows s') = (chain_of (rows empty_ledger))
        (partition_key_derive None Identity := chain_of (rows empty_ledger) (partition_key_derive None Identity) @ [r])
    \<and> (\<forall>p. verify_partition (\<lambda>b. b) pg_read_partition s' p
            = Inr (report_verified (of_nat (length (chain_of (rows s') p)))))
    \<and> commit_event (\<lambda>b. b) pg_lookup pg_head pg_append archive_to (\<lambda>_. 1) sample_event s' []
        = (Inr (AlreadyRecorded (proof_of r)), s', [])"
  by (rule commit_event_exactly_once [OF empty_ledger_facts]) (simp_all add: archive_to_def sample_event_def)

text \<open>
  C14. A record that the archive missed stays missing.  If the ledger takes the record and the archive
  then fails, the call reports the failure with the record already in the ledger; the redelivery that
  the retryable error asks for answers \<open>AlreadyRecorded\<close> and leaves the archive as it is.
\<close>

theorem archive_gap_not_healed:
  assumes "pg_inv sha256 s" "pg_room s" "pg_lookup s (event_id ev) = Inr None"
  shows "\<exists>r s'.
      commit_event sha256 pg_lookup pg_head pg_append (\<lambda>_ _. Inl ArchiveUnavailable) clock ev s a
        = (Inl ArchiveUnavailable, s', a)
    \<and> rec_event r = ev \<and> r \<in> set (rows s')
    \<and> commit_event sha256 pg_lookup pg_head pg_append port_archive clock' ev s' a
        = (Inr (AlreadyRecorded (proof_of r)), s', a)"
proof -
  let ?p = "partition_key_derive (tenant ev) (category ev)"
  from pg.head_law [OF assms(1)] obtain h where h: "pg_head s ?p = Inr h" by blast
  let ?r = "fst (record_append sha256 ev ?p h (clock 0))"
  from pg.append_law [OF assms(1,2) h assms(3) refl, of "clock 0"] obtain s'
    where s': "pg_append s ?r h = Inr s'" "pg_inv sha256 s'"
      "chain_of (rows s') = (chain_of (rows s))(?p := chain_of (rows s) ?p @ [?r])" by blast
  have "commit_event sha256 pg_lookup pg_head pg_append (\<lambda>_ _. Inl ArchiveUnavailable) clock ev s a
      = (Inl ArchiveUnavailable, s', a)"
    by (simp add: commit_event_def assms(3) commit_loop.simps h s'(1) Let_def)
  moreover have mem: "?r \<in> set (chain_of (rows s') ?p)" using s'(3) by simp
  moreover have "commit_event sha256 pg_lookup pg_head pg_append port_archive clock' ev s' a
      = (Inr (AlreadyRecorded (proof_of ?r)), s', a)"
    by (rule pg.commit_again [OF s'(2) mem]) (rule appended_record)
  ultimately show ?thesis
    by (intro exI [of _ ?r] exI [of _ s']) (simp add: set_chain_of appended_record)
qed

theorem archive_gap_not_healed_witness:
  "\<exists>r s'.
      commit_event (\<lambda>b. b) pg_lookup pg_head pg_append (\<lambda>_ _. Inl ArchiveUnavailable) (\<lambda>_. 0) sample_event
        empty_ledger ([] :: audit_record list) = (Inl ArchiveUnavailable, s', [])
    \<and> rec_event r = sample_event \<and> r \<in> set (rows s')
    \<and> commit_event (\<lambda>b. b) pg_lookup pg_head pg_append archive_to (\<lambda>_. 1) sample_event s' []
        = (Inr (AlreadyRecorded (proof_of r)), s', [])"
  by (rule archive_gap_not_healed [OF empty_ledger_facts])

text \<open>
  C12. Lawful retention wins over erasure.  For every vault: while an active hold covers the subject,
  the shred is refused with that subject's error and leaves the vault in the state it had; with no
  covering hold the shred is exactly one call of the vault's destruction.  On the PostgreSQL vault the
  subject's key is then gone and every other key remains, and an unreachable vault keeps all its keys.
\<close>

theorem legal_hold_gates_shred:
  "shred destroy now subj key_ref holds v =
     (if \<exists>h\<in>set holds. hold_subject h = subj \<and> placed_at h \<le> now
           \<and> (\<forall>t. released_at h = Some t \<longrightarrow> now < t)
      then (Inl (ShredBlockedByLegalHold subj), v) else destroy key_ref v)
   \<and> shred (pg_destroy_subject_key up) now subj key_ref holds keys =
     (if \<exists>h\<in>set holds. hold_subject h = subj \<and> placed_at h \<le> now
           \<and> (\<forall>t. released_at h = Some t \<longrightarrow> now < t)
      then (Inl (ShredBlockedByLegalHold subj), keys)
      else if up then (Inr (), keys(key_ref := None))
      else (Inl KeyVaultUnavailable, keys))"
proof -
  have covers: "list_ex (\<lambda>h. hold_covers h subj now) holds \<longleftrightarrow>
    (\<exists>h\<in>set holds. hold_subject h = subj \<and> placed_at h \<le> now
           \<and> (\<forall>t. released_at h = Some t \<longrightarrow> now < t))"
    by (auto simp: list_ex_iff hold_covers_def hold_is_active_def split: option.splits)
  have any: "shred f now subj key_ref holds w =
      (if list_ex (\<lambda>h. hold_covers h subj now) holds
       then (Inl (ShredBlockedByLegalHold subj), w) else f key_ref w)"
    for f :: "string \<Rightarrow> 'w \<Rightarrow> (audit_error + unit) \<times> 'w" and w
    by (auto simp: shred_def authorize_erasure_def st_bind_def st_lift_def)
  show ?thesis unfolding any covers by (auto simp: pg_destroy_subject_key_def)
qed

theorem legal_hold_gates_shred_witness:
  "shred (\<lambda>k ks. (Inr (), k # ks)) 10 ''u-1'' ''dek:u-1''
      [\<lparr>hold_id = ''h'', hold_subject = ''u-1'', placed_at = 3, released_at = None\<rparr>] []
     = (Inl (ShredBlockedByLegalHold ''u-1''), [])
   \<and> shred (pg_destroy_subject_key True) 10 ''u-1'' ''dek:u-1''
      [\<lparr>hold_id = ''h'', hold_subject = ''u-1'', placed_at = 3, released_at = None\<rparr>] [''dek:u-1'' \<mapsto> [7]]
     = (Inl (ShredBlockedByLegalHold ''u-1''), [''dek:u-1'' \<mapsto> [7]])
   \<and> shred (pg_destroy_subject_key True) 10 ''u-1'' ''dek:u-1''
      [\<lparr>hold_id = ''h'', hold_subject = ''u-1'', placed_at = 3, released_at = Some 9\<rparr>] [''dek:u-1'' \<mapsto> [7]]
     = (Inr (), Map.empty)"
  by (simp add: legal_hold_gates_shred pg_destroy_subject_key_def)

section \<open>Checkpoints\<close>

lemma root_preimage_perm:
  assumes "mset heads = mset heads'" "distinct (map fst heads)"
  shows "root_preimage heads = root_preimage heads'"
proof -
  have "sort_key fst heads = sort_key fst heads'"
  proof (rule sort_key_inj_key_eq)
    show "mset heads = mset (sort_key fst heads')" using assms(1) by simp
    show "inj_on fst (set heads)" using assms(2) by (simp add: distinct_map)
  qed simp
  then show ?thesis by (simp add: root_preimage_def)
qed

lemma root_preimage_binds:
  assumes "fits_u64 heads" "fits_u64 heads'" "list_all fits_entry heads" "list_all fits_entry heads'"
    and "root_preimage heads = root_preimage heads'"
  shows "mset heads = mset heads'"
proof -
  have "sort_key fst heads = sort_key fst heads'"
    using w_attributes_cut [of "sort_key fst heads" "sort_key fst heads'" "[]" "[]"] assms
    by (simp add: root_preimage_def fits_u64_def list_all_iff)
  then show ?thesis by (metis mset_sort)
qed

text \<open>
  C11. A checkpoint stands for the set of partition heads.  It accepts the heads it was taken over in
  any order; and if it accepts any list of heads, that list is a rearrangement of the original one,
  or the two root preimages are an explicit SHA-256 collision.  A partition that is dropped, added
  or rewound is therefore reported.
\<close>

theorem checkpoint_binds_heads:
  assumes "fits_u64 heads" "fits_u64 heads'" "list_all fits_entry heads" "list_all fits_entry heads'"
    and "distinct (map fst heads)"
  shows "(mset heads = mset heads' \<longrightarrow>
            checkpoint_verify_against sha256 (checkpoint_over sha256 heads t) heads' = Inr ())
       \<and> (checkpoint_verify_against sha256 (checkpoint_over sha256 heads t) heads' = Inr () \<longrightarrow>
            mset heads = mset heads' \<or> collide sha256 (root_preimage heads) (root_preimage heads'))"
proof (intro conjI impI)
  assume eq: "mset heads = mset heads'"
  from root_preimage_perm [OF this assms(5)] mset_eq_length [OF eq]
  show "checkpoint_verify_against sha256 (checkpoint_over sha256 heads t) heads' = Inr ()"
    by (simp add: checkpoint_verify_against_def checkpoint_over_def compute_root_def)
next
  assume "checkpoint_verify_against sha256 (checkpoint_over sha256 heads t) heads' = Inr ()"
  then have "sha256 (root_preimage heads') = sha256 (root_preimage heads)"
    by (simp add: checkpoint_verify_against_def checkpoint_over_def compute_root_def digest_eq_iff
        split: if_splits)
  then show "mset heads = mset heads' \<or> collide sha256 (root_preimage heads) (root_preimage heads')"
    using root_preimage_binds [OF assms(1-4)] by (auto simp: collide_def)
qed

theorem checkpoint_binds_heads_witness:
  "checkpoint_verify_against (\<lambda>b. b) (checkpoint_over (\<lambda>b. b) [(''b'', ''1''), (''a'', ''2'')] 0)
     [(''a'', ''2''), (''b'', ''1'')] = Inr ()"
  using checkpoint_binds_heads [of "[(''b'', ''1''), (''a'', ''2'')]" "[(''a'', ''2''), (''b'', ''1'')]" "\<lambda>b. b" 0]
  by (simp add: fits_u64_def fits_entry_def)

text \<open>
  The global check is exact.  As soon as a record is committed after the last checkpoint, the
  check reports \<open>CheckpointDivergence\<close> on an untampered ledger: here the ledger is empty when the
  checkpoint is anchored and holds one honestly committed record, which verifies, when the check runs.
\<close>

lemma global_check_flags_honest_append:
  "create_and_anchor sha256 (pg_partition_heads empty_ledger) (pg_anchor True) 0 []
       = Inr (checkpoint_over sha256 [] 0, [checkpoint_over sha256 [] 0])
   \<and> commit_event sha256 pg_lookup pg_head pg_append archive_to (\<lambda>_. 0) sample_event empty_ledger []
       = (Inr (Committed (proof_of (sample_record sha256 0))),
          \<lparr>rows = [sample_record sha256 0], pool_up = True\<rparr>, [sample_record sha256 0])
   \<and> verify_partition sha256 pg_read_partition \<lparr>rows = [sample_record sha256 0], pool_up = True\<rparr> ''_global:10''
       = Inr (report_verified 1)
   \<and> verify_global sha256 (pg_partition_heads \<lparr>rows = [sample_record sha256 0], pool_up = True\<rparr>)
         (pg_latest_anchored True [checkpoint_over sha256 [] 0])
       = Inr ((report CheckpointDivergence 0 None)\<lparr>checkpoint_root := Some (cp_root (checkpoint_over sha256 [] 0))\<rparr>)"
proof -
  define cp where "cp = checkpoint_over sha256 [] 0"
  define r where "r = sample_record sha256 0"
  have part: "partition_key_derive (tenant sample_event) (category sample_event) = ''_global:10''"
    unfolding partition_key_derive_def dec_tag by (simp add: sample_event_def)
  have "rec_partition r = ''_global:10''" by (simp add: r_def sample_record_def appended_record)
  moreover have "\<not> is_blank ''_global:10''" by code_simp
  ultimately have heads: "pg_partition_heads \<lparr>rows = [r], pool_up = True\<rparr>
      = Inr [(''_global:10'', link_record_hash (rec_link r))]"
    by (simp add: pg_partition_heads_def string_id_new_def in_partition_def List.map_filter_def)
  have anchored: "create_and_anchor sha256 (pg_partition_heads empty_ledger) (pg_anchor True) 0 [] = Inr (cp, [cp])"
    by (simp add: create_and_anchor_def pg_partition_heads_def empty_ledger_def pg_anchor_def cp_def
        List.map_filter_def Let_def)
  have committed: "commit_event sha256 pg_lookup pg_head pg_append archive_to (\<lambda>_. 0) sample_event empty_ledger []
       = (Inr (Committed (proof_of r)), \<lparr>rows = [r], pool_up = True\<rparr>, [r])"
    by (simp add: commit_event_def part commit_loop.simps pg_lookup_def pg_head_def pg_append_def
        empty_ledger_def archive_to_def r_def sample_record_def Let_def)
  have "verify_partition sha256 pg_read_partition \<lparr>rows = [r], pool_up = True\<rparr> ''_global:10''
       = Inr (report_verified 1)"
    using verify_sample [of sha256 0] \<open>rec_partition r = _\<close>
    by (simp add: verify_partition_def pg_read_partition_def in_partition_def r_def)
  with anchored committed show ?thesis
    unfolding cp_def [symmetric] r_def [symmetric]
    by (simp add: verify_global_def heads pg_latest_anchored_def checkpoint_verify_against_def cp_def
        checkpoint_over_def)
qed

end
