(* ===== verification/AuditWriters.thy ===== *)
theory AuditWriters
  imports AuditLedger
begin

text \<open>
  Any number of workers run \<open>commit_event\<close> (\<open>crates/services/audit/src/application/commit.rs\<close>) against
  one Postgres ledger.  Between two awaits of one worker the others may run: each await is a step of
  its own, and every port may fail, a write also after it took effect.  The theory shows that the chains stay intact and that an answer
  is only given for a record that is in the ledger.
\<close>

section \<open>The step relation\<close>

datatype writer_pc =
  WIdle
| WLookup audit_event
| WHead audit_event nat
| WAppend audit_event nat chain_head
| WArchive audit_record
| WDone "audit_error + commit_outcome"

record audit_sys =
  sys_rows :: "audit_record list"
  sys_archive :: "audit_record list"
  writers :: "nat \<Rightarrow> writer_pc"

abbreviation db :: "audit_sys \<Rightarrow> pg_ledger" where
  "db s \<equiv> \<lparr>rows = sys_rows s, pool_up = True\<rparr>"

definition sys_init :: audit_sys where
  "sys_init = \<lparr>sys_rows = [], sys_archive = [], writers = (\<lambda>_. WIdle)\<rparr>"

definition goto :: "nat \<Rightarrow> writer_pc \<Rightarrow> audit_sys \<Rightarrow> audit_sys" where
  "goto i pc s = s\<lparr>writers := (writers s)(i := pc)\<rparr>"

abbreviation part_of :: "audit_event \<Rightarrow> string" where
  "part_of ev \<equiv> partition_key_derive (tenant ev) (category ev)"

definition is_conflict :: "audit_error \<Rightarrow> bool" where
  "is_conflict e = (case e of ChainHeadConflict _ \<Rightarrow> True | _ \<Rightarrow> False)"

inductive writer_step :: "(bytes \<Rightarrow> bytes) \<Rightarrow> audit_sys \<Rightarrow> audit_sys \<Rightarrow> bool" for sha256 where
  deliver: "writers s i = WIdle \<or> writers s i = WDone out \<Longrightarrow> writer_step sha256 s (goto i (WLookup ev) s)"
| lookup_hit:
    "\<lbrakk>writers s i = WLookup ev; pg_lookup (db s) (event_id ev) = Inr (Some r)\<rbrakk>
     \<Longrightarrow> writer_step sha256 s (goto i (WDone (Inr (AlreadyRecorded (proof_of r)))) s)"
| lookup_miss:
    "\<lbrakk>writers s i = WLookup ev; pg_lookup (db s) (event_id ev) = Inr None\<rbrakk>
     \<Longrightarrow> writer_step sha256 s (goto i (WHead ev 0) s)"
| read_head:
    "\<lbrakk>writers s i = WHead ev k; pg_head (db s) (part_of ev) = Inr h\<rbrakk>
     \<Longrightarrow> writer_step sha256 s (goto i (WAppend ev k h) s)"
| append_wins:
    "\<lbrakk>writers s i = WAppend ev k h; r = fst (record_append sha256 ev (part_of ev) h now);
      pg_append (db s) r h = Inr s'\<rbrakk>
     \<Longrightarrow> writer_step sha256 s (goto i (WArchive r) (s\<lparr>sys_rows := rows s'\<rparr>))"
| append_unknown:
    "\<lbrakk>writers s i = WAppend ev k h; r = fst (record_append sha256 ev (part_of ev) h now);
      pg_append (db s) r h = Inr s'\<rbrakk>
     \<Longrightarrow> writer_step sha256 s (goto i (WDone (Inl LedgerStoreUnavailable)) (s\<lparr>sys_rows := rows s'\<rparr>))"
| append_retries:
    "\<lbrakk>writers s i = WAppend ev k h; r = fst (record_append sha256 ev (part_of ev) h now);
      pg_append (db s) r h = Inl e; is_conflict e; k + 1 < max_append_retries\<rbrakk>
     \<Longrightarrow> writer_step sha256 s (goto i (WHead ev (k + 1)) s)"
| append_fails:
    "\<lbrakk>writers s i = WAppend ev k h; r = fst (record_append sha256 ev (part_of ev) h now);
      pg_append (db s) r h = Inl e; \<not> (is_conflict e \<and> k + 1 < max_append_retries)\<rbrakk>
     \<Longrightarrow> writer_step sha256 s (goto i (WDone (Inl e)) s)"
| archive_done:
    "writers s i = WArchive r
     \<Longrightarrow> writer_step sha256 s
          (goto i (WDone (Inr (Committed (proof_of r)))) (s\<lparr>sys_archive := r # sys_archive s\<rparr>))"
| archive_fails:
    "writers s i = WArchive r \<Longrightarrow> writer_step sha256 s (goto i (WDone (Inl ArchiveUnavailable)) s)"
| archive_unknown:
    "writers s i = WArchive r
     \<Longrightarrow> writer_step sha256 s
          (goto i (WDone (Inl ArchiveUnavailable)) (s\<lparr>sys_archive := r # sys_archive s\<rparr>))"
| store_fails:
    "writers s i \<in> {WLookup ev, WHead ev k, WAppend ev k h}
     \<Longrightarrow> writer_step sha256 s (goto i (WDone (Inl LedgerStoreUnavailable)) s)"

inductive writers_reach :: "(bytes \<Rightarrow> bytes) \<Rightarrow> audit_sys \<Rightarrow> bool" for sha256 where
  writers_start: "writers_reach sha256 sys_init"
| writers_next: "writers_reach sha256 s \<Longrightarrow> writer_step sha256 s s' \<Longrightarrow> writers_reach sha256 s'"

section \<open>The invariant\<close>

text \<open>
  A head that a worker holds was the head of some prefix of the chain; an answer names a record of
  the ledger.
\<close>

definition read_earlier :: "(bytes \<Rightarrow> bytes) \<Rightarrow> audit_record list \<Rightarrow> string \<Rightarrow> chain_head \<Rightarrow> bool" where
  "read_earlier sha256 L p h \<longleftrightarrow>
     (\<exists>m\<le>length (chain_of L p). walk sha256 head_genesis (take m (chain_of L p)) = Inr h)"

definition pc_ok :: "(bytes \<Rightarrow> bytes) \<Rightarrow> audit_record list \<Rightarrow> writer_pc \<Rightarrow> bool" where
  "pc_ok sha256 L pc = (case pc of
     WAppend ev _ h \<Rightarrow> read_earlier sha256 L (part_of ev) h
   | WArchive r \<Rightarrow> r \<in> set L
   | WDone (Inr out) \<Rightarrow> outcome_proof out \<in> proof_of ` set L
   | _ \<Rightarrow> True)"

definition sys_inv :: "(bytes \<Rightarrow> bytes) \<Rightarrow> audit_sys \<Rightarrow> bool" where
  "sys_inv sha256 s \<longleftrightarrow> ledger_wf sha256 (sys_rows s) \<and> (\<forall>i. pc_ok sha256 (sys_rows s) (writers s i))"

lemma goto_fields [simp]:
  "sys_rows (goto i pc s) = sys_rows s" "sys_archive (goto i pc s) = sys_archive s"
  "writers (goto i pc s) = (writers s)(i := pc)"
  by (simp_all add: goto_def)

lemma read_earlier_grows: "read_earlier sha256 L p h \<Longrightarrow> read_earlier sha256 (L @ [r]) p h"
proof -
  assume "read_earlier sha256 L p h"
  then obtain m where m: "m \<le> length (chain_of L p)" "walk sha256 head_genesis (take m (chain_of L p)) = Inr h"
    unfolding read_earlier_def by blast
  moreover have "take m (chain_of (L @ [r]) p) = take m (chain_of L p)" "m \<le> length (chain_of (L @ [r]) p)"
    using m(1) by (simp_all add: chain_of_snoc)
  ultimately show ?thesis unfolding read_earlier_def by auto
qed

lemma pc_ok_grows: "pc_ok sha256 L pc \<Longrightarrow> pc_ok sha256 (L @ [r]) pc"
  by (auto simp: pc_ok_def read_earlier_grows split: writer_pc.splits sum.splits)

text \<open>
  The slot decides the race: if the slot after a head read earlier is still free, that head is
  current.
\<close>

lemma free_slot_head_current:
  assumes "ledger_wf sha256 L" "read_earlier sha256 L p h"
    and "\<not> list_ex (\<lambda>q. in_partition p q \<and> rec_sequence q = head_sequence h + 1) L"
  shows "walk sha256 head_genesis (chain_of L p) = Inr h"
proof -
  from ledger_wf_walk [OF assms(1), of p] obtain t where t: "walk sha256 head_genesis (chain_of L p) = Inr t" by blast
  from assms(2) obtain m where m: "m \<le> length (chain_of L p)"
    "walk sha256 head_genesis (take m (chain_of L p)) = Inr h" by (auto simp: read_earlier_def)
  have "head_sequence h + 1 = of_nat (Suc m)"
    using walk_sequence [OF m(2)] m(1) by (simp add: head_genesis_def)
  with assms(3) have "\<not> m < length (chain_of L p)"
    unfolding slot_taken_iff [OF t] by blast
  with m show ?thesis by simp
qed

lemma append_keeps_wf:
  assumes "ledger_wf sha256 L" "read_earlier sha256 L (part_of ev) h" "Suc (length L) < 2 ^ 63"
    and "r = fst (record_append sha256 ev (part_of ev) h now)"
    and "pg_append \<lparr>rows = L, pool_up = True\<rparr> r h = Inr s'"
  shows "rows s' = L @ [r] \<and> ledger_wf sha256 (L @ [r])"
proof -
  from assms(5) have free: "\<not> list_ex (\<lambda>q. in_partition (rec_partition r) q \<and> rec_sequence q = rec_sequence r) L"
    and id: "\<not> list_ex (\<lambda>q. rec_event_id q = rec_event_id r) L" and rows: "rows s' = L @ [r]"
    by (auto simp: pg_append_def split: if_splits)
  from free have "walk sha256 head_genesis (chain_of L (part_of ev)) = Inr h"
    using free_slot_head_current [OF assms(1,2)] by (simp add: assms(4) appended_record)
  moreover from id have "event_id ev \<notin> rec_event_id ` set L"
    by (auto simp: assms(4) appended_record list_ex_iff)
  ultimately show ?thesis using rows ledger_wf_append [OF assms(1,3)] by (simp add: assms(4))
qed

lemma writer_step_rows:
  "writer_step sha256 s s' \<Longrightarrow> \<exists>rs. sys_rows s' = sys_rows s @ rs"
  by (induction rule: writer_step.induct) (auto simp: pg_append_def split: if_splits)

lemma head_read_now:
  assumes "ledger_wf sha256 L" "pg_head \<lparr>rows = L, pool_up = True\<rparr> p = Inr h"
  shows "read_earlier sha256 L p h"
proof -
  from ledger_wf_walk [OF assms(1), of p] obtain t where t: "walk sha256 head_genesis (chain_of L p) = Inr t" by blast
  with pg_head_chain [of "\<lparr>rows = L, pool_up = True\<rparr>" sha256 p t] assms have "h = t" by simp
  with t show ?thesis unfolding read_earlier_def by (intro exI [of _ "length (chain_of L p)"]) simp
qed

lemma appended_inv:
  assumes inv: "sys_inv sha256 s" and len: "length (rows s') < 2 ^ 63"
    and pc: "writers s i = WAppend ev k h" and r: "r = fst (record_append sha256 ev (part_of ev) h now)"
    and app: "pg_append (db s) r h = Inr s'" and ok: "pc_ok sha256 (sys_rows s @ [r]) pc"
  shows "sys_inv sha256 (goto i pc (s\<lparr>sys_rows := rows s'\<rparr>))"
proof -
  have wf: "ledger_wf sha256 (sys_rows s)" and "pc_ok sha256 (sys_rows s) (writers s i)"
    using inv by (simp_all add: sys_inv_def)
  then have early: "read_earlier sha256 (sys_rows s) (part_of ev) h" by (simp add: pc pc_ok_def)
  have rows: "rows s' = sys_rows s @ [r]" using app by (auto simp: pg_append_def split: if_splits)
  with len have "Suc (length (sys_rows s)) < 2 ^ 63" by simp
  from append_keeps_wf [OF wf early this r app] inv ok
  show ?thesis by (auto simp: sys_inv_def rows pc_ok_grows)
qed

lemma writer_step_inv:
  "writer_step sha256 s s' \<Longrightarrow> sys_inv sha256 s \<Longrightarrow> length (sys_rows s') < 2 ^ 63 \<Longrightarrow> sys_inv sha256 s'"
proof (induction rule: writer_step.induct)
  case (lookup_hit s i ev r)
  then have "proof_of r \<in> proof_of ` set (sys_rows s)" using pg_lookup_Some by fastforce
  with lookup_hit show ?case by (simp add: sys_inv_def pc_ok_def)
next
  case (read_head s i ev k h)
  then show ?case using head_read_now by (simp add: sys_inv_def pc_ok_def)
next
  case (append_wins s i ev k h r now s')
  have "pc_ok sha256 (sys_rows s @ [r]) (WArchive r)" by (simp add: pc_ok_def)
  then show ?case using append_wins.prems append_wins.hyps by (intro appended_inv) simp_all
next
  case (append_unknown s i ev k h r now s')
  have "pc_ok sha256 (sys_rows s @ [r]) (WDone (Inl LedgerStoreUnavailable))" by (simp add: pc_ok_def)
  then show ?case using append_unknown.prems append_unknown.hyps by (intro appended_inv) simp_all
next
  case (archive_done s i r)
  then have "pc_ok sha256 (sys_rows s) (WArchive r)" by (metis sys_inv_def)
  with archive_done show ?case by (simp add: sys_inv_def pc_ok_def)
qed (simp_all add: sys_inv_def pc_ok_def)

lemma writers_reach_inv:
  "writers_reach sha256 s \<Longrightarrow> length (sys_rows s) < 2 ^ 63 \<Longrightarrow> sys_inv sha256 s"
proof (induction rule: writers_reach.induct)
  case writers_start
  show ?case by (simp add: sys_inv_def sys_init_def ledger_wf_def chain_of_def pc_ok_def)
next
  case (writers_next s s')
  from writer_step_rows [OF writers_next.hyps(2)] have "length (sys_rows s) \<le> length (sys_rows s')" by auto
  with writers_next show ?case by (meson writer_step_inv le_less_trans)
qed

section \<open>Properties\<close>

definition race_start :: "audit_event \<Rightarrow> audit_sys" where
  "race_start ev = \<lparr>sys_rows = [], sys_archive = [], writers = (\<lambda>_. WIdle)(0 := WHead ev 0, 1 := WHead ev 0)\<rparr>"

definition race_record :: "(bytes \<Rightarrow> bytes) \<Rightarrow> audit_event \<Rightarrow> audit_record" where
  "race_record sha256 ev = fst (record_append sha256 ev (part_of ev) head_genesis 0)"

text \<open>Worker 0 has appended, worker 1 has passed its lookup before that.\<close>

definition race_won :: "(bytes \<Rightarrow> bytes) \<Rightarrow> audit_event \<Rightarrow> audit_sys" where
  "race_won sha256 ev = \<lparr>sys_rows = [race_record sha256 ev], sys_archive = [],
     writers = (\<lambda>_. WIdle)(0 := WArchive (race_record sha256 ev), 1 := WHead ev 0)\<rparr>"

lemma audit_sys_eqI:
  "\<lbrakk>sys_rows s = sys_rows t; sys_archive s = sys_archive t; writers s = writers t\<rbrakk> \<Longrightarrow> s = (t :: audit_sys)"
  by (cases s; cases t) simp

lemma race_start_reached: "writers_reach sha256 (race_start ev)"
proof -
  let ?s0 = "sys_init"
  let ?s1 = "goto 0 (WLookup ev) ?s0"
  let ?s2 = "goto 1 (WLookup ev) ?s1"
  let ?s3 = "goto 0 (WHead ev 0) ?s2"
  let ?s4 = "goto 1 (WHead ev 0) ?s3"
  have look: "pg_lookup \<lparr>rows = [], pool_up = True\<rparr> i = Inr None" for i by (simp add: pg_lookup_def)
  have "writers_reach sha256 ?s1"
    by (rule writers_next [OF writers_start]) (rule deliver, simp add: sys_init_def)
  then have "writers_reach sha256 ?s2"
    by (rule writers_next) (rule deliver, simp add: sys_init_def)
  then have "writers_reach sha256 ?s3"
    by (rule writers_next) (rule lookup_miss, simp, simp add: sys_init_def look)
  then have "writers_reach sha256 ?s4"
    by (rule writers_next) (rule lookup_miss, simp, simp add: sys_init_def look)
  moreover have "?s4 = race_start ev"
    by (rule audit_sys_eqI) (simp_all add: sys_init_def race_start_def fun_eq_iff)
  ultimately show ?thesis by simp
qed

lemma race_won_reached: "writers_reach sha256 (race_won sha256 ev)"
proof -
  let ?s1 = "goto 0 (WAppend ev 0 head_genesis) (race_start ev)"
  let ?r = "race_record sha256 ev"
  have r1: "writers_reach sha256 ?s1"
    by (rule writers_next [OF race_start_reached [of _ ev]], rule read_head)
      (simp_all add: race_start_def pg_head_def)
  have "writers_reach sha256 (goto 0 (WArchive ?r) (?s1\<lparr>sys_rows := rows \<lparr>rows = [?r], pool_up = True\<rparr>\<rparr>))"
    by (rule writers_next [OF r1], rule append_wins [where now = 0])
      (simp_all add: race_start_def race_record_def pg_append_def)
  moreover have "goto 0 (WArchive ?r) (?s1\<lparr>sys_rows := rows \<lparr>rows = [?r], pool_up = True\<rparr>\<rparr>) = race_won sha256 ev"
    by (rule audit_sys_eqI) (simp_all add: race_won_def race_start_def goto_def fun_eq_iff)
  ultimately show ?thesis by simp
qed

text \<open>
  C2. The ledger under concurrency.  However many workers commit events to the same Postgres ledger,
  in whatever interleaving of their lookups, head reads, appends and archive writes and with whatever
  store and archive failures, before or after the write they report as failed took effect: while the table has fewer than \<open>2 ^ 63\<close> rows, the chain of every
  partition verifies to its full length, no event id is recorded twice, and every worker that has
  answered with a proof (the fail-closed privileged lane included) has its record in the ledger.
\<close>

theorem concurrent_commits_keep_chains:
  assumes "writers_reach sha256 s" "length (sys_rows s) < 2 ^ 63"
  shows "(\<forall>p. verify_partition sha256 pg_read_partition (db s) p
            = Inr (report_verified (of_nat (length (chain_of (sys_rows s) p)))))
       \<and> distinct (map rec_event_id (sys_rows s))
       \<and> (\<forall>i out. writers s i = WDone (Inr out) \<longrightarrow> (\<exists>r\<in>set (sys_rows s). outcome_proof out = proof_of r))"
proof -
  from writers_reach_inv [OF assms] have inv: "ledger_wf sha256 (sys_rows s)"
    "\<And>i. pc_ok sha256 (sys_rows s) (writers s i)" by (simp_all add: sys_inv_def)
  have "\<exists>r\<in>set (sys_rows s). outcome_proof out = proof_of r" if "writers s i = WDone (Inr out)" for i out
    using inv(2) [of i] by (auto simp: that pc_ok_def)
  moreover have "pg_inv sha256 (db s)" using inv(1) by (simp add: pg_inv_def)
  from pg.partition_verifies [OF this]
  have "\<forall>p. verify_partition sha256 pg_read_partition (db s) p
            = Inr (report_verified (of_nat (length (chain_of (sys_rows s) p))))" by simp
  moreover have "distinct (map rec_event_id (sys_rows s))" using inv(1) by (simp add: ledger_wf_def)
  ultimately show ?thesis by blast
qed

theorem concurrent_commits_keep_chains_witness:
  "verify_partition (\<lambda>b. b) pg_read_partition (db (race_won (\<lambda>b. b) sample_event)) (part_of sample_event)
     = Inr (report_verified (of_nat (length (chain_of [race_record (\<lambda>b. b) sample_event] (part_of sample_event)))))"
  using concurrent_commits_keep_chains [OF race_won_reached [of "\<lambda>b. b" sample_event]]
  by (simp add: race_won_def)

text \<open>
  A lost duplicate race is an error.  When two workers process the same event and both pass the
  lookup before either appends, the slower one re-reads the head, finds its slot free, and is refused
  by the unique event id: it ends in the error \<open>DuplicateEvent\<close>, which is not retryable, although the
  event is in the ledger.
\<close>

lemma duplicate_race_ends_in_error:
  "\<exists>s. writers_reach sha256 s \<and> writers s 1 = WDone (Inl (DuplicateEvent (event_id ev)))
     \<and> ev \<in> rec_event ` set (sys_rows s) \<and> \<not> audit_is_retryable (DuplicateEvent (event_id ev))"
proof -
  let ?r = "race_record sha256 ev"
  let ?h = "\<lparr>head_sequence = 1, head_hash = link_record_hash (rec_link ?r)\<rparr>"
  let ?s1 = "goto 1 (WAppend ev 0 ?h) (race_won sha256 ev)"
  let ?r2 = "fst (record_append sha256 ev (part_of ev) ?h 0)"
  have rec: "rec_sequence ?r = 1" "rec_partition ?r = part_of ev" "rec_event_id ?r = event_id ev" "rec_event ?r = ev"
    by (simp_all add: race_record_def appended_record head_genesis_def)
  have r1: "writers_reach sha256 ?s1"
    by (rule writers_next [OF race_won_reached [of _ ev]], rule read_head)
      (simp_all add: race_won_def pg_head_def in_partition_def rec)
  have "pg_append (db ?s1) ?r2 ?h = Inl (DuplicateEvent (event_id ev))"
    by (simp add: race_won_def pg_append_def appended_record rec)
  then have "writers_reach sha256 (goto 1 (WDone (Inl (DuplicateEvent (event_id ev)))) ?s1)"
    by (intro writers_next [OF r1] append_fails [OF _ refl]) (simp_all add: is_conflict_def)
  moreover have "ev \<in> rec_event ` set (sys_rows (goto 1 (WDone (Inl (DuplicateEvent (event_id ev)))) ?s1))"
    by (simp add: race_won_def rec)
  ultimately show ?thesis
    by (intro exI [of _ "goto 1 (WDone (Inl (DuplicateEvent (event_id ev)))) ?s1"]) simp
qed

end
