(* ===== verification/Counter.thy ===== *)
theory Counter
  imports AppError "HOL-Library.Char_ord" "HOL-Library.List_Lexorder" "HOL-Library.Product_Lexorder"
begin

text \<open>
  The domain of the counter service (\<open>crates/services/counter/src/domain\<close> and \<open>error.rs\<close>): metrics,
  entities, windows, observations and the windowed pre-aggregator, and the validated queries.  The
  theory shows what the aggregator computes: the windows it drains are exactly the closed ones, each
  with the saturating sum and the set of members of the observations that fell into it.
\<close>

section \<open>Errors\<close>

datatype counter_error =
  CtrValidation validation_error
| InvalidCounterQuery string
| UnsupportedMetric string
| InvalidTimeRange string
| InvalidTrendingScope string
| WindowAggregationFailed string
| InvalidDelta string
| ProbabilisticError string
| FlushFailed string
| CacheWriteFailed string
| SignalPublishFailed string
| HotStoreUnavailable
| LedgerUnavailable
| TimeSeriesUnavailable
| StoreTimeout
| ReconciliationFailed string
| DriftThresholdExceeded string string
| SourceReplayFailed string
| CtrEventDecodeFailed string string
| UnknownEventType string
| UnmappedMetric string
| CtrDomainViolation string string
| CtrInvalidIdentifier string
| CtrEventConsumeFailed string

fun counter_is_retryable :: "counter_error \<Rightarrow> bool" where
  "counter_is_retryable (CtrValidation _) = retryable validation_answers"
| "counter_is_retryable (FlushFailed _) = True"
| "counter_is_retryable (CacheWriteFailed _) = True"
| "counter_is_retryable (SignalPublishFailed _) = True"
| "counter_is_retryable HotStoreUnavailable = True"
| "counter_is_retryable LedgerUnavailable = True"
| "counter_is_retryable TimeSeriesUnavailable = True"
| "counter_is_retryable StoreTimeout = True"
| "counter_is_retryable (SourceReplayFailed _) = True"
| "counter_is_retryable _ = False"

section \<open>Value objects\<close>

datatype entity_kind = KPost | KProfile | KMedia | KHashtag | KComment

primrec entity_kind_as_str :: "entity_kind \<Rightarrow> string" where
  "entity_kind_as_str KPost = ''post''"
| "entity_kind_as_str KProfile = ''profile''"
| "entity_kind_as_str KMedia = ''media''"
| "entity_kind_as_str KHashtag = ''hashtag''"
| "entity_kind_as_str KComment = ''comment''"

definition entity_kind_try_from_str :: "string \<Rightarrow> counter_error + entity_kind" where
  "entity_kind_try_from_str s =
     (if s = ''post'' then Inr KPost
      else if s = ''profile'' then Inr KProfile
      else if s = ''media'' then Inr KMedia
      else if s = ''hashtag'' then Inr KHashtag
      else if s = ''comment'' then Inr KComment
      else Inl (CtrDomainViolation ''entity_type'' (''unknown entity kind '' @ [CHR 0x27] @ s @ [CHR 0x27])))"

definition entity_id_new :: "string \<Rightarrow> counter_error + string" where
  "entity_id_new v = (if is_blank v then Inl (CtrInvalidIdentifier ''entity_id'') else Inr v)"

record entity_ref =
  ent_kind :: entity_kind
  ent_id :: string

definition member_id_new :: "string \<Rightarrow> counter_error + string" where
  "member_id_new v = (if is_blank v then Inl (CtrInvalidIdentifier ''member_id'') else Inr v)"

datatype metric_kind = Exact | Approximate

datatype aggregation = AggSum | AggCardinality

datatype metric =
  View | Impression | Click | Like | Share | MComment | Follower | Following | UniqueViewer | Reach

definition metric_all :: "metric list" where
  "metric_all = [View, Impression, Click, Like, Share, MComment, Follower, Following, UniqueViewer, Reach]"

primrec metric_as_str :: "metric \<Rightarrow> string" where
  "metric_as_str View = ''view''"
| "metric_as_str Impression = ''impression''"
| "metric_as_str Click = ''click''"
| "metric_as_str Like = ''like''"
| "metric_as_str Share = ''share''"
| "metric_as_str MComment = ''comment''"
| "metric_as_str Follower = ''follower''"
| "metric_as_str Following = ''following''"
| "metric_as_str UniqueViewer = ''unique_viewer''"
| "metric_as_str Reach = ''reach''"

definition metric_try_from_str :: "string \<Rightarrow> counter_error + metric" where
  "metric_try_from_str s =
     (case find (\<lambda>m. metric_as_str m = s) metric_all of
        Some m \<Rightarrow> Inr m | None \<Rightarrow> Inl (UnsupportedMetric s))"

definition metric_kind_of :: "metric \<Rightarrow> metric_kind" where
  "metric_kind_of m =
     (if m \<in> {Like, Share, MComment, Follower, Following} then Exact else Approximate)"

definition metric_aggregation :: "metric \<Rightarrow> aggregation" where
  "metric_aggregation m = (if m \<in> {UniqueViewer, Reach} then AggCardinality else AggSum)"

definition requires_member :: "metric \<Rightarrow> bool" where
  "requires_member m \<longleftrightarrow> metric_aggregation m = AggCardinality"

section \<open>Windows\<close>

text \<open>A window size is its milliseconds, a window id its index; both are \<open>u64\<close>.\<close>

definition window_size_from_millis :: "u64 \<Rightarrow> counter_error + u64" where
  "window_size_from_millis ms =
     (if ms = 0 then Inl (CtrDomainViolation ''window_ms'' ''window size must be non-zero'') else Inr ms)"

definition epoch_millis :: "datetime \<Rightarrow> u64" where
  "epoch_millis t = (let ms = timestamp_millis t in if ms < 0 then 0 else of_int ms)"

definition window_for_event :: "u64 \<Rightarrow> datetime \<Rightarrow> u64" where
  "window_for_event sz t = epoch_millis t div sz"

definition start_millis :: "u64 \<Rightarrow> u64 \<Rightarrow> u64" where
  "start_millis sz w = w * sz"

definition end_millis :: "u64 \<Rightarrow> u64 \<Rightarrow> u64" where
  "end_millis sz w = start_millis sz w + sz"

definition is_closed_at :: "u64 \<Rightarrow> u64 \<Rightarrow> datetime \<Rightarrow> bool" where
  "is_closed_at sz w watermark \<longleftrightarrow> end_millis sz w \<le> epoch_millis watermark"

section \<open>Observations\<close>

record observation =
  obs_entity :: entity_ref
  obs_metric :: metric
  obs_amount :: i64
  obs_unique_member :: "string option"
  obs_occurred_at :: datetime

definition observation_sum :: "entity_ref \<Rightarrow> metric \<Rightarrow> i64 \<Rightarrow> datetime \<Rightarrow> counter_error + observation" where
  "observation_sum e m n t =
     (if metric_aggregation m \<noteq> AggSum
      then Inl (InvalidDelta (''metric '' @ [CHR 0x27] @ metric_as_str m @ [CHR 0x27] @ '' is not a sum metric''))
      else Inr \<lparr>obs_entity = e, obs_metric = m, obs_amount = n, obs_unique_member = None, obs_occurred_at = t\<rparr>)"

definition observation_unique :: "entity_ref \<Rightarrow> metric \<Rightarrow> string \<Rightarrow> datetime \<Rightarrow> counter_error + observation" where
  "observation_unique e m mem t =
     (if metric_aggregation m \<noteq> AggCardinality
      then Inl (InvalidDelta (''metric '' @ [CHR 0x27] @ metric_as_str m @ [CHR 0x27]
                  @ '' is not a cardinality metric''))
      else Inr \<lparr>obs_entity = e, obs_metric = m, obs_amount = 0, obs_unique_member = Some mem, obs_occurred_at = t\<rparr>)"

section \<open>The aggregator\<close>

record window_key =
  key_entity :: entity_ref
  key_metric :: metric
  key_window :: u64

text \<open>The member set is the ascending list of its elements, as a \<open>BTreeSet\<close> iterates.\<close>

record window_accumulator =
  acc_sum :: i64
  acc_members :: "string list"

definition acc_default :: window_accumulator where
  "acc_default = \<lparr>acc_sum = 0, acc_members = []\<rparr>"

record window_delta =
  delta_key :: window_key
  delta_sum :: i64
  delta_unique_members :: "string list"

abbreviation delta_entity :: "window_delta \<Rightarrow> entity_ref" where
  "delta_entity d \<equiv> key_entity (delta_key d)"

abbreviation delta_metric :: "window_delta \<Rightarrow> metric" where
  "delta_metric d \<equiv> key_metric (delta_key d)"

definition delta_scalar :: "window_delta \<Rightarrow> i64" where
  "delta_scalar d =
     (case metric_aggregation (delta_metric d) of
        AggSum \<Rightarrow> delta_sum d
      | AggCardinality \<Rightarrow> int (length (delta_unique_members d)))"

text \<open>The buckets as an association list without repeated keys; the hash map's order is never observed.\<close>

record window_aggregator =
  agg_size :: u64
  buckets :: "(window_key \<times> window_accumulator) list"

definition aggregator_new :: "u64 \<Rightarrow> window_aggregator" where
  "aggregator_new sz = \<lparr>agg_size = sz, buckets = []\<rparr>"

definition agg_pending :: "window_aggregator \<Rightarrow> nat" where
  "agg_pending a = length (buckets a)"

fun upsert :: "'k \<Rightarrow> ('v \<Rightarrow> 'v) \<Rightarrow> 'v \<Rightarrow> ('k \<times> 'v) list \<Rightarrow> ('k \<times> 'v) list" where
  "upsert k f d [] = [(k, f d)]"
| "upsert k f d ((k', v) # kvs) = (if k' = k then (k', f v) # kvs else (k', v) # upsert k f d kvs)"

definition obs_key :: "u64 \<Rightarrow> observation \<Rightarrow> window_key" where
  "obs_key sz ob =
     \<lparr>key_entity = obs_entity ob, key_metric = obs_metric ob,
      key_window = window_for_event sz (obs_occurred_at ob)\<rparr>"

text \<open>
  \<open>entry(key).or_default()\<close> opens the window before the observation is looked at, so a rejected
  observation still leaves its window open.
\<close>

definition fold_obs :: "window_aggregator \<Rightarrow> observation \<Rightarrow> (counter_error + unit) \<times> window_aggregator" where
  "fold_obs a ob =
     (let key = obs_key (agg_size a) ob in
      case metric_aggregation (obs_metric ob) of
        AggSum \<Rightarrow> (Inr (), a\<lparr>buckets :=
          upsert key (\<lambda>acc. acc\<lparr>acc_sum := saturating_add_i64 (acc_sum acc) (obs_amount ob)\<rparr>) acc_default (buckets a)\<rparr>)
      | AggCardinality \<Rightarrow>
          (case obs_unique_member ob of
             None \<Rightarrow> (Inl (CtrDomainViolation ''unique_member''
                 (''cardinality metric '' @ [CHR 0x27] @ metric_as_str (obs_metric ob) @ [CHR 0x27]
                  @ '' requires a member id'')),
               a\<lparr>buckets := upsert key (\<lambda>acc. acc) acc_default (buckets a)\<rparr>)
           | Some m \<Rightarrow> (Inr (), a\<lparr>buckets :=
               upsert key (\<lambda>acc. acc\<lparr>acc_members := insort_insert m (acc_members acc)\<rparr>) acc_default (buckets a)\<rparr>)))"

definition delta_order :: "window_delta \<Rightarrow> string \<times> string \<times> string \<times> u64" where
  "delta_order d =
     (entity_kind_as_str (ent_kind (delta_entity d)), ent_id (delta_entity d),
      metric_as_str (delta_metric d), key_window (delta_key d))"

definition to_delta :: "window_key \<times> window_accumulator \<Rightarrow> window_delta" where
  "to_delta kv = \<lparr>delta_key = fst kv, delta_sum = acc_sum (snd kv), delta_unique_members = acc_members (snd kv)\<rparr>"

definition remove_and_collect ::
  "window_aggregator \<Rightarrow> (window_key \<Rightarrow> bool) \<Rightarrow> window_delta list \<times> window_aggregator" where
  "remove_and_collect a sel =
     (sort_key delta_order (map to_delta (filter (sel \<circ> fst) (buckets a))),
      a\<lparr>buckets := filter (\<lambda>kv. \<not> sel (fst kv)) (buckets a)\<rparr>)"

definition drain_closed :: "window_aggregator \<Rightarrow> datetime \<Rightarrow> window_delta list \<times> window_aggregator" where
  "drain_closed a watermark =
     remove_and_collect a (\<lambda>k. is_closed_at (agg_size a) (key_window k) watermark)"

definition drain_all :: "window_aggregator \<Rightarrow> window_delta list \<times> window_aggregator" where
  "drain_all a = remove_and_collect a (\<lambda>_. True)"

section \<open>Queries\<close>

definition max_batch :: nat where
  "max_batch = 256"

definition max_trending :: nat where
  "max_trending = 100"

record batch_get_query =
  bq_entities :: "entity_ref list"
  bq_metrics :: "metric list"

definition batch_get_query_new :: "entity_ref list \<Rightarrow> metric list \<Rightarrow> counter_error + batch_get_query" where
  "batch_get_query_new es ms =
     (if es = [] then Inl (InvalidCounterQuery ''at least one entity is required'')
      else if length es > max_batch
      then Inl (InvalidCounterQuery (''batch of '' @ dec_string (length es) @ '' exceeds max ''
                  @ dec_string max_batch))
      else Inr \<lparr>bq_entities = es, bq_metrics = ms\<rparr>)"

definition effective_metrics :: "batch_get_query \<Rightarrow> metric list" where
  "effective_metrics q = (if bq_metrics q = [] then metric_all else bq_metrics q)"

datatype trending_scope = ScopeGlobal | ScopeHashtag | ScopeCategory | ScopeRegion

primrec trending_scope_as_str :: "trending_scope \<Rightarrow> string" where
  "trending_scope_as_str ScopeGlobal = ''global''"
| "trending_scope_as_str ScopeHashtag = ''hashtag''"
| "trending_scope_as_str ScopeCategory = ''category''"
| "trending_scope_as_str ScopeRegion = ''region''"

definition needs_key :: "trending_scope \<Rightarrow> bool" where
  "needs_key s \<longleftrightarrow> s \<noteq> ScopeGlobal"

record trending_query =
  tq_scope :: trending_scope
  tq_scope_key :: "string option"
  tq_metric :: metric
  tq_limit :: nat

definition trending_query_new ::
  "trending_scope \<Rightarrow> string option \<Rightarrow> metric \<Rightarrow> nat \<Rightarrow> counter_error + trending_query" where
  "trending_query_new s k m n =
     (let k = (case k of Some x \<Rightarrow> if is_blank x then None else Some x | None \<Rightarrow> None) in
      if needs_key s \<and> k = None then Inl (InvalidTrendingScope (trending_scope_as_str s))
      else Inr \<lparr>tq_scope = s, tq_scope_key = k, tq_metric = m, tq_limit = min (max n 1) max_trending\<rparr>)"

datatype time_granularity = Hour | Day | Week

record time_series_query =
  ts_entity :: entity_ref
  ts_metric :: metric
  ts_granularity :: time_granularity
  ts_start :: datetime
  ts_end :: datetime

definition time_series_query_new ::
  "entity_ref \<Rightarrow> metric \<Rightarrow> time_granularity \<Rightarrow> datetime \<Rightarrow> datetime \<Rightarrow> counter_error + time_series_query" where
  "time_series_query_new e m g s t =
     (if t \<le> s then Inl (InvalidTimeRange ''end must be strictly after start'')
      else Inr \<lparr>ts_entity = e, ts_metric = m, ts_granularity = g, ts_start = s, ts_end = t\<rparr>)"

section \<open>Windows partition time\<close>

lemma epoch_millis_nat:
  assumes "in_i64 (timestamp_millis t)"
  shows "unat (epoch_millis t) = nat (timestamp_millis t)" "unat (epoch_millis t) < 2 ^ 63"
proof -
  have "unat (of_int x :: u64) = nat x" if "0 \<le> x" "x \<le> i64_max" for x
    using that by (simp add: unsigned_of_int take_bit_int_eq_self i64_max_def)
  moreover have "timestamp_millis t \<le> i64_max" using assms by (simp add: in_i64_def)
  ultimately show "unat (epoch_millis t) = nat (timestamp_millis t)"
    by (simp add: epoch_millis_def Let_def)
  with \<open>timestamp_millis t \<le> i64_max\<close> show "unat (epoch_millis t) < 2 ^ 63"
    by (simp add: i64_max_def)
qed

lemma unat_window_bounds:
  assumes "in_i64 (timestamp_millis t)" "0 < unat sz" "unat sz < 2 ^ 63"
  shows "unat (start_millis sz (window_for_event sz t)) = unat (epoch_millis t) div unat sz * unat sz"
    and "unat (end_millis sz (window_for_event sz t)) = unat (epoch_millis t) div unat sz * unat sz + unat sz"
proof -
  let ?e = "unat (epoch_millis t)"
  have le: "?e div unat sz * unat sz \<le> ?e" by (rule div_times_less_eq_dividend)
  have "?e < 2 ^ 63" using epoch_millis_nat(2) [OF assms(1)] .
  then have "?e < 2 ^ 64" "?e + unat sz < 2 ^ 64" using assms(3) by simp_all
  from le_less_trans [OF le this(1)] have lt: "?e div unat sz * unat sz < 2 ^ 64" .
  show start: "unat (start_millis sz (window_for_event sz t)) = ?e div unat sz * unat sz"
    using lt by (simp add: start_millis_def window_for_event_def unat_word_ariths unat_div mod_mult_left_eq)
  have "?e div unat sz * unat sz + unat sz < 2 ^ 64"
    using add_le_mono1 [OF le, of "unat sz"] \<open>?e + unat sz < 2 ^ 64\<close> by (rule le_less_trans)
  then show "unat (end_millis sz (window_for_event sz t)) = ?e div unat sz * unat sz + unat sz"
    by (simp add: end_millis_def unat_word_ariths start)
qed

text \<open>
  An event falls into the one window that contains its time: for event times in the \<open>i64\<close>
  millisecond range and any window size below \<open>2 ^ 63\<close> ms, the window starts at or before the event
  and ends strictly after it with no wrap-around, and the window counts as closed exactly when the
  watermark has reached its end.  In particular no event at or after the watermark falls into a
  closed window.
\<close>

lemma window_contains_event:
  assumes "in_i64 (timestamp_millis t)" "0 < unat sz" "unat sz < 2 ^ 63"
  shows "unat (start_millis sz (window_for_event sz t)) \<le> unat (epoch_millis t)
       \<and> unat (epoch_millis t) < unat (end_millis sz (window_for_event sz t))
       \<and> unat (end_millis sz (window_for_event sz t)) = unat (start_millis sz (window_for_event sz t)) + unat sz
       \<and> (is_closed_at sz (window_for_event sz t) wm \<longleftrightarrow>
            unat (start_millis sz (window_for_event sz t)) + unat sz \<le> unat (epoch_millis wm))
       \<and> (is_closed_at sz (window_for_event sz t) wm \<longrightarrow> epoch_millis t < epoch_millis wm)"
proof -
  let ?e = "unat (epoch_millis t)"
  note b = unat_window_bounds [OF assms]
  have "?e div unat sz * unat sz \<le> ?e" "?e < ?e div unat sz * unat sz + unat sz"
    using assms(2) dividend_less_div_times [of "unat sz" ?e]
    by (simp_all add: div_times_less_eq_dividend algebra_simps)
  then show ?thesis
    by (auto simp: b is_closed_at_def word_le_nat_alt word_less_nat_alt)
qed

section \<open>What the aggregator computes\<close>

text \<open>
  One event may carry several observations; the consumer folds them in order and stops at the first
  error.
\<close>

fun fold_event :: "window_aggregator \<Rightarrow> observation list \<Rightarrow> (counter_error + unit) \<times> window_aggregator" where
  "fold_event a [] = (Inr (), a)"
| "fold_event a (ob # obs) =
     (case fold_obs a ob of (Inl e, a') \<Rightarrow> (Inl e, a') | (Inr _, a') \<Rightarrow> fold_event a' obs)"

lemma map_of_upsert:
  "map_of (upsert k f d kvs) k' =
     (if k' = k then Some (f (case map_of kvs k of None \<Rightarrow> d | Some v \<Rightarrow> v)) else map_of kvs k')"
  by (induction kvs rule: upsert.induct [of _ k f d]) (auto split: option.splits)

lemma keys_upsert: "set (map fst (upsert k f d kvs)) = insert k (set (map fst kvs))"
  by (induction kvs rule: upsert.induct [of _ k f d]) auto

lemma distinct_upsert: "distinct (map fst kvs) \<Longrightarrow> distinct (map fst (upsert k f d kvs))"
  using keys_upsert [of k f d] by (induction kvs rule: upsert.induct [of _ k f d]) auto

definition obs_ok :: "observation \<Rightarrow> bool" where
  "obs_ok ob \<longleftrightarrow> (requires_member (obs_metric ob) \<longrightarrow> obs_unique_member ob \<noteq> None)"

text \<open>The contents a window should have after the observations \<open>obs\<close>.\<close>

definition acc_spec :: "u64 \<Rightarrow> observation list \<Rightarrow> window_key \<Rightarrow> window_accumulator" where
  "acc_spec sz obs k =
     (let os = filter (\<lambda>ob. obs_key sz ob = k) obs in
      case metric_aggregation (key_metric k) of
        AggSum \<Rightarrow> \<lparr>acc_sum = foldl saturating_add_i64 0 (map obs_amount os), acc_members = []\<rparr>
      | AggCardinality \<Rightarrow>
          \<lparr>acc_sum = 0, acc_members = sorted_list_of_set (set (List.map_filter obs_unique_member os))\<rparr>)"

lemma insort_insert_sorted_list_of_set:
  "finite A \<Longrightarrow> insort_insert x (sorted_list_of_set A) = sorted_list_of_set (insert x A)"
  by (cases "x \<in> A") (simp_all add: insort_insert_insort insort_insert_triv insert_absorb)

lemma map_filter_snoc:
  "List.map_filter f (xs @ [x]) = List.map_filter f xs @ (case f x of None \<Rightarrow> [] | Some y \<Rightarrow> [y])"
  by (simp add: List.map_filter_def split: option.splits)

definition holds_spec :: "u64 \<Rightarrow> observation list \<Rightarrow> window_aggregator \<Rightarrow> bool" where
  "holds_spec sz obs a \<longleftrightarrow> agg_size a = sz \<and> distinct (map fst (buckets a))
     \<and> (\<forall>k. map_of (buckets a) k = (if k \<in> obs_key sz ` set obs then Some (acc_spec sz obs k) else None))"

lemma holds_spec_new: "holds_spec sz [] (aggregator_new sz)"
  by (simp add: holds_spec_def aggregator_new_def)

lemma acc_spec_other: "obs_key sz ob \<noteq> k \<Longrightarrow> acc_spec sz (obs @ [ob]) k = acc_spec sz obs k"
  by (simp add: acc_spec_def)

lemma acc_spec_empty: "k \<notin> obs_key sz ` set obs \<Longrightarrow> acc_spec sz obs k = acc_default"
proof -
  assume "k \<notin> obs_key sz ` set obs"
  then have "filter (\<lambda>ob. obs_key sz ob = k) obs = []" by (auto simp: filter_empty_conv)
  then show ?thesis
    by (simp add: acc_spec_def acc_default_def List.map_filter_def split: aggregation.splits)
qed

text \<open>Folding one observation into the window it belongs to.\<close>

lemma fold_obs_spec:
  assumes "holds_spec sz obs a" "obs_ok ob"
  shows "\<exists>a'. fold_obs a ob = (Inr (), a') \<and> holds_spec sz (obs @ [ob]) a'"
proof -
  let ?k = "obs_key sz ob"
  let ?f = "\<lambda>acc. case metric_aggregation (obs_metric ob) of
      AggSum \<Rightarrow> acc\<lparr>acc_sum := saturating_add_i64 (acc_sum acc) (obs_amount ob)\<rparr>
    | AggCardinality \<Rightarrow> acc\<lparr>acc_members := insort_insert (the (obs_unique_member ob)) (acc_members acc)\<rparr>"
  have sz: "agg_size a = sz" using assms(1) by (simp add: holds_spec_def)
  have step: "fold_obs a ob = (Inr (), a\<lparr>buckets := upsert ?k ?f acc_default (buckets a)\<rparr>)"
    using assms(2) by (cases "metric_aggregation (obs_metric ob)"; cases "obs_unique_member ob")
      (simp_all add: fold_obs_def sz obs_ok_def requires_member_def Let_def)
  have old: "(case map_of (buckets a) ?k of None \<Rightarrow> acc_default | Some v \<Rightarrow> v) = acc_spec sz obs ?k"
    using assms(1) by (auto simp: holds_spec_def acc_spec_empty)
  have new: "acc_spec sz (obs @ [ob]) ?k = ?f (acc_spec sz obs ?k)"
  proof (cases "metric_aggregation (obs_metric ob)")
    case AggSum
    then show ?thesis by (simp add: acc_spec_def obs_key_def)
  next
    case AggCardinality
    with assms(2) obtain m where "obs_unique_member ob = Some m"
      by (auto simp: obs_ok_def requires_member_def)
    with AggCardinality show ?thesis
      by (simp add: acc_spec_def obs_key_def map_filter_snoc insort_insert_sorted_list_of_set)
  qed
  have "map_of (upsert ?k ?f acc_default (buckets a)) k
      = (if k \<in> obs_key sz ` set (obs @ [ob]) then Some (acc_spec sz (obs @ [ob]) k) else None)" for k
  proof (cases "k = ?k")
    case True
    show ?thesis unfolding True map_of_upsert old new by simp
  next
    case False
    then show ?thesis using assms(1) by (simp add: holds_spec_def map_of_upsert acc_spec_other)
  qed
  then have "holds_spec sz (obs @ [ob]) (a\<lparr>buckets := upsert ?k ?f acc_default (buckets a)\<rparr>)"
    using assms(1) by (simp add: holds_spec_def distinct_upsert)
  with step show ?thesis by blast
qed

lemma fold_event_spec:
  "holds_spec sz obs a \<Longrightarrow> list_all obs_ok new \<Longrightarrow>
   \<exists>a'. fold_event a new = (Inr (), a') \<and> holds_spec sz (obs @ new) a'"
proof (induction new arbitrary: a obs)
  case (Cons ob new)
  from fold_obs_spec [OF Cons.prems(1)] Cons.prems(2) obtain a1
    where "fold_obs a ob = (Inr (), a1)" "holds_spec sz (obs @ [ob]) a1" by auto
  with Cons.IH [OF this(2)] Cons.prems(2) show ?case by simp
qed simp

lemma drained_deltas:
  assumes "holds_spec sz obs a" "remove_and_collect a sel = (ds, a')"
  shows "set ds = {to_delta (k, acc_spec sz obs k) | k. k \<in> obs_key sz ` set obs \<and> sel k}"
    and "map_of (buckets a') k = (if k \<in> obs_key sz ` set obs \<and> \<not> sel k then Some (acc_spec sz obs k) else None)"
proof -
  have mem: "(k, v) \<in> set (buckets a) \<longleftrightarrow> k \<in> obs_key sz ` set obs \<and> v = acc_spec sz obs k" for k v
  proof -
    have "distinct (map fst (buckets a))"
      "map_of (buckets a) k = (if k \<in> obs_key sz ` set obs then Some (acc_spec sz obs k) else None)"
      using assms(1) by (simp_all add: holds_spec_def)
    with map_of_eq_Some_iff [of "buckets a" k v] show ?thesis by (auto split: if_splits)
  qed
  have "set ds = to_delta ` {kv \<in> set (buckets a). sel (fst kv)}"
    using assms(2) by (auto simp: remove_and_collect_def)
  also have "\<dots> = {to_delta (k, acc_spec sz obs k) | k. k \<in> obs_key sz ` set obs \<and> sel k}"
    by (auto simp: mem)
  finally show "set ds = {to_delta (k, acc_spec sz obs k) | k. k \<in> obs_key sz ` set obs \<and> sel k}" .
  have b: "buckets a' = filter (\<lambda>kv. \<not> sel (fst kv)) (buckets a)"
    using assms(2) by (auto simp: remove_and_collect_def)
  have d: "distinct (map fst (buckets a'))"
    using assms(1) by (simp add: b holds_spec_def distinct_map_filter)
  show "map_of (buckets a') k = (if k \<in> obs_key sz ` set obs \<and> \<not> sel k then Some (acc_spec sz obs k) else None)"
  proof (cases "k \<in> obs_key sz ` set obs \<and> \<not> sel k")
    case True
    then have "(k, acc_spec sz obs k) \<in> set (buckets a')" by (simp add: b mem)
    then show ?thesis using True d by (simp add: map_of_eq_Some_iff)
  next
    case False
    then have "k \<notin> fst ` set (buckets a')" by (auto simp: b mem)
    then show ?thesis using False by (metis map_of_eq_None_iff)
  qed
qed

lemma metric_as_str_inject: "metric_as_str a = metric_as_str b \<longleftrightarrow> a = b"
  by (cases a; cases b) simp_all

lemma entity_kind_as_str_inject: "entity_kind_as_str a = entity_kind_as_str b \<longleftrightarrow> a = b"
  by (cases a; cases b) simp_all

lemma delta_order_inject: "delta_order d = delta_order d' \<longleftrightarrow> delta_key d = delta_key d'"
  by (cases "delta_key d"; cases "delta_key d'"; cases "delta_entity d"; cases "delta_entity d'")
    (auto simp: delta_order_def metric_as_str_inject entity_kind_as_str_inject)

text \<open>
  C15. The aggregator is exact.  Fold any well-formed observations into a new aggregator and drain at a
  watermark: every fold succeeds; the drained deltas are one per closed window that received an
  observation, in a strictly ascending order that does not depend on the hash map; a delta of a sum
  metric carries the saturating sum of the window's amounts in arrival order, one of a cardinality
  metric exactly the window's distinct members; and every open window stays behind with its contents.
\<close>

theorem aggregator_drains_exact_windows:
  assumes "list_all obs_ok obs" "fold_event (aggregator_new sz) obs = (res, a)"
    and "drain_closed a wm = (ds, a')"
  shows "res = Inr ()
       \<and> set ds = {to_delta (k, acc_spec sz obs k) | k.
            k \<in> obs_key sz ` set obs \<and> is_closed_at sz (key_window k) wm}
       \<and> sorted_wrt (\<lambda>d d'. delta_order d < delta_order d') ds
       \<and> (\<forall>k. map_of (buckets a') k =
            (if k \<in> obs_key sz ` set obs \<and> \<not> is_closed_at sz (key_window k) wm
             then Some (acc_spec sz obs k) else None))"
proof -
  from fold_event_spec [OF holds_spec_new assms(1), of sz] assms(2) have r: "res = Inr ()" "holds_spec sz obs a"
    by auto
  then have sz: "agg_size a = sz" by (simp add: holds_spec_def)
  from assms(3) have drain: "remove_and_collect a (\<lambda>k. is_closed_at sz (key_window k) wm) = (ds, a')"
    by (simp add: drain_closed_def sz)
  have "distinct (map delta_key (map to_delta (filter sel (buckets a))))" for sel
    using r(2) by (simp add: holds_spec_def to_delta_def o_def distinct_map_filter)
  then have "distinct (map delta_order (map to_delta (filter sel (buckets a))))" for sel
    unfolding distinct_map inj_on_def delta_order_inject by blast
  moreover have "distinct (map f (sort_key g xs)) \<longleftrightarrow> distinct (map f xs)"
    for f :: "window_delta \<Rightarrow> string \<times> string \<times> string \<times> u64" and g :: "window_delta \<Rightarrow> string \<times> string \<times> string \<times> u64" and xs
    by (simp add: distinct_map)
  moreover have "ds = sort_key delta_order (map to_delta
      (filter ((\<lambda>k. is_closed_at sz (key_window k) wm) \<circ> fst) (buckets a)))"
    using drain by (simp add: remove_and_collect_def)
  ultimately have "distinct (map delta_order ds)" "sorted (map delta_order ds)"
    by (simp_all del: map_map)
  then have "sorted_wrt (\<lambda>d d'. delta_order d < delta_order d') ds"
    by (simp add: strict_sorted_iff flip: sorted_wrt_map)
  with r(1) drained_deltas [OF r(2) drain] show ?thesis by blast
qed

definition sample_entity :: entity_ref where
  "sample_entity = \<lparr>ent_kind = KPost, ent_id = ''p''\<rparr>"

definition sample_obs :: "observation list" where
  "sample_obs =
     [\<lparr>obs_entity = sample_entity, obs_metric = View, obs_amount = 1, obs_unique_member = None,
       obs_occurred_at = 1000000\<rparr>,
      \<lparr>obs_entity = sample_entity, obs_metric = Reach, obs_amount = 0, obs_unique_member = Some ''u'',
       obs_occurred_at = 1000000\<rparr>,
      \<lparr>obs_entity = sample_entity, obs_metric = View, obs_amount = 1, obs_unique_member = None,
       obs_occurred_at = 5000000\<rparr>]"

theorem aggregator_drains_exact_windows_witness:
  "fst (fold_event (aggregator_new 10) sample_obs) = Inr ()
   \<and> sorted_wrt (\<lambda>d d'. delta_order d < delta_order d')
       (fst (drain_closed (snd (fold_event (aggregator_new 10) sample_obs)) 10000000))"
proof -
  have "list_all obs_ok sample_obs"
    by (simp add: sample_obs_def obs_ok_def requires_member_def metric_aggregation_def)
  from aggregator_drains_exact_windows [OF this prod.collapse [symmetric] prod.collapse [symmetric]]
  show ?thesis by blast
qed

end
