(* ===== verification/CounterTiers.thy ===== *)
theory CounterTiers
  imports Counter
begin

text \<open>
  The three storage tiers of the counter service and the use cases over them
  (\<open>crates/services/counter/src/application\<close> and the Postgres, Redis and Scylla adapters under
  \<open>infrastructure\<close>): window flush, reconciliation, batch reads, trending and time series.  The
  interface \<open>window_ledger\<close> states the idempotency contract of the durable tier.
\<close>

section \<open>The durable ledger (Postgres)\<close>

text \<open>
  The two tables.  A statement that would take a total out of the \<open>bigint\<close> range fails as a whole.
  Window indices are stored as \<open>i64\<close>.
\<close>

record counter_db =
  counter_windows :: "(string \<times> string \<times> string \<times> int) list"
  counter_totals :: "((string \<times> string \<times> string) \<times> i64) list"

datatype flush_outcome = Applied | AlreadyApplied

definition pair_key :: "entity_ref \<Rightarrow> metric \<Rightarrow> string \<times> string \<times> string" where
  "pair_key e m = (entity_kind_as_str (ent_kind e), ent_id e, metric_as_str m)"

definition window_row :: "window_delta \<Rightarrow> string \<times> string \<times> string \<times> int" where
  "window_row d =
     (entity_kind_as_str (ent_kind (delta_entity d)), ent_id (delta_entity d),
      metric_as_str (delta_metric d), sint (key_window (delta_key d)))"

fun put :: "'k \<Rightarrow> 'v \<Rightarrow> ('k \<times> 'v) list \<Rightarrow> ('k \<times> 'v) list" where
  "put k v [] = [(k, v)]"
| "put k v ((k', v') # kvs) = (if k' = k then (k, v) # kvs else (k', v') # put k v kvs)"

definition pg_read_total :: "counter_db \<Rightarrow> entity_ref \<Rightarrow> metric \<Rightarrow> i64 option" where
  "pg_read_total db e m = map_of (counter_totals db) (pair_key e m)"

definition pg_flush_window :: "counter_db \<Rightarrow> window_delta \<Rightarrow> counter_error + flush_outcome \<times> counter_db" where
  "pg_flush_window db d =
     (if window_row d \<in> set (counter_windows db) then Inr (AlreadyApplied, db)
      else let k = pair_key (delta_entity d) (delta_metric d);
               total = (case map_of (counter_totals db) k of None \<Rightarrow> delta_scalar d | Some t \<Rightarrow> t + delta_scalar d)
           in if \<not> in_i64 total then Inl (FlushFailed ''bigint out of range'')
              else Inr (Applied, db\<lparr>counter_windows := counter_windows db @ [window_row d],
                                    counter_totals := put k total (counter_totals db)\<rparr>))"

definition pg_set_total :: "counter_db \<Rightarrow> entity_ref \<Rightarrow> metric \<Rightarrow> i64 \<Rightarrow> counter_db" where
  "pg_set_total db e m v = db\<lparr>counter_totals := put (pair_key e m) v (counter_totals db)\<rparr>"

definition reconcile_cursor :: "entity_ref \<Rightarrow> metric \<Rightarrow> string" where
  "reconcile_cursor e m = entity_kind_as_str (ent_kind e) @ '':'' @ ent_id e @ '':'' @ metric_as_str m"

text \<open>The text order of the database is a parameter of the paging query.\<close>

definition row_cursor :: "string \<times> string \<times> string \<Rightarrow> string" where
  "row_cursor k = fst k @ '':'' @ fst (snd k) @ '':'' @ snd (snd k)"

definition pg_list_reconcilable ::
  "(string list \<Rightarrow> string list) \<Rightarrow> (string \<Rightarrow> string \<Rightarrow> bool) \<Rightarrow> counter_db \<Rightarrow> string option \<Rightarrow> nat
   \<Rightarrow> (entity_ref \<times> metric) list" where
  "pg_list_reconcilable collate after_cursor db after limit =
     (let rws = filter (\<lambda>k. snd (snd k) \<in> {''follower'', ''following''}
                  \<and> (case after of None \<Rightarrow> True | Some c \<Rightarrow> after_cursor c (row_cursor k)))
                (map fst (counter_totals db));
          page = take limit (concat (map (\<lambda>c. filter (\<lambda>k. row_cursor k = c) rws)
                   (collate (remdups (map row_cursor rws)))))
      in List.map_filter (\<lambda>(kd, i, mt).
           case (entity_kind_try_from_str kd, entity_id_new i, metric_try_from_str mt) of
             (Inr k, Inr eid, Inr m) \<Rightarrow> Some (\<lparr>ent_kind = k, ent_id = eid\<rparr>, m)
           | _ \<Rightarrow> None) page)"

section \<open>The hot tier (Redis)\<close>

text \<open>
  Hashes of integer fields, HyperLogLogs as the members that were added, and the trending boards as
  the increments each member received; the estimate and the floating-point score that Redis computes
  from them are parameters where they are read.
\<close>

record hot_store =
  hashes :: "(string \<times> string) \<Rightarrow> i64 option"
  hlls :: "string \<Rightarrow> string list"
  boards :: "(string \<times> string) \<Rightarrow> i64 list"

definition braces :: "string \<Rightarrow> string" where
  "braces s = ''{'' @ s @ ''}''"

definition hash_key :: "entity_ref \<Rightarrow> string" where
  "hash_key e = ''counter:c:'' @ braces (entity_kind_as_str (ent_kind e) @ '':'' @ ent_id e)"

definition hll_key :: "entity_ref \<Rightarrow> metric \<Rightarrow> string" where
  "hll_key e m = ''counter:h:'' @ braces (entity_kind_as_str (ent_kind e) @ '':'' @ ent_id e) @ '':'' @ metric_as_str m"

definition trend_key :: "trending_scope \<Rightarrow> string option \<Rightarrow> metric \<Rightarrow> string" where
  "trend_key s k m =
     ''counter:t:'' @ trending_scope_as_str s @ '':'' @ (case k of Some x \<Rightarrow> x | None \<Rightarrow> ''_'') @ '':'' @ metric_as_str m"

definition member_of :: "entity_ref \<Rightarrow> string" where
  "member_of e = entity_kind_as_str (ent_kind e) @ '':'' @ ent_id e"

definition split_once :: "char \<Rightarrow> string \<Rightarrow> (string \<times> string) option" where
  "split_once c s =
     (case dropWhile (\<lambda>x. x \<noteq> c) s of [] \<Rightarrow> None | _ # rest \<Rightarrow> Some (takeWhile (\<lambda>x. x \<noteq> c) s, rest))"

definition parse_member :: "string \<Rightarrow> entity_ref option" where
  "parse_member s =
     (case split_once (CHR '':'') s of
        None \<Rightarrow> None
      | Some (kd, i) \<Rightarrow>
          (case entity_kind_try_from_str kd of
             Inl _ \<Rightarrow> None
           | Inr k \<Rightarrow> (case entity_id_new i of Inl _ \<Rightarrow> None | Inr eid \<Rightarrow> Some \<lparr>ent_kind = k, ent_id = eid\<rparr>)))"

text \<open>
  The scripts.  \<open>HINCRBY\<close> refuses a result outside \<open>i64\<close>; \<open>ZINCRBY\<close> and \<open>PFADD\<close> do not fail of
  themselves.
\<close>

definition redis_hincrby :: "string \<Rightarrow> string \<Rightarrow> i64 \<Rightarrow> hot_store \<Rightarrow> (counter_error + unit) \<times> hot_store" where
  "redis_hincrby k f n h =
     (let v = (case hashes h (k, f) of None \<Rightarrow> 0 | Some x \<Rightarrow> x) + n in
      if \<not> in_i64 v then (Inl (CacheWriteFailed ''increment or decrement would overflow''), h)
      else (Inr (), h\<lparr>hashes := (hashes h)((k, f) \<mapsto> v)\<rparr>))"

definition redis_zincrby :: "string \<Rightarrow> i64 \<Rightarrow> string \<Rightarrow> hot_store \<Rightarrow> (counter_error + unit) \<times> hot_store" where
  "redis_zincrby k n mem h =
     (Inr (), h\<lparr>boards := (boards h)((k, mem) := boards h (k, mem) @ [n])\<rparr>)"

definition redis_pfadd :: "string \<Rightarrow> string list \<Rightarrow> hot_store \<Rightarrow> (counter_error + unit) \<times> hot_store" where
  "redis_pfadd k ms h = (Inr (), h\<lparr>hlls := (hlls h)(k := hlls h k @ ms)\<rparr>)"

text \<open>
  The counter and the trending board are fed by two calls; \<open>f1\<close> and \<open>f2\<close> are what happens to the
  first and the second call on the network.  What the first has written stays when the second fails.
\<close>

definition redis_apply_delta ::
  "net_fault option \<Rightarrow> net_fault option \<Rightarrow> window_delta \<Rightarrow> hot_store \<Rightarrow> (counter_error + unit) \<times> hot_store" where
  "redis_apply_delta f1 f2 d =
     (let e = delta_entity d; m = delta_metric d in
      case metric_aggregation m of
        AggSum \<Rightarrow>
          st_bind (remote_call f1 CacheWriteFailed (redis_hincrby (hash_key e) (metric_as_str m) (delta_sum d))) (\<lambda>_.
          remote_call f2 CacheWriteFailed (redis_zincrby (trend_key ScopeGlobal None m) (delta_sum d) (member_of e)))
      | AggCardinality \<Rightarrow>
          if delta_unique_members d = [] then st_lift (Inr ())
          else remote_call f1 CacheWriteFailed (redis_pfadd (hll_key e m) (delta_unique_members d)))"

definition redis_overwrite :: "hot_store \<Rightarrow> entity_ref \<Rightarrow> metric \<Rightarrow> i64 \<Rightarrow> hot_store" where
  "redis_overwrite h e m v = h\<lparr>hashes := (hashes h)((hash_key e, metric_as_str m) \<mapsto> v)\<rparr>"

record counter_value =
  cv_metric :: metric
  cv_value :: i64
  cv_kind :: metric_kind

definition counter_value_new :: "metric \<Rightarrow> i64 \<Rightarrow> counter_value" where
  "counter_value_new m v = \<lparr>cv_metric = m, cv_value = v, cv_kind = metric_kind_of m\<rparr>"

record count_snapshot =
  snap_entity :: entity_ref
  snap_values :: "counter_value list"

definition snapshot_get :: "count_snapshot \<Rightarrow> metric \<Rightarrow> i64 option" where
  "snapshot_get s m = map_option cv_value (find (\<lambda>v. cv_metric v = m) (snap_values s))"

definition redis_read ::
  "(string list \<Rightarrow> i64) \<Rightarrow> hot_store \<Rightarrow> entity_ref list \<Rightarrow> metric list \<Rightarrow> count_snapshot list" where
  "redis_read pfcount h es ms =
     (let sums = filter (\<lambda>m. metric_aggregation m = AggSum) ms;
          cards = filter (\<lambda>m. metric_aggregation m = AggCardinality) ms
      in map (\<lambda>e. \<lparr>snap_entity = e, snap_values =
           List.map_filter (\<lambda>m. map_option (counter_value_new m) (hashes h (hash_key e, metric_as_str m))) sums
         @ List.map_filter (\<lambda>m. let n = pfcount (hlls h (hll_key e m)) in
             if n > 0 then Some (counter_value_new m n) else None) cards\<rparr>) es)"

record trending_item =
  ti_entity :: entity_ref
  ti_score :: i64
  ti_rank :: nat

text \<open>The reply of \<open>ZREVRANGE ... WITHSCORES\<close> is a parameter; each score is already cut to \<open>i64\<close>.\<close>

definition redis_top_k :: "(string \<Rightarrow> nat \<Rightarrow> (string \<times> i64) list) \<Rightarrow> trending_scope \<Rightarrow> string option \<Rightarrow> metric \<Rightarrow> nat
   \<Rightarrow> trending_item list" where
  "redis_top_k zrevrange s k m limit =
     List.map_filter (\<lambda>(rank, mem, score).
         map_option (\<lambda>e. \<lparr>ti_entity = e, ti_score = score, ti_rank = rank\<rparr>) (parse_member mem))
       (enumerate 0 (zrevrange (trend_key s k m) limit))"

section \<open>The time series (Scylla)\<close>

definition hour_ms :: int where
  "hour_ms = 3600000"

definition hour_bucket :: "int \<Rightarrow> int" where
  "hour_bucket ms = ms div hour_ms * hour_ms"

type_synonym series = "((string \<times> string \<times> string) \<times> int) \<Rightarrow> int option"

definition scylla_append :: "u64 \<Rightarrow> series \<Rightarrow> window_delta \<Rightarrow> series" where
  "scylla_append sz sr d =
     (let k = (pair_key (delta_entity d) (delta_metric d), hour_bucket (sint (start_millis sz (key_window (delta_key d)))))
      in sr(k \<mapsto> (case sr k of None \<Rightarrow> 0 | Some v \<Rightarrow> v) + delta_scalar d))"

section \<open>Use cases\<close>

record flush_report =
  rep_applied :: nat
  rep_already_applied :: nat

text \<open>
  The fan-out over the three ports; the result comes with the tiers as the call leaves them, since
  what was written before an error stays written.
\<close>

fun flush_deltas ::
  "('l \<Rightarrow> window_delta \<Rightarrow> counter_error + flush_outcome \<times> 'l) \<Rightarrow> (window_delta \<Rightarrow> 'h \<Rightarrow> (counter_error + unit) \<times> 'h)
   \<Rightarrow> ('t \<Rightarrow> window_delta \<Rightarrow> counter_error + 't) \<Rightarrow> flush_report \<Rightarrow> window_delta list \<Rightarrow> 'l \<times> 'h \<times> 't
   \<Rightarrow> (counter_error + flush_report) \<times> 'l \<times> 'h \<times> 't" where
  "flush_deltas fw ad ap rep [] s = (Inr rep, s)"
| "flush_deltas fw ad ap rep (d # ds) (l, h, t) =
     (case fw l d of
        Inl e \<Rightarrow> (Inl e, l, h, t)
      | Inr (AlreadyApplied, l') \<Rightarrow>
          flush_deltas fw ad ap (rep\<lparr>rep_already_applied := rep_already_applied rep + 1\<rparr>) ds (l', h, t)
      | Inr (Applied, l') \<Rightarrow>
          (case ad d h of
             (Inl e, h') \<Rightarrow> (Inl e, l', h', t)
           | (Inr _, h') \<Rightarrow>
               (case ap t d of
                  Inl e \<Rightarrow> (Inl e, l', h', t)
                | Inr t' \<Rightarrow> flush_deltas fw ad ap (rep\<lparr>rep_applied := rep_applied rep + 1\<rparr>) ds (l', h', t'))))"

definition flush_report_default :: flush_report where
  "flush_report_default = \<lparr>rep_applied = 0, rep_already_applied = 0\<rparr>"

datatype reconcile_outcome =
  InSync | WithinTolerance i64 | Corrected i64 i64 | NotApplicable

text \<open>\<open>-\<close> and \<open>abs\<close> on \<open>i64\<close> wrap in a release build.\<close>

definition reconcile ::
  "('l \<Rightarrow> entity_ref \<Rightarrow> metric \<Rightarrow> counter_error + i64 option)
   \<Rightarrow> ('l \<Rightarrow> entity_ref \<Rightarrow> metric \<Rightarrow> i64 \<Rightarrow> counter_error + 'l)
   \<Rightarrow> ('h \<Rightarrow> entity_ref \<Rightarrow> metric \<Rightarrow> i64 \<Rightarrow> counter_error + 'h)
   \<Rightarrow> (entity_ref \<Rightarrow> metric \<Rightarrow> counter_error + i64 option) \<Rightarrow> i64 \<Rightarrow> entity_ref \<Rightarrow> metric \<Rightarrow> 'l \<times> 'h
   \<Rightarrow> (counter_error + reconcile_outcome) \<times> 'l \<times> 'h" where
  "reconcile read_total set_total overwrite authoritative_count tolerance e m s =
     (case s of (l, h) \<Rightarrow>
      if metric_kind_of m \<noteq> Exact then (Inr NotApplicable, l, h)
      else case authoritative_count e m of
        Inl err \<Rightarrow> (Inl err, l, h)
      | Inr None \<Rightarrow> (Inr NotApplicable, l, h)
      | Inr (Some auth) \<Rightarrow>
          (case read_total l e m of
             Inl err \<Rightarrow> (Inl err, l, h)
           | Inr tot \<Rightarrow>
               (let current = (case tot of None \<Rightarrow> 0 | Some v \<Rightarrow> v);
                    drift = wrap_i64 (auth - current)
                in if drift = 0 then (Inr InSync, l, h)
                   else if wrap_i64 (abs drift) \<le> tolerance then (Inr (WithinTolerance drift), l, h)
                   else case set_total l e m auth of
                     Inl err \<Rightarrow> (Inl err, l, h)
                   | Inr l' \<Rightarrow>
                       (case overwrite h e m auth of
                          Inl err \<Rightarrow> (Inl err, l', h)
                        | Inr h' \<Rightarrow> (Inr (Corrected current auth), l', h')))))"

record batch_readout =
  ro_snapshots :: "count_snapshot list"
  ro_degraded :: bool

definition ledger_fallback ::
  "(entity_ref \<Rightarrow> metric \<Rightarrow> i64 option) \<Rightarrow> entity_ref list \<Rightarrow> metric list \<Rightarrow> count_snapshot list" where
  "ledger_fallback totals es ms =
     map (\<lambda>e. \<lparr>snap_entity = e,
       snap_values = List.map_filter (\<lambda>m. map_option (counter_value_new m) (totals e m)) ms\<rparr>) es"

text \<open>
  \<open>hot\<close> is what the timed hot read comes to: \<open>None\<close> when the timeout elapses.  \<open>ledger\<close> is the
  durable tier, \<open>Inl\<close> when it cannot be read.
\<close>

definition batch_get ::
  "(counter_error + count_snapshot list) option \<Rightarrow> (counter_error + (entity_ref \<Rightarrow> metric \<Rightarrow> i64 option))
   \<Rightarrow> batch_get_query \<Rightarrow> counter_error + batch_readout" where
  "batch_get hot ledger q =
     (let degraded = bind_res ledger (\<lambda>totals.
            Inr \<lparr>ro_snapshots = ledger_fallback totals (bq_entities q) (effective_metrics q), ro_degraded = True\<rparr>)
      in case hot of
        Some (Inr snaps) \<Rightarrow> Inr \<lparr>ro_snapshots = snaps, ro_degraded = False\<rparr>
      | Some (Inl e) \<Rightarrow> if counter_is_retryable e then degraded else Inl e
      | None \<Rightarrow> degraded)"

definition get_trending :: "(counter_error + trending_item list) \<Rightarrow> counter_error + trending_item list" where
  "get_trending ranking =
     (case ranking of Inr items \<Rightarrow> Inr items | Inl e \<Rightarrow> if counter_is_retryable e then Inr [] else Inl e)"

record time_series_bucket =
  bucket_start :: datetime
  bucket_value :: i64

definition get_time_series ::
  "(counter_error + time_series_bucket list) \<Rightarrow> counter_error + time_series_bucket list" where
  "get_time_series rng =
     (case rng of Inr bs \<Rightarrow> Inr bs | Inl e \<Rightarrow> if counter_is_retryable e then Inr [] else Inl e)"

section \<open>The idempotency contract\<close>

text \<open>The first delta of each window that was not applied before.\<close>

fun first_of :: "('d \<Rightarrow> 'r) \<Rightarrow> 'r set \<Rightarrow> 'd list \<Rightarrow> 'd list" where
  "first_of row rs [] = []"
| "first_of row rs (d # ds) = (if row d \<in> rs then first_of row rs ds else d # first_of row (insert (row d) rs) ds)"

text \<open>
  \<open>totals s k\<close> is the durable total of a pair, \<open>seen s\<close> the windows that were applied, \<open>row d\<close> the
  window a delta belongs to and \<open>pair d\<close> its pair.
\<close>

locale window_ledger =
  fixes flush_window :: "'s \<Rightarrow> window_delta \<Rightarrow> counter_error + flush_outcome \<times> 's"
    and totals :: "'s \<Rightarrow> 'k \<Rightarrow> int"
    and seen :: "'s \<Rightarrow> 'r set"
    and row :: "window_delta \<Rightarrow> 'r"
    and pair :: "window_delta \<Rightarrow> 'k"
  assumes flush_seen: "row d \<in> seen s \<Longrightarrow> flush_window s d = Inr (AlreadyApplied, s)"
    and flush_new: "row d \<notin> seen s \<Longrightarrow> flush_window s d = Inr (out, s') \<Longrightarrow>
          out = Applied \<and> seen s' = insert (row d) (seen s)
          \<and> totals s' = (totals s)(pair d := totals s (pair d) + delta_scalar d)"
begin

lemma flush_ok:
  "flush_deltas flush_window ad ap rep ds (l, h, t) = (Inr rep', l', h', t') \<Longrightarrow>
     seen l' = seen l \<union> row ` set ds
   \<and> totals l' k = totals l k + (\<Sum>d\<leftarrow>filter (\<lambda>d. pair d = k) (first_of row (seen l) ds). delta_scalar d)
   \<and> rep_applied rep' = rep_applied rep + length (first_of row (seen l) ds)
   \<and> rep_applied rep' + rep_already_applied rep' = rep_applied rep + rep_already_applied rep + length ds"
proof (induction ds arbitrary: rep l h t)
  case (Cons d ds)
  show ?case
  proof (cases "row d \<in> seen l")
    case True
    with Cons.prems flush_seen [OF this]
    have "flush_deltas flush_window ad ap (rep\<lparr>rep_already_applied := rep_already_applied rep + 1\<rparr>) ds (l, h, t)
        = (Inr rep', l', h', t')" by simp
    from Cons.IH [OF this] True show ?thesis by auto
  next
    case False
    from Cons.prems obtain out l1 where l1: "flush_window l d = Inr (out, l1)"
      by (auto split: sum.splits)
    note new = flush_new [OF False l1]
    from Cons.prems l1 new obtain h1 t1 where
      "flush_deltas flush_window ad ap (rep\<lparr>rep_applied := rep_applied rep + 1\<rparr>) ds (l1, h1, t1)
        = (Inr rep', l', h', t')"
      by (auto split: sum.splits prod.splits)
    from Cons.IH [OF this] False new show ?thesis by auto
  qed
qed simp

text \<open>A batch that was flushed once is a no-op on every tier when it is flushed again.\<close>

lemma flush_redelivered:
  "row ` set ds \<subseteq> seen l \<Longrightarrow>
   flush_deltas flush_window ad ap rep ds (l, h, t)
     = (Inr (rep\<lparr>rep_already_applied := rep_already_applied rep + length ds\<rparr>), l, h, t)"
  by (induction ds arbitrary: rep) (auto simp: flush_seen)

end

lemma map_of_put: "map_of (put k v kvs) k' = (if k' = k then Some v else map_of kvs k')"
  by (induction k v kvs rule: put.induct) auto

definition pg_total :: "counter_db \<Rightarrow> string \<times> string \<times> string \<Rightarrow> int" where
  "pg_total db k = (case map_of (counter_totals db) k of None \<Rightarrow> 0 | Some v \<Rightarrow> v)"

interpretation pg_windows: window_ledger pg_flush_window pg_total "\<lambda>db. set (counter_windows db)" window_row
  "\<lambda>d. pair_key (delta_entity d) (delta_metric d)"
  by unfold_locales
    (auto simp: pg_flush_window_def pg_total_def Let_def map_of_put fun_eq_iff split: if_splits option.splits)

section \<open>Properties\<close>

text \<open>
  C16. The durable total counts each window once.  When a batch flush succeeds, the total of every
  (entity, metric) pair grows by exactly the scalars of the windows applied for the first time, of
  several deltas of one window only the first counts, and the report adds up.  Flushing the same
  batch again, as a redelivery does, changes no tier and reports every window as already applied.
\<close>

theorem flush_counts_each_window_once:
  assumes "flush_deltas pg_flush_window ad ap flush_report_default ds (l, h, t) = (Inr rep, l', h', t')"
  shows "pg_total l' (pair_key e m) = pg_total l (pair_key e m)
           + (\<Sum>d\<leftarrow>filter (\<lambda>d. pair_key (delta_entity d) (delta_metric d) = pair_key e m)
                 (first_of window_row (set (counter_windows l)) ds). delta_scalar d)
       \<and> rep_applied rep = length (first_of window_row (set (counter_windows l)) ds)
       \<and> rep_applied rep + rep_already_applied rep = length ds
       \<and> flush_deltas pg_flush_window ad ap flush_report_default ds (l', h', t')
           = (Inr \<lparr>rep_applied = 0, rep_already_applied = length ds\<rparr>, l', h', t')"
  using pg_windows.flush_ok [OF assms, of "pair_key e m"] pg_windows.flush_redelivered [of ds l' ad ap flush_report_default h' t']
  by (simp add: flush_report_default_def)

definition sample_delta :: window_delta where
  "sample_delta = \<lparr>delta_key = \<lparr>key_entity = sample_entity, key_metric = Like, key_window = 7\<rparr>,
     delta_sum = 5, delta_unique_members = []\<rparr>"

definition empty_counter_db :: counter_db where
  "empty_counter_db = \<lparr>counter_windows = [], counter_totals = []\<rparr>"

lemma sample_flush:
  "pg_flush_window empty_counter_db sample_delta
     = Inr (Applied, \<lparr>counter_windows = [window_row sample_delta], counter_totals = [(pair_key sample_entity Like, 5)]\<rparr>)"
  by (simp add: pg_flush_window_def empty_counter_db_def sample_delta_def delta_scalar_def
      metric_aggregation_def in_i64_def i64_max_def i64_min_def)

theorem flush_counts_each_window_once_witness:
  "pg_total \<lparr>counter_windows = [window_row sample_delta], counter_totals = [(pair_key sample_entity Like, 5)]\<rparr>
       (pair_key sample_entity Like)
     = pg_total empty_counter_db (pair_key sample_entity Like)
       + (\<Sum>d\<leftarrow>filter (\<lambda>d. pair_key (delta_entity d) (delta_metric d) = pair_key sample_entity Like)
            (first_of window_row (set (counter_windows empty_counter_db)) [sample_delta, sample_delta]). delta_scalar d)"
proof -
  have "pg_flush_window \<lparr>counter_windows = [window_row sample_delta], counter_totals = [(pair_key sample_entity Like, 5)]\<rparr>
      sample_delta
    = Inr (AlreadyApplied, \<lparr>counter_windows = [window_row sample_delta], counter_totals = [(pair_key sample_entity Like, 5)]\<rparr>)"
    by (simp add: pg_flush_window_def)
  then have "flush_deltas pg_flush_window (\<lambda>_ h. (Inr (), h)) (\<lambda>t _. Inr t) flush_report_default [sample_delta, sample_delta]
      (empty_counter_db, (), ())
    = (Inr \<lparr>rep_applied = 1, rep_already_applied = 1\<rparr>,
       \<lparr>counter_windows = [window_row sample_delta], counter_totals = [(pair_key sample_entity Like, 5)]\<rparr>, (), ())"
    by (simp add: sample_flush flush_report_default_def)
  from flush_counts_each_window_once [OF this] show ?thesis by blast
qed

text \<open>
  C17. A window lost by the hot tier stays lost.  If the ledger applies a window and the hot write then
  fails, with whatever it had written until then, the flush returns the error; a retry of the same
  delta, with a hot tier that works again, reports success without writing the hot tier or the time
  series.
\<close>

theorem hot_failure_loses_window:
  assumes "pg_flush_window l d = Inr (Applied, l')" "ad d h = (Inl e, h')"
  shows "flush_deltas pg_flush_window ad ap flush_report_default [d] (l, h, t) = (Inl e, l', h', t)
       \<and> flush_deltas pg_flush_window ad' ap flush_report_default [d] (l', h', t)
           = (Inr \<lparr>rep_applied = 0, rep_already_applied = 1\<rparr>, l', h', t)"
proof -
  have "window_row d \<in> set (counter_windows l')"
    using assms(1) by (auto simp: pg_flush_window_def Let_def split: if_splits)
  then show ?thesis
    using pg_windows.flush_redelivered [of "[d]" l' ad' ap flush_report_default h' t] assms
    by (simp add: flush_report_default_def)
qed

definition empty_hot_store :: hot_store where
  "empty_hot_store = \<lparr>hashes = Map.empty, hlls = \<lambda>_. [], boards = \<lambda>_. []\<rparr>"

lemma sample_hot_failures:
  "redis_apply_delta (Some (NotRun ''down'')) f2 sample_delta empty_hot_store
     = (Inl (CacheWriteFailed ''down''), empty_hot_store)"
  "redis_apply_delta None (Some (NotRun ''down'')) sample_delta empty_hot_store
     = (Inl (CacheWriteFailed ''down''), empty_hot_store\<lparr>hashes := [(hash_key sample_entity, ''like'') \<mapsto> 5]\<rparr>)"
  by (simp_all add: redis_apply_delta_def redis_hincrby_def remote_call_def st_bind_def sample_delta_def
      empty_hot_store_def metric_aggregation_def in_i64_def i64_max_def i64_min_def Let_def)

theorem hot_failure_loses_window_witness:
  "\<exists>l'. flush_deltas pg_flush_window (redis_apply_delta None (Some (NotRun ''down''))) (\<lambda>t _. Inr t)
        flush_report_default [sample_delta] (empty_counter_db, empty_hot_store, ())
      = (Inl (CacheWriteFailed ''down''), l', empty_hot_store\<lparr>hashes := [(hash_key sample_entity, ''like'') \<mapsto> 5]\<rparr>, ())
    \<and> flush_deltas pg_flush_window (redis_apply_delta None None) (\<lambda>t _. Inr t) flush_report_default [sample_delta]
        (l', empty_hot_store\<lparr>hashes := [(hash_key sample_entity, ''like'') \<mapsto> 5]\<rparr>, ())
      = (Inr \<lparr>rep_applied = 0, rep_already_applied = 1\<rparr>, l',
         empty_hot_store\<lparr>hashes := [(hash_key sample_entity, ''like'') \<mapsto> 5]\<rparr>, ())"
  using hot_failure_loses_window [OF sample_flush, of "redis_apply_delta None (Some (NotRun ''down''))",
      OF sample_hot_failures(2), of "\<lambda>t _. Inr t" "()" "redis_apply_delta None None"]
  by blast

abbreviation pg_reconcile ::
  "(entity_ref \<Rightarrow> metric \<Rightarrow> counter_error + i64 option) \<Rightarrow> i64 \<Rightarrow> entity_ref \<Rightarrow> metric \<Rightarrow> counter_db \<times> hot_store
   \<Rightarrow> (counter_error + reconcile_outcome) \<times> counter_db \<times> hot_store" where
  "pg_reconcile \<equiv> reconcile (\<lambda>l e m. Inr (pg_read_total l e m)) (\<lambda>l e m v. Inr (pg_set_total l e m v))
     (\<lambda>h e m v. Inr (redis_overwrite h e m v))"

lemma wrap_i64_zero [simp]: "wrap_i64 0 = 0"
  by (simp add: wrap_i64_def i64_min_def)

lemma pg_read_set_total: "pg_read_total (pg_set_total l e m v) e m = Some v"
  by (simp add: pg_read_total_def pg_set_total_def map_of_put)

lemma pg_read_set_other:
  "pg_read_total (pg_set_total l e m v) e' m' =
     (if pair_key e' m' = pair_key e m then Some v else pg_read_total l e' m')"
  by (simp add: pg_read_total_def pg_set_total_def map_of_put)

text \<open>
  C18. Reconciliation corrects by the drift of the ledger alone.  For an exact metric with an
  authoritative count, and whatever the hot counter holds: if the drift of the durable total exceeds
  the tolerance, one run sets the durable total and the hot counter of that pair to the authoritative
  count, touches no other pair, and reports both values, and the next run finds nothing to correct; if
  the durable total drifts within the tolerance the run reports the drift, and if it equals the count
  it reports \<open>InSync\<close>, and in both cases neither tier is written.  So reconciliation
  leaves a hot counter that missed a window alone until the ledger itself drifts beyond the tolerance.
\<close>

theorem reconcile_heals:
  assumes "metric_kind_of m = Exact" "source e m = Inr (Some auth)" "0 \<le> tolerance"
    and "current = (case pg_read_total l e m of None \<Rightarrow> 0 | Some v \<Rightarrow> v)" "drift = wrap_i64 (auth - current)"
  shows "(wrap_i64 (abs drift) > tolerance \<longrightarrow>
        pg_reconcile source tolerance e m (l, h)
          = (Inr (Corrected current auth), pg_set_total l e m auth, redis_overwrite h e m auth))
     \<and> hashes (redis_overwrite h e m auth) = (hashes h)((hash_key e, metric_as_str m) \<mapsto> auth)
     \<and> pg_read_total (pg_set_total l e m auth) e' m' =
         (if pair_key e' m' = pair_key e m then Some auth else pg_read_total l e' m')
     \<and> (drift \<noteq> 0 \<and> wrap_i64 (abs drift) \<le> tolerance \<longrightarrow>
          pg_reconcile source tolerance e m (l, h) = (Inr (WithinTolerance drift), l, h))
     \<and> (current = auth \<longrightarrow> pg_reconcile source tolerance e m (l, h) = (Inr InSync, l, h))
     \<and> (\<forall>hot. pg_reconcile source tolerance e m (pg_set_total l e m auth, hot)
               = (Inr InSync, pg_set_total l e m auth, hot))"
  using assms by (auto simp: reconcile_def Let_def pg_read_set_other redis_overwrite_def)

theorem reconcile_heals_witness:
  "pg_read_total (pg_set_total empty_counter_db sample_entity Like 9) sample_entity Like = Some 9
   \<and> pg_reconcile (\<lambda>_ _. Inr (Some 9)) 3 sample_entity Like (empty_counter_db, empty_hot_store)
     = (Inr (Corrected 0 9), pg_set_total empty_counter_db sample_entity Like 9,
        redis_overwrite empty_hot_store sample_entity Like 9)
   \<and> pg_reconcile (\<lambda>_ _. Inr (Some 9)) 3 sample_entity Like
       (pg_set_total empty_counter_db sample_entity Like 9, empty_hot_store)
     = (Inr InSync, pg_set_total empty_counter_db sample_entity Like 9, empty_hot_store)"
proof -
  have t: "0 = (case pg_read_total empty_counter_db sample_entity Like of None \<Rightarrow> 0 | Some v \<Rightarrow> v)"
    by (simp add: pg_read_total_def empty_counter_db_def)
  have t': "9 = (case pg_read_total (pg_set_total empty_counter_db sample_entity Like 9) sample_entity Like of
      None \<Rightarrow> 0 | Some v \<Rightarrow> v)"
    by (simp add: pg_read_set_total)
  have "metric_kind_of Like = Exact" by (simp add: metric_kind_of_def)
  note r = reconcile_heals [OF this, of "\<lambda>_ _. Inr (Some 9)" sample_entity 9 3, OF refl _ t refl]
    reconcile_heals [OF this, of "\<lambda>_ _. Inr (Some 9)" sample_entity 9 3, OF refl _ t' refl]
  have "wrap_i64 (abs (wrap_i64 (9 - 0))) > 3" by (simp add: wrap_i64_def i64_min_def)
  then show ?thesis using r [of empty_hot_store sample_entity Like] by simp
qed

text \<open>
  Reads fail open.  When the hot tier times out or fails with a retryable error and the ledger can
  be read, a batch read never fails: it is marked degraded and returns, for every requested entity in
  order and every requested metric, exactly the durable total (absent when there is none).
\<close>

lemma batch_get_fails_open:
  assumes "hot = None \<or> (\<exists>e. hot = Some (Inl e) \<and> counter_is_retryable e)"
  shows "\<exists>ro. batch_get hot (Inr tot) q = Inr ro \<and> ro_degraded ro
       \<and> map snap_entity (ro_snapshots ro) = bq_entities q
       \<and> (\<forall>s\<in>set (ro_snapshots ro). \<forall>m. snapshot_get s m =
            (if m \<in> set (effective_metrics q) then tot (snap_entity s) m else None))"
proof -
  have got: "snapshot_get \<lparr>snap_entity = e, snap_values =
      List.map_filter (\<lambda>m. map_option (counter_value_new m) (tot e m)) ms\<rparr> m
    = (if m \<in> set ms then tot e m else None)" for e m ms
  proof (induction ms)
    case (Cons a ms)
    then show ?case
      by (cases "tot e a") (auto simp: snapshot_get_def List.map_filter_def counter_value_new_def)
  qed (simp add: snapshot_get_def List.map_filter_def)
  have "batch_get hot (Inr tot) q
      = Inr \<lparr>ro_snapshots = ledger_fallback tot (bq_entities q) (effective_metrics q), ro_degraded = True\<rparr>"
    using assms by (auto simp: batch_get_def Let_def)
  then show ?thesis
    by (simp add: ledger_fallback_def o_def) (simp add: got)
qed

lemma batch_get_fails_open_witness:
  "\<exists>ro. batch_get (Some (Inl HotStoreUnavailable)) (Inr (\<lambda>_ m. if m = Like then Some 4 else None))
          \<lparr>bq_entities = [sample_entity], bq_metrics = [Like, View]\<rparr> = Inr ro \<and> ro_degraded ro
       \<and> map snap_entity (ro_snapshots ro) = [sample_entity]"
  using batch_get_fails_open [of "Some (Inl HotStoreUnavailable)" "\<lambda>_ m. if m = Like then Some 4 else None"
      "\<lparr>bq_entities = [sample_entity], bq_metrics = [Like, View]\<rparr>"]
  by auto

lemma kind_has_no_colon: "CHR '':'' \<notin> set (entity_kind_as_str k)"
  by (cases k) simp_all

lemma split_once_append: "c \<notin> set a \<Longrightarrow> split_once c (a @ c # b) = Some (a, b)"
proof -
  assume c: "c \<notin> set a"
  then have "takeWhile (\<lambda>x. x \<noteq> c) (a @ c # b) = a" by (induction a) auto
  moreover from c have "dropWhile (\<lambda>x. x \<noteq> c) (a @ c # b) = c # b" by (induction a) auto
  ultimately show ?thesis by (simp add: split_once_def)
qed

lemma kind_colon_cut:
  "entity_kind_as_str k @ '':'' @ i = entity_kind_as_str k' @ '':'' @ i' \<longleftrightarrow> k = k' \<and> i = i'"
proof
  assume eq: "entity_kind_as_str k @ '':'' @ i = entity_kind_as_str k' @ '':'' @ i'"
  have "split_once (CHR '':'') (entity_kind_as_str k @ '':'' @ i) = Some (entity_kind_as_str k, i)" for k i
    using split_once_append [OF kind_has_no_colon] by simp
  from this [of k i] this [of k' i'] show "k = k' \<and> i = i'"
    unfolding eq by (metis option.inject prod.inject entity_kind_as_str_inject)
qed simp

text \<open>
  Store keys name their entity.  The trending member of an entity with a valid id parses back to
  that entity, even when the id contains the separator, and two entities never share a counter hash,
  nor two (entity, metric) pairs a durable row.
\<close>

lemma store_keys_round_trip:
  "(\<not> is_blank (ent_id e) \<longrightarrow> parse_member (member_of e) = Some e)
   \<and> (hash_key e = hash_key e' \<longleftrightarrow> e = e')
   \<and> (pair_key e m = pair_key e' m' \<longleftrightarrow> e = e' \<and> m = m')"
proof -
  have kind: "entity_kind_try_from_str (entity_kind_as_str k) = Inr k" for k
    by (cases k) (simp_all add: entity_kind_try_from_str_def)
  have eq: "e = e' \<longleftrightarrow> ent_kind e = ent_kind e' \<and> ent_id e = ent_id e'" for e e' :: entity_ref
    by (cases e; cases e') simp
  have "parse_member (member_of e) = Some e" if "\<not> is_blank (ent_id e)"
    using that split_once_append [OF kind_has_no_colon, of "ent_kind e" "ent_id e"]
    by (simp add: parse_member_def member_of_def kind entity_id_new_def eq)
  moreover have "hash_key e = hash_key e' \<longleftrightarrow> e = e'"
  proof -
    have "hash_key e = hash_key e' \<longleftrightarrow>
        entity_kind_as_str (ent_kind e) @ '':'' @ ent_id e = entity_kind_as_str (ent_kind e') @ '':'' @ ent_id e'"
      unfolding hash_key_def braces_def by (simp only: same_append_eq append_same_eq)
    then show ?thesis unfolding kind_colon_cut eq .
  qed
  moreover have "pair_key e m = pair_key e' m' \<longleftrightarrow> e = e' \<and> m = m'"
    by (auto simp: pair_key_def eq entity_kind_as_str_inject metric_as_str_inject)
  ultimately show ?thesis by blast
qed

lemma store_keys_round_trip_witness:
  "parse_member (member_of \<lparr>ent_kind = KHashtag, ent_id = ''a:b''\<rparr>) = Some \<lparr>ent_kind = KHashtag, ent_id = ''a:b''\<rparr>"
proof -
  have "\<not> is_blank ''a:b''" by code_simp
  then show ?thesis using store_keys_round_trip [of "\<lparr>ent_kind = KHashtag, ent_id = ''a:b''\<rparr>"] by simp
qed

end
