(* ===== verification/StorageErrors.thy ===== *)
theory StorageErrors
  imports AppError
begin

text \<open>
  The errors of the two storage crates and how a driver error is classified
  (\<open>crates/storage/postgres/src/error/map.rs\<close>, \<open>crates/storage/redis/src/error/map.rs\<close>).  The
  driver's own error types (\<open>sqlx\<close>, \<open>fred\<close>) are modelled as far as the classification reads them.
\<close>

section \<open>Postgres\<close>

datatype storage_error =
    UniqueViolation string
  | ForeignKeyViolation string
  | NotNullViolation string
  | CheckViolation string
  | Deadlock
  | SerializationFailure
  | PoolTimedOut
  | PoolClosed
  | RowNotFound
  | Migration string
  | Connection string
  | Configuration string
  | ShardNotFound u32
  | ShardRoutingFailed string
  | Database string string

fun storage_error_code :: "storage_error \<Rightarrow> string" where
  "storage_error_code (UniqueViolation _) = ''DB-1001''"
| "storage_error_code (ForeignKeyViolation _) = ''DB-1002''"
| "storage_error_code (NotNullViolation _) = ''DB-1003''"
| "storage_error_code (CheckViolation _) = ''DB-1004''"
| "storage_error_code Deadlock = ''DB-2001''"
| "storage_error_code SerializationFailure = ''DB-2002''"
| "storage_error_code PoolTimedOut = ''DB-3001''"
| "storage_error_code PoolClosed = ''DB-3002''"
| "storage_error_code RowNotFound = ''DB-4001''"
| "storage_error_code (Migration _) = ''DB-5001''"
| "storage_error_code (Connection _) = ''DB-6001''"
| "storage_error_code (Configuration _) = ''DB-7001''"
| "storage_error_code (ShardNotFound _) = ''DB-8001''"
| "storage_error_code (ShardRoutingFailed _) = ''DB-8002''"
| "storage_error_code (Database _ _) = ''DB-9000''"

fun storage_http_status :: "storage_error \<Rightarrow> nat" where
  "storage_http_status (UniqueViolation _) = 409"
| "storage_http_status (ForeignKeyViolation _) = 422"
| "storage_http_status (NotNullViolation _) = 422"
| "storage_http_status (CheckViolation _) = 422"
| "storage_http_status Deadlock = 503"
| "storage_http_status SerializationFailure = 503"
| "storage_http_status PoolTimedOut = 503"
| "storage_http_status PoolClosed = 503"
| "storage_http_status RowNotFound = 404"
| "storage_http_status (Migration _) = 500"
| "storage_http_status (Connection _) = 503"
| "storage_http_status (Configuration _) = 500"
| "storage_http_status (ShardNotFound _) = 503"
| "storage_http_status (ShardRoutingFailed _) = 500"
| "storage_http_status (Database _ _) = 500"

fun storage_severity :: "storage_error \<Rightarrow> severity" where
  "storage_severity (UniqueViolation _) = Low"
| "storage_severity (ForeignKeyViolation _) = Medium"
| "storage_severity (NotNullViolation _) = Medium"
| "storage_severity (CheckViolation _) = Low"
| "storage_severity Deadlock = High"
| "storage_severity SerializationFailure = High"
| "storage_severity PoolTimedOut = High"
| "storage_severity PoolClosed = Critical"
| "storage_severity RowNotFound = Low"
| "storage_severity (Migration _) = Critical"
| "storage_severity (Connection _) = High"
| "storage_severity (Configuration _) = Critical"
| "storage_severity (ShardNotFound _) = Critical"
| "storage_severity (ShardRoutingFailed _) = Critical"
| "storage_severity (Database _ _) = Medium"

definition storage_is_retryable :: "storage_error \<Rightarrow> bool" where
  "storage_is_retryable e \<longleftrightarrow> e \<in> {Deadlock, SerializationFailure, PoolTimedOut}"

fun storage_user_facing_message :: "storage_error \<Rightarrow> string" where
  "storage_user_facing_message (UniqueViolation _) = ''A record with this information already exists.''"
| "storage_user_facing_message (ForeignKeyViolation _) = ''The referenced resource does not exist.''"
| "storage_user_facing_message (NotNullViolation _) = ''A required field is missing.''"
| "storage_user_facing_message (CheckViolation _) = ''The provided value is invalid.''"
| "storage_user_facing_message RowNotFound = ''The requested resource was not found.''"
| "storage_user_facing_message Deadlock = ''A temporary conflict occurred. Please retry the operation.''"
| "storage_user_facing_message SerializationFailure = ''A temporary conflict occurred. Please retry the operation.''"
| "storage_user_facing_message PoolTimedOut = ''The service is temporarily overloaded. Please retry.''"
| "storage_user_facing_message _ = ''A database error occurred. Please try again later.''"

definition storage_answers :: "storage_error \<Rightarrow> app_answers" where
  "storage_answers e =
     \<lparr>error_code = storage_error_code e, http_status = storage_http_status e,
      severity = storage_severity e, retryable = storage_is_retryable e, err_category = ''DB'',
      user_facing_message = storage_user_facing_message e\<rparr>"

text \<open>What the classification reads of a driver error.\<close>

datatype sqlx_kind = KUnique | KForeignKey | KNotNull | KCheck | KOther

record sqlx_database_error =
  sq_kind :: sqlx_kind
  sq_code :: "string option"
  sq_message :: string
  sq_constraint :: "string option"

datatype sqlx_error =
    SqDatabase sqlx_database_error
  | SqRowNotFound
  | SqPoolTimedOut
  | SqPoolClosed
  | SqWorkerCrashed
  | SqIo string
  | SqTls string
  | SqProtocol string
  | SqConfiguration string
  | SqMigrate string
  | SqOther string

definition unwrap_or :: "'a \<Rightarrow> 'a option \<Rightarrow> 'a" where
  "unwrap_or d x = (case x of None \<Rightarrow> d | Some y \<Rightarrow> y)"

definition map_database_error :: "sqlx_database_error \<Rightarrow> storage_error" where
  "map_database_error e =
     (case sq_kind e of
        KUnique \<Rightarrow> UniqueViolation (unwrap_or ''unknown'' (sq_constraint e))
      | KForeignKey \<Rightarrow> ForeignKeyViolation (unwrap_or ''unknown'' (sq_constraint e))
      | KNotNull \<Rightarrow> NotNullViolation (sq_message e)
      | KCheck \<Rightarrow> CheckViolation (unwrap_or ''unknown'' (sq_constraint e))
      | KOther \<Rightarrow>
          if sq_code e = Some ''40P01'' then Deadlock
          else if sq_code e = Some ''40001'' then SerializationFailure
          else Database (unwrap_or '''' (sq_code e)) (sq_message e))"

fun storage_from_sqlx :: "sqlx_error \<Rightarrow> storage_error" where
  "storage_from_sqlx (SqDatabase e) = map_database_error e"
| "storage_from_sqlx SqRowNotFound = RowNotFound"
| "storage_from_sqlx SqPoolTimedOut = PoolTimedOut"
| "storage_from_sqlx SqPoolClosed = PoolClosed"
| "storage_from_sqlx SqWorkerCrashed = Connection ''database worker thread crashed unexpectedly''"
| "storage_from_sqlx (SqIo m) = Connection m"
| "storage_from_sqlx (SqTls m) = Connection (''TLS error: '' @ m)"
| "storage_from_sqlx (SqProtocol m) = Connection m"
| "storage_from_sqlx (SqConfiguration m) = Configuration m"
| "storage_from_sqlx (SqMigrate m) = Migration m"
| "storage_from_sqlx (SqOther m) = Database '''' m"

lemma retryable_from_sqlx:
  "storage_is_retryable (storage_from_sqlx e) \<longleftrightarrow>
     e = SqPoolTimedOut \<or>
     (\<exists>d. e = SqDatabase d \<and> sq_kind d = KOther \<and> sq_code d \<in> {Some ''40P01'', Some ''40001''})"
  by (cases e rule: storage_from_sqlx.cases)
     (auto simp: storage_is_retryable_def map_database_error_def split: sqlx_kind.splits if_splits)

lemma storage_retryable_503: "storage_is_retryable e \<Longrightarrow> storage_http_status e = 503 \<and> should_page (storage_severity e)"
  by (auto simp: storage_is_retryable_def should_page_def)

section \<open>Redis\<close>

datatype redis_storage_error =
    RdsTimeout string
  | RdsDisconnected string
  | RdsIo string
  | RdsBackpressure
  | RdsCanceled
  | RdsPoolExhausted string
  | RdsAuthentication string
  | RdsWrongType string
  | RdsInvalidArgument string
  | RdsInvalidCommand string
  | RdsNotFound
  | RdsCluster string
  | RdsSentinel string
  | RdsConfiguration string
  | RdsTls string
  | RdsProtocol string
  | RdsParse string
  | RdsUnknown string

fun redis_error_code :: "redis_storage_error \<Rightarrow> string" where
  "redis_error_code (RdsTimeout _) = ''RDS-1001''"
| "redis_error_code (RdsDisconnected _) = ''RDS-1002''"
| "redis_error_code (RdsIo _) = ''RDS-1003''"
| "redis_error_code RdsBackpressure = ''RDS-1004''"
| "redis_error_code RdsCanceled = ''RDS-1005''"
| "redis_error_code (RdsPoolExhausted _) = ''RDS-2001''"
| "redis_error_code (RdsAuthentication _) = ''RDS-3001''"
| "redis_error_code (RdsWrongType _) = ''RDS-4001''"
| "redis_error_code (RdsInvalidArgument _) = ''RDS-4002''"
| "redis_error_code (RdsInvalidCommand _) = ''RDS-4003''"
| "redis_error_code RdsNotFound = ''RDS-4004''"
| "redis_error_code (RdsCluster _) = ''RDS-5001''"
| "redis_error_code (RdsSentinel _) = ''RDS-7001''"
| "redis_error_code (RdsConfiguration _) = ''RDS-8001''"
| "redis_error_code (RdsTls _) = ''RDS-8002''"
| "redis_error_code (RdsProtocol _) = ''RDS-8003''"
| "redis_error_code (RdsParse _) = ''RDS-8004''"
| "redis_error_code (RdsUnknown _) = ''RDS-9000''"

fun redis_http_status :: "redis_storage_error \<Rightarrow> nat" where
  "redis_http_status (RdsTimeout _) = 503"
| "redis_http_status (RdsDisconnected _) = 503"
| "redis_http_status (RdsIo _) = 503"
| "redis_http_status RdsBackpressure = 503"
| "redis_http_status RdsCanceled = 503"
| "redis_http_status (RdsPoolExhausted _) = 503"
| "redis_http_status (RdsAuthentication _) = 500"
| "redis_http_status (RdsWrongType _) = 422"
| "redis_http_status (RdsInvalidArgument _) = 422"
| "redis_http_status (RdsInvalidCommand _) = 500"
| "redis_http_status RdsNotFound = 404"
| "redis_http_status (RdsCluster _) = 503"
| "redis_http_status (RdsSentinel _) = 503"
| "redis_http_status (RdsConfiguration _) = 500"
| "redis_http_status (RdsTls _) = 500"
| "redis_http_status (RdsProtocol _) = 500"
| "redis_http_status (RdsParse _) = 500"
| "redis_http_status (RdsUnknown _) = 500"

fun redis_severity :: "redis_storage_error \<Rightarrow> severity" where
  "redis_severity (RdsTimeout _) = High"
| "redis_severity (RdsDisconnected _) = High"
| "redis_severity (RdsIo _) = High"
| "redis_severity RdsBackpressure = High"
| "redis_severity RdsCanceled = Medium"
| "redis_severity (RdsPoolExhausted _) = High"
| "redis_severity (RdsAuthentication _) = Critical"
| "redis_severity (RdsWrongType _) = Low"
| "redis_severity (RdsInvalidArgument _) = Low"
| "redis_severity (RdsInvalidCommand _) = Medium"
| "redis_severity RdsNotFound = Low"
| "redis_severity (RdsCluster _) = High"
| "redis_severity (RdsSentinel _) = High"
| "redis_severity (RdsConfiguration _) = Critical"
| "redis_severity (RdsTls _) = Critical"
| "redis_severity (RdsProtocol _) = Critical"
| "redis_severity (RdsParse _) = Medium"
| "redis_severity (RdsUnknown _) = Medium"

fun redis_is_retryable :: "redis_storage_error \<Rightarrow> bool" where
  "redis_is_retryable (RdsTimeout _) = True"
| "redis_is_retryable (RdsDisconnected _) = True"
| "redis_is_retryable (RdsIo _) = True"
| "redis_is_retryable RdsBackpressure = True"
| "redis_is_retryable RdsCanceled = True"
| "redis_is_retryable (RdsPoolExhausted _) = True"
| "redis_is_retryable (RdsAuthentication _) = False"
| "redis_is_retryable (RdsWrongType _) = False"
| "redis_is_retryable (RdsInvalidArgument _) = False"
| "redis_is_retryable (RdsInvalidCommand _) = False"
| "redis_is_retryable RdsNotFound = False"
| "redis_is_retryable (RdsCluster _) = True"
| "redis_is_retryable (RdsSentinel _) = True"
| "redis_is_retryable (RdsConfiguration _) = False"
| "redis_is_retryable (RdsTls _) = False"
| "redis_is_retryable (RdsProtocol _) = False"
| "redis_is_retryable (RdsParse _) = False"
| "redis_is_retryable (RdsUnknown _) = False"

fun redis_user_facing_message :: "redis_storage_error \<Rightarrow> string" where
  "redis_user_facing_message (RdsTimeout _) = ''The service is temporarily unavailable. Please retry.''"
| "redis_user_facing_message (RdsDisconnected _) = ''The service is temporarily unavailable. Please retry.''"
| "redis_user_facing_message (RdsIo _) = ''The service is temporarily unavailable. Please retry.''"
| "redis_user_facing_message RdsBackpressure = ''The service is temporarily unavailable. Please retry.''"
| "redis_user_facing_message RdsCanceled = ''The service is temporarily unavailable. Please retry.''"
| "redis_user_facing_message (RdsPoolExhausted _) = ''The service is temporarily unavailable. Please retry.''"
| "redis_user_facing_message (RdsAuthentication _) = ''A cache error occurred. Please try again later.''"
| "redis_user_facing_message (RdsWrongType _) = ''The request contains an invalid value.''"
| "redis_user_facing_message (RdsInvalidArgument _) = ''The request contains an invalid value.''"
| "redis_user_facing_message (RdsInvalidCommand _) = ''A cache error occurred. Please try again later.''"
| "redis_user_facing_message RdsNotFound = ''The requested resource was not found.''"
| "redis_user_facing_message (RdsCluster _) = ''The service is temporarily unavailable. Please retry.''"
| "redis_user_facing_message (RdsSentinel _) = ''The service is temporarily unavailable. Please retry.''"
| "redis_user_facing_message (RdsConfiguration _) = ''A cache error occurred. Please try again later.''"
| "redis_user_facing_message (RdsTls _) = ''A cache error occurred. Please try again later.''"
| "redis_user_facing_message (RdsProtocol _) = ''A cache error occurred. Please try again later.''"
| "redis_user_facing_message (RdsParse _) = ''A cache error occurred. Please try again later.''"
| "redis_user_facing_message (RdsUnknown _) = ''A cache error occurred. Please try again later.''"

definition redis_answers :: "redis_storage_error \<Rightarrow> app_answers" where
  "redis_answers e =
     \<lparr>error_code = redis_error_code e, http_status = redis_http_status e,
      severity = redis_severity e, retryable = redis_is_retryable e, err_category = ''RDS'',
      user_facing_message = redis_user_facing_message e\<rparr>"

text \<open>The kinds of driver error the classification names; every other kind is \<open>FkOther\<close>.\<close>

datatype fred_kind =
    FkTimeout | FkRouting | FkIO | FkBackpressure | FkCanceled | FkAuth | FkCluster | FkSentinel
  | FkConfig | FkUrl | FkProtocol | FkParse | FkInvalidArgument | FkInvalidCommand | FkNotFound | FkOther

primrec redis_from_fred :: "fred_kind \<Rightarrow> string \<Rightarrow> redis_storage_error" where
  "redis_from_fred FkTimeout m = RdsTimeout m"
| "redis_from_fred FkRouting m = RdsDisconnected m"
| "redis_from_fred FkIO m = RdsIo m"
| "redis_from_fred FkBackpressure m = RdsBackpressure"
| "redis_from_fred FkCanceled m = RdsCanceled"
| "redis_from_fred FkAuth m = RdsAuthentication m"
| "redis_from_fred FkCluster m = RdsCluster m"
| "redis_from_fred FkSentinel m = RdsSentinel m"
| "redis_from_fred FkConfig m = RdsConfiguration m"
| "redis_from_fred FkUrl m = RdsConfiguration m"
| "redis_from_fred FkProtocol m = RdsProtocol m"
| "redis_from_fred FkParse m = RdsParse m"
| "redis_from_fred FkInvalidArgument m = RdsInvalidArgument m"
| "redis_from_fred FkInvalidCommand m = RdsInvalidCommand m"
| "redis_from_fred FkNotFound m = RdsNotFound"
| "redis_from_fred FkOther m = RdsUnknown m"

lemma redis_retryable_iff_503: "redis_is_retryable e \<longleftrightarrow> redis_http_status e = 503"
  by (cases e) simp_all

lemma storage_codes_disjoint: "storage_error_code e \<noteq> redis_error_code r"
  by (cases e; cases r) simp_all

end
