(* ===== verification/AuthSession.thy ===== *)
theory AuthSession
  imports StorageErrors
begin

text \<open>
  The domain of the auth service (\<open>crates/services/auth/src/domain\<close>): the error catalogue, the
  value objects, and the three aggregates \<open>Session\<close>, \<open>RefreshToken\<close> and \<open>SubjectLink\<close>.  The two
  life cycles are interpreted as absorbing aggregates: their commands keep the lifetime invariant,
  and nothing leaves a terminal state.  UUIDs are 128-bit words; a fresh one (\<open>Uuid::now_v7\<close>) is an
  argument.
\<close>

section \<open>Errors\<close>

datatype auth_error =
    Storage storage_error
  | Cache redis_storage_error
  | Validation validation_error
  | EventPublishFailed string
  | ConcurrentModification
  | SessionNotFound string
  | SessionRevoked
  | SessionExpired
  | InvalidSessionTransition string string
  | RefreshTokenNotFound
  | RefreshTokenExpired
  | RefreshTokenReuseDetected
  | RefreshTokenAlreadyRotated
  | SubjectLinkNotFound string string
  | SubjectAlreadyLinked string string
  | TokenSigningFailed
  | SigningKeyUnavailable
  | InvalidTokenGeneration
  | IdpUnavailable
  | IdpAuthenticationFailed
  | IdpTokenRejected
  | ClaimsNormalizationFailed string
  | AccountNotActive string
  | AccountDirectoryUnavailable
  | DomainViolation string string
  | InvalidSessionId string
  | InvalidAccountId string

fun auth_error_code :: "auth_error \<Rightarrow> string" where
  "auth_error_code (Storage e) = storage_error_code e"
| "auth_error_code (Cache e) = redis_error_code e"
| "auth_error_code (Validation e) = error_code validation_answers"
| "auth_error_code (EventPublishFailed _) = ''AUT-7001''"
| "auth_error_code ConcurrentModification = ''AUT-8001''"
| "auth_error_code (SessionNotFound _) = ''AUT-1001''"
| "auth_error_code SessionRevoked = ''AUT-1002''"
| "auth_error_code SessionExpired = ''AUT-1003''"
| "auth_error_code (InvalidSessionTransition _ _) = ''AUT-1004''"
| "auth_error_code RefreshTokenNotFound = ''AUT-2001''"
| "auth_error_code RefreshTokenExpired = ''AUT-2002''"
| "auth_error_code RefreshTokenReuseDetected = ''AUT-2003''"
| "auth_error_code RefreshTokenAlreadyRotated = ''AUT-2004''"
| "auth_error_code (SubjectLinkNotFound _ _) = ''AUT-3001''"
| "auth_error_code (SubjectAlreadyLinked _ _) = ''AUT-3002''"
| "auth_error_code TokenSigningFailed = ''AUT-4001''"
| "auth_error_code SigningKeyUnavailable = ''AUT-4002''"
| "auth_error_code InvalidTokenGeneration = ''AUT-4003''"
| "auth_error_code IdpUnavailable = ''AUT-5001''"
| "auth_error_code IdpAuthenticationFailed = ''AUT-5002''"
| "auth_error_code IdpTokenRejected = ''AUT-5003''"
| "auth_error_code (ClaimsNormalizationFailed _) = ''AUT-5004''"
| "auth_error_code (AccountNotActive _) = ''AUT-6001''"
| "auth_error_code AccountDirectoryUnavailable = ''AUT-6002''"
| "auth_error_code (DomainViolation _ _) = ''AUT-9001''"
| "auth_error_code (InvalidSessionId _) = ''AUT-9002''"
| "auth_error_code (InvalidAccountId _) = ''AUT-9003''"

fun auth_http_status :: "auth_error \<Rightarrow> nat" where
  "auth_http_status (Storage e) = storage_http_status e"
| "auth_http_status (Cache e) = redis_http_status e"
| "auth_http_status (Validation e) = http_status validation_answers"
| "auth_http_status (EventPublishFailed _) = 500"
| "auth_http_status ConcurrentModification = 409"
| "auth_http_status (SessionNotFound _) = 404"
| "auth_http_status (SubjectLinkNotFound _ _) = 404"
| "auth_http_status SessionRevoked = 401"
| "auth_http_status SessionExpired = 401"
| "auth_http_status RefreshTokenNotFound = 401"
| "auth_http_status RefreshTokenExpired = 401"
| "auth_http_status RefreshTokenReuseDetected = 401"
| "auth_http_status RefreshTokenAlreadyRotated = 401"
| "auth_http_status InvalidTokenGeneration = 401"
| "auth_http_status IdpAuthenticationFailed = 401"
| "auth_http_status IdpTokenRejected = 401"
| "auth_http_status (SubjectAlreadyLinked _ _) = 409"
| "auth_http_status (AccountNotActive _) = 403"
| "auth_http_status TokenSigningFailed = 500"
| "auth_http_status (ClaimsNormalizationFailed _) = 502"
| "auth_http_status SigningKeyUnavailable = 503"
| "auth_http_status IdpUnavailable = 503"
| "auth_http_status AccountDirectoryUnavailable = 503"
| "auth_http_status _ = 422"

fun auth_severity :: "auth_error \<Rightarrow> severity" where
  "auth_severity (Storage e) = storage_severity e"
| "auth_severity (Cache e) = redis_severity e"
| "auth_severity (Validation e) = severity validation_answers"
| "auth_severity (EventPublishFailed _) = Medium"
| "auth_severity ConcurrentModification = High"
| "auth_severity RefreshTokenReuseDetected = High"
| "auth_severity TokenSigningFailed = High"
| "auth_severity SigningKeyUnavailable = High"
| "auth_severity IdpUnavailable = High"
| "auth_severity AccountDirectoryUnavailable = High"
| "auth_severity (InvalidSessionTransition _ _) = Medium"
| "auth_severity RefreshTokenAlreadyRotated = Medium"
| "auth_severity (ClaimsNormalizationFailed _) = Medium"
| "auth_severity (AccountNotActive _) = Medium"
| "auth_severity (DomainViolation _ _) = Medium"
| "auth_severity _ = Low"

fun auth_is_retryable :: "auth_error \<Rightarrow> bool" where
  "auth_is_retryable (Storage e) = storage_is_retryable e"
| "auth_is_retryable (Cache e) = redis_is_retryable e"
| "auth_is_retryable ConcurrentModification = True"
| "auth_is_retryable SigningKeyUnavailable = True"
| "auth_is_retryable IdpUnavailable = True"
| "auth_is_retryable AccountDirectoryUnavailable = True"
| "auth_is_retryable _ = False"

section \<open>Value objects\<close>

definition generation_initial :: i64 where
  "generation_initial = 0"

definition generation_next :: "i64 \<Rightarrow> i64" where
  "generation_next g = saturating_add_i64 g 1"

datatype session_status = SActive | SRevoked | SExpired

primrec session_status_as_str :: "session_status \<Rightarrow> string" where
  "session_status_as_str SActive = ''active''"
| "session_status_as_str SRevoked = ''revoked''"
| "session_status_as_str SExpired = ''expired''"

definition session_can_transition_to :: "session_status \<Rightarrow> session_status \<Rightarrow> bool" where
  "session_can_transition_to a b \<longleftrightarrow> (a, b) \<in> {(SActive, SRevoked), (SActive, SExpired)}"

definition session_is_terminal :: "session_status \<Rightarrow> bool" where
  "session_is_terminal a \<longleftrightarrow> a \<in> {SRevoked, SExpired}"

definition session_status_try_from :: "string \<Rightarrow> auth_error + session_status" where
  "session_status_try_from s =
     (if s = ''active'' then Inr SActive
      else if s = ''revoked'' then Inr SRevoked
      else if s = ''expired'' then Inr SExpired
      else Inl (DomainViolation ''session_status'' (''unknown session status: '' @ [CHR 39] @ s @ [CHR 39])))"

datatype refresh_token_status = TActive | TRotated | TRevoked

primrec token_status_as_str :: "refresh_token_status \<Rightarrow> string" where
  "token_status_as_str TActive = ''active''"
| "token_status_as_str TRotated = ''rotated''"
| "token_status_as_str TRevoked = ''revoked''"

definition token_can_transition_to :: "refresh_token_status \<Rightarrow> refresh_token_status \<Rightarrow> bool" where
  "token_can_transition_to a b \<longleftrightarrow> (a, b) \<in> {(TActive, TRotated), (TActive, TRevoked)}"

definition token_is_terminal :: "refresh_token_status \<Rightarrow> bool" where
  "token_is_terminal a \<longleftrightarrow> a \<in> {TRotated, TRevoked}"

definition token_status_try_from :: "string \<Rightarrow> auth_error + refresh_token_status" where
  "token_status_try_from s =
     (if s = ''active'' then Inr TActive
      else if s = ''rotated'' then Inr TRotated
      else if s = ''revoked'' then Inr TRevoked
      else Inl (DomainViolation ''refresh_token_status''
                 (''unknown refresh-token status: '' @ [CHR 39] @ s @ [CHR 39])))"

datatype revocation_reason = Logout | GlobalLogout | RefreshReuse | Administrative

primrec revocation_reason_as_str :: "revocation_reason \<Rightarrow> string" where
  "revocation_reason_as_str Logout = ''logout''"
| "revocation_reason_as_str GlobalLogout = ''global_logout''"
| "revocation_reason_as_str RefreshReuse = ''refresh_reuse''"
| "revocation_reason_as_str Administrative = ''administrative''"

definition revocation_reason_try_from :: "string \<Rightarrow> auth_error + revocation_reason" where
  "revocation_reason_try_from s =
     (if s = ''logout'' then Inr Logout
      else if s = ''global_logout'' then Inr GlobalLogout
      else if s = ''refresh_reuse'' then Inr RefreshReuse
      else if s = ''administrative'' then Inr Administrative
      else Inl (DomainViolation ''revocation_reason''
                 (''unknown revocation reason: '' @ [CHR 39] @ s @ [CHR 39])))"

text \<open>The three status columns are read back as they were written.\<close>

lemma auth_texts_round_trip:
  "session_status_try_from (session_status_as_str st) = Inr st"
  "token_status_try_from (token_status_as_str tst) = Inr tst"
  "revocation_reason_try_from (revocation_reason_as_str r) = Inr r"
  by (cases st, simp_all add: session_status_try_from_def)
     (cases tst, simp_all add: token_status_try_from_def,
      cases r, simp_all add: revocation_reason_try_from_def)

record device_fingerprint =
  user_agent :: "string option"
  ip_address :: "string option"
  device_id :: "string option"

definition same_device_as :: "device_fingerprint \<Rightarrow> device_fingerprint \<Rightarrow> bool" where
  "same_device_as a b =
     (case (device_id a, device_id b) of (Some x, Some y) \<Rightarrow> x = y | _ \<Rightarrow> True)"

record idp_subject =
  idp_issuer :: string
  idp_sub :: string

definition idp_subject_new :: "string \<Rightarrow> string \<Rightarrow> auth_error + idp_subject" where
  "idp_subject_new iss sub =
     (if is_blank iss then Inl (DomainViolation ''idp_subject.issuer'' ''issuer must not be empty'')
      else if is_blank sub then Inl (DomainViolation ''idp_subject.subject'' ''subject must not be empty'')
      else Inr \<lparr>idp_issuer = iss, idp_sub = sub\<rparr>)"

definition refresh_token_hash_new :: "string \<Rightarrow> auth_error + string" where
  "refresh_token_hash_new h =
     (if is_blank h then Inl (DomainViolation ''refresh_token_hash'' ''hash must not be empty'') else Inr h)"

record access_token_claims =
  cl_account :: uuid
  cl_session :: uuid
  cl_generation :: i64
  cl_permissions :: "string list"
  cl_issued_at :: datetime
  cl_expires_at :: datetime

definition expires_in_secs :: "access_token_claims \<Rightarrow> datetime \<Rightarrow> i64" where
  "expires_in_secs c now = max 0 ((cl_expires_at c - now) div nanos_per_sec)"

section \<open>Domain events\<close>

datatype auth_event =
    EvSessionIssued (ev_session: uuid) (ev_account: uuid) idp_subject i64 datetime datetime datetime datetime uuid
  | EvSessionRevoked (ev_session: uuid) (ev_account: uuid) i64 revocation_reason datetime uuid
  | EvSubjectLinked (ev_account: uuid) idp_subject datetime uuid

fun auth_event_type :: "auth_event \<Rightarrow> string" where
  "auth_event_type (EvSessionIssued _ _ _ _ _ _ _ _ _) = ''auth.session_issued''"
| "auth_event_type (EvSessionRevoked _ _ _ _ _ _) = ''auth.session_revoked''"
| "auth_event_type (EvSubjectLinked _ _ _ _) = ''auth.subject_linked''"

section \<open>The session\<close>

record session_issue_params =
  ip_account :: uuid
  ip_subject :: idp_subject
  ip_generation :: i64
  ip_device :: device_fingerprint
  ip_issued_at :: datetime
  ip_expires_at :: datetime
  ip_absolute_expiry :: datetime
  ip_correlation :: uuid

record session =
  ses_id :: uuid
  ses_account :: uuid
  ses_subject :: idp_subject
  ses_generation :: i64
  ses_status :: session_status
  ses_device :: device_fingerprint
  ses_issued_at :: datetime
  ses_expires_at :: datetime
  ses_absolute_expiry :: datetime
  ses_revoked_at :: "datetime option"
  ses_version :: i64
  ses_pending :: "auth_event list"

definition session_issue :: "uuid \<Rightarrow> session_issue_params \<Rightarrow> auth_error + session" where
  "session_issue fresh p =
     (if ip_expires_at p \<le> ip_issued_at p
      then Inl (DomainViolation ''session.expires_at'' ''session expiry must be after its issue time'')
      else if ip_absolute_expiry p < ip_expires_at p
      then Inl (DomainViolation ''session.absolute_expiry''
                 ''absolute expiry must be at or after the sliding expiry'')
      else Inr
        \<lparr>ses_id = fresh, ses_account = ip_account p, ses_subject = ip_subject p,
         ses_generation = ip_generation p, ses_status = SActive, ses_device = ip_device p,
         ses_issued_at = ip_issued_at p, ses_expires_at = ip_expires_at p,
         ses_absolute_expiry = ip_absolute_expiry p, ses_revoked_at = None, ses_version = 0,
         ses_pending = [EvSessionIssued fresh (ip_account p) (ip_subject p) (ip_generation p)
                          (ip_issued_at p) (ip_expires_at p) (ip_absolute_expiry p)
                          (ip_issued_at p) (ip_correlation p)]\<rparr>)"

text \<open>\<open>Session::reconstitute\<close>: the stored columns, no pending events.\<close>

definition session_reconstitute :: "session \<Rightarrow> session" where
  "session_reconstitute row = row\<lparr>ses_pending := []\<rparr>"

definition session_is_expired :: "session \<Rightarrow> datetime \<Rightarrow> bool" where
  "session_is_expired s now \<longleftrightarrow> ses_expires_at s \<le> now \<or> ses_absolute_expiry s \<le> now"

definition is_valid_under :: "session \<Rightarrow> i64 \<Rightarrow> datetime \<Rightarrow> bool" where
  "is_valid_under s g now \<longleftrightarrow>
     ses_status s = SActive \<and> \<not> session_is_expired s now \<and> ses_generation s = g"

definition ensure_mintable :: "session \<Rightarrow> datetime \<Rightarrow> auth_error + unit" where
  "ensure_mintable s now =
     (case ses_status s of
        SRevoked \<Rightarrow> Inl SessionRevoked
      | SExpired \<Rightarrow> Inl SessionExpired
      | SActive \<Rightarrow> if session_is_expired s now then Inl SessionExpired else Inr ())"

text \<open>Versions count the saves of a row from 0; the overflow of \<open>i64\<close> is not modelled.\<close>

definition session_touch :: "session \<Rightarrow> session" where
  "session_touch s = s\<lparr>ses_version := ses_version s + 1\<rparr>"

definition session_transition_to :: "session \<Rightarrow> session_status \<Rightarrow> auth_error + session" where
  "session_transition_to s nxt =
     (if \<not> session_can_transition_to (ses_status s) nxt
      then Inl (InvalidSessionTransition (session_status_as_str (ses_status s)) (session_status_as_str nxt))
      else Inr (s\<lparr>ses_status := nxt\<rparr>))"


definition mint_access_token ::
  "session \<Rightarrow> datetime \<Rightarrow> int \<Rightarrow> string list \<Rightarrow> auth_error + access_token_claims" where
  "mint_access_token s now ttl perms =
     bind_res (ensure_mintable s now) (\<lambda>_.
       let horizon = min (ses_expires_at s) (ses_absolute_expiry s);
           expiry = min (now + ttl) horizon
       in if expiry \<le> now then Inl SessionExpired
          else Inr \<lparr>cl_account = ses_account s, cl_session = ses_id s, cl_generation = ses_generation s,
                    cl_permissions = perms, cl_issued_at = now, cl_expires_at = expiry\<rparr>)"

definition session_extend :: "session \<Rightarrow> datetime \<Rightarrow> int \<Rightarrow> auth_error + session" where
  "session_extend s now ttl =
     bind_res (ensure_mintable s now) (\<lambda>_.
       let proposed = min (now + ttl) (ses_absolute_expiry s)
       in if ses_expires_at s < proposed
          then Inr (session_touch (s\<lparr>ses_expires_at := proposed\<rparr>))
          else Inr s)"

definition session_revoke :: "session \<Rightarrow> datetime \<Rightarrow> revocation_reason \<Rightarrow> uuid \<Rightarrow> auth_error + session" where
  "session_revoke s now reason corr =
     bind_res (session_transition_to s SRevoked) (\<lambda>s1.
       let s2 = session_touch (s1\<lparr>ses_revoked_at := Some now\<rparr>)
       in Inr (s2\<lparr>ses_pending := ses_pending s2 @
                   [EvSessionRevoked (ses_id s2) (ses_account s2) (ses_generation s2) reason now corr]\<rparr>))"

definition session_mark_expired :: "session \<Rightarrow> datetime \<Rightarrow> auth_error + session" where
  "session_mark_expired s now =
     (if \<not> session_is_expired s now
      then Inl (DomainViolation ''session'' ''session has not yet reached its expiry'')
      else bind_res (session_transition_to s SExpired) (\<lambda>s1. Inr (session_touch s1)))"

definition session_drain_events :: "session \<Rightarrow> auth_event list \<times> session" where
  "session_drain_events s = (ses_pending s, s\<lparr>ses_pending := []\<rparr>)"

section \<open>The refresh token\<close>

record token_issue_params =
  tp_session :: uuid
  tp_account :: uuid
  tp_hash :: string
  tp_issued_at :: datetime
  tp_expires_at :: datetime

record refresh_token =
  tok_id :: uuid
  tok_session :: uuid
  tok_account :: uuid
  tok_hash :: string
  tok_status :: refresh_token_status
  tok_issued_at :: datetime
  tok_expires_at :: datetime
  tok_used_at :: "datetime option"
  tok_replaced_by :: "uuid option"
  tok_version :: i64

definition token_issue :: "uuid \<Rightarrow> token_issue_params \<Rightarrow> auth_error + refresh_token" where
  "token_issue fresh p =
     (if tp_expires_at p \<le> tp_issued_at p
      then Inl (DomainViolation ''refresh_token.expires_at''
                 ''refresh-token expiry must be after its issue time'')
      else Inr
        \<lparr>tok_id = fresh, tok_session = tp_session p, tok_account = tp_account p, tok_hash = tp_hash p,
         tok_status = TActive, tok_issued_at = tp_issued_at p, tok_expires_at = tp_expires_at p,
         tok_used_at = None, tok_replaced_by = None, tok_version = 0\<rparr>)"

definition token_is_expired :: "refresh_token \<Rightarrow> datetime \<Rightarrow> bool" where
  "token_is_expired t now \<longleftrightarrow> tok_expires_at t \<le> now"

definition token_touch :: "refresh_token \<Rightarrow> refresh_token" where
  "token_touch t = t\<lparr>tok_version := tok_version t + 1\<rparr>"

text \<open>\<open>rotate\<close> answers with the rotated token and its successor, which gets the id \<open>fresh\<close>.\<close>

definition token_rotate ::
  "uuid \<Rightarrow> refresh_token \<Rightarrow> datetime \<Rightarrow> string \<Rightarrow> datetime \<Rightarrow> auth_error + refresh_token \<times> refresh_token" where
  "token_rotate fresh t now new_hash new_expires_at =
     (case tok_status t of
        TRotated \<Rightarrow> Inl RefreshTokenReuseDetected
      | TRevoked \<Rightarrow> Inl RefreshTokenAlreadyRotated
      | TActive \<Rightarrow>
          if token_is_expired t now then Inl RefreshTokenExpired
          else bind_res (token_issue fresh
                 \<lparr>tp_session = tok_session t, tp_account = tok_account t, tp_hash = new_hash,
                  tp_issued_at = now, tp_expires_at = new_expires_at\<rparr>) (\<lambda>successor.
               Inr (token_touch (t\<lparr>tok_status := TRotated, tok_used_at := Some now,
                                  tok_replaced_by := Some (tok_id successor)\<rparr>), successor)))"

definition token_revoke :: "refresh_token \<Rightarrow> datetime \<Rightarrow> auth_error + refresh_token" where
  "token_revoke t now =
     (case tok_status t of
        TActive \<Rightarrow> Inr (token_touch (t\<lparr>tok_status := TRevoked, tok_used_at := Some now\<rparr>))
      | TRotated \<Rightarrow> Inl RefreshTokenAlreadyRotated
      | TRevoked \<Rightarrow> Inl (InvalidSessionTransition ''revoked'' ''revoked''))"

section \<open>The subject link\<close>

record subject_link =
  lnk_subject :: idp_subject
  lnk_account :: uuid
  lnk_linked_at :: datetime
  lnk_version :: i64
  lnk_pending :: "auth_event list"

definition link_establish :: "idp_subject \<Rightarrow> uuid \<Rightarrow> datetime \<Rightarrow> uuid \<Rightarrow> subject_link" where
  "link_establish sub acct now corr =
     \<lparr>lnk_subject = sub, lnk_account = acct, lnk_linked_at = now, lnk_version = 0,
      lnk_pending = [EvSubjectLinked acct sub now corr]\<rparr>"

definition link_drain_events :: "subject_link \<Rightarrow> auth_event list \<times> subject_link" where
  "link_drain_events l = (lnk_pending l, l\<lparr>lnk_pending := []\<rparr>)"

section \<open>The life cycles as aggregates\<close>

datatype session_cmd =
    Extend datetime int
  | Revoke datetime revocation_reason uuid
  | MarkExpired datetime

primrec session_exec :: "session \<Rightarrow> session_cmd \<Rightarrow> auth_error + session" where
  "session_exec s (Extend now ttl) = session_extend s now ttl"
| "session_exec s (Revoke now reason corr) = session_revoke s now reason corr"
| "session_exec s (MarkExpired now) = session_mark_expired s now"

definition session_wf :: "session \<Rightarrow> bool" where
  "session_wf s \<longleftrightarrow>
     ses_issued_at s < ses_expires_at s \<and> ses_expires_at s \<le> ses_absolute_expiry s \<and>
     0 \<le> ses_version s \<and> (ses_status s = SRevoked \<longleftrightarrow> ses_revoked_at s \<noteq> None)"

lemmas session_cmd_defs = session_extend_def session_revoke_def session_mark_expired_def
  session_transition_to_def session_can_transition_to_def session_touch_def ensure_mintable_def
  bind_res_Inr_iff Let_def

lemma session_issue_wf [wf_intros]: "session_issue fresh p = Inr s \<Longrightarrow> session_wf s"
  by (auto simp: session_issue_def session_wf_def split: if_splits)

lemma session_extend_wf [wf_intros]: "session_wf s \<Longrightarrow> session_extend s now ttl = Inr s' \<Longrightarrow> session_wf s'"
  by (auto simp: session_cmd_defs session_wf_def split: if_splits session_status.splits)

lemma session_revoke_wf [wf_intros]: "session_wf s \<Longrightarrow> session_revoke s now r c = Inr s' \<Longrightarrow> session_wf s'"
  by (auto simp: session_cmd_defs session_wf_def split: if_splits)

lemma session_mark_expired_wf [wf_intros]: "session_wf s \<Longrightarrow> session_mark_expired s now = Inr s' \<Longrightarrow> session_wf s'"
  by (auto simp: session_cmd_defs session_wf_def split: if_splits)

text \<open>
  What identifies a session never changes, a terminal session accepts no command, and the only
  statuses commands lead to are the terminal ones.
\<close>

definition session_identity :: "session \<Rightarrow> uuid \<times> uuid \<times> i64 \<times> datetime \<times> datetime" where
  "session_identity s = (ses_id s, ses_account s, ses_generation s, ses_issued_at s, ses_absolute_expiry s)"

lemma session_exec_identity: "session_exec s c = Inr s' \<Longrightarrow> session_identity s' = session_identity s"
  by (cases c) (auto simp: session_cmd_defs session_identity_def split: if_splits)

lemma session_exec_terminal: "session_is_terminal (ses_status s) \<Longrightarrow> session_exec s c \<noteq> Inr s'"
  by (cases c) (auto simp: session_cmd_defs session_is_terminal_def split: if_splits session_status.splits)

interpretation ses: absorbing_aggregate session_exec session_wf
  "\<lambda>s. session_is_terminal (ses_status s)" "\<lambda>s. s"
proof unfold_locales
  fix s c s'
  show "session_wf s \<Longrightarrow> session_exec s c = Inr s' \<Longrightarrow> session_wf s'"
    by (cases c) (auto intro: wf_intros)
  show "session_wf s \<Longrightarrow> session_is_terminal (ses_status s) \<Longrightarrow> session_exec s c = Inr s' \<Longrightarrow>
        session_is_terminal (ses_status s') \<and> s' = s"
    using session_exec_terminal by blast
qed

datatype token_cmd = Rotate uuid datetime string datetime | TokRevoke datetime

primrec token_exec :: "refresh_token \<Rightarrow> token_cmd \<Rightarrow> auth_error + refresh_token" where
  "token_exec t (Rotate fresh now h e) = bind_res (token_rotate fresh t now h e) (\<lambda>(t', _). Inr t')"
| "token_exec t (TokRevoke now) = token_revoke t now"

definition token_wf :: "refresh_token \<Rightarrow> bool" where
  "token_wf t \<longleftrightarrow>
     tok_issued_at t < tok_expires_at t \<and> 0 \<le> tok_version t \<and>
     (tok_status t = TActive \<longleftrightarrow> tok_used_at t = None) \<and>
     (tok_status t = TRotated \<longleftrightarrow> tok_replaced_by t \<noteq> None)"

lemma token_issue_wf [wf_intros]: "token_issue fresh p = Inr t \<Longrightarrow> token_wf t"
  by (auto simp: token_issue_def token_wf_def split: if_splits)

lemma token_rotate_wf [wf_intros]:
  "token_wf t \<Longrightarrow> token_rotate fresh t now h e = Inr (t', u) \<Longrightarrow> token_wf t' \<and> token_wf u"
  by (auto simp: token_rotate_def token_issue_def token_touch_def token_wf_def bind_res_Inr_iff
           split: if_splits refresh_token_status.splits)

lemma token_revoke_wf [wf_intros]: "token_wf t \<Longrightarrow> token_revoke t now = Inr t' \<Longrightarrow> token_wf t'"
  by (auto simp: token_revoke_def token_touch_def token_wf_def split: refresh_token_status.splits)

lemma token_exec_terminal: "token_is_terminal (tok_status t) \<Longrightarrow> token_exec t c \<noteq> Inr t'"
  by (cases c)
     (auto simp: token_rotate_def token_revoke_def token_is_terminal_def bind_res_Inr_iff
           split: refresh_token_status.splits)

interpretation tok: absorbing_aggregate token_exec token_wf
  "\<lambda>t. token_is_terminal (tok_status t)" "\<lambda>t. t"
proof unfold_locales
  fix t c t'
  show "token_wf t \<Longrightarrow> token_exec t c = Inr t' \<Longrightarrow> token_wf t'"
    by (cases c) (auto simp: bind_res_Inr_iff dest: token_rotate_wf token_revoke_wf)
  show "token_wf t \<Longrightarrow> token_is_terminal (tok_status t) \<Longrightarrow> token_exec t c = Inr t' \<Longrightarrow>
        token_is_terminal (tok_status t') \<and> t' = t"
    using token_exec_terminal by blast
qed


interpretation ses_ident: aggregate session_exec "\<lambda>s. session_identity s = i" for i
  by unfold_locales (simp add: session_exec_identity)

lemma mint_access_token_Inr:
  "mint_access_token s now ttl perms = Inr c \<Longrightarrow>
     ses_status s = SActive \<and> cl_account c = ses_account s \<and> cl_session c = ses_id s \<and>
     cl_generation c = ses_generation s \<and> cl_permissions c = perms \<and> cl_issued_at c = now \<and>
     now < cl_expires_at c \<and>
     cl_expires_at c = min (now + ttl) (min (ses_expires_at s) (ses_absolute_expiry s))"
  by (auto simp: mint_access_token_def ensure_mintable_def bind_res_Inr_iff Let_def
           split: session_status.splits if_splits)

lemma mint_access_token_ok:
  "is_valid_under s g now \<Longrightarrow> 0 < ttl \<Longrightarrow> is_ok (mint_access_token s now ttl perms)"
  by (auto simp: mint_access_token_def ensure_mintable_def is_valid_under_def session_is_expired_def
                 Let_def not_le)

definition sample_params :: session_issue_params where
  "sample_params =
     \<lparr>ip_account = 7, ip_subject = \<lparr>idp_issuer = ''iss'', idp_sub = ''sub''\<rparr>, ip_generation = 0,
      ip_device = \<lparr>user_agent = None, ip_address = None, device_id = Some ''d1''\<rparr>,
      ip_issued_at = 0, ip_expires_at = 1800, ip_absolute_expiry = 28800, ip_correlation = 1\<rparr>"

definition sample_session :: session where
  "sample_session =
     \<lparr>ses_id = 11, ses_account = 7, ses_subject = \<lparr>idp_issuer = ''iss'', idp_sub = ''sub''\<rparr>,
      ses_generation = 0, ses_status = SActive,
      ses_device = \<lparr>user_agent = None, ip_address = None, device_id = Some ''d1''\<rparr>,
      ses_issued_at = 0, ses_expires_at = 1800, ses_absolute_expiry = 28800, ses_revoked_at = None,
      ses_version = 0,
      ses_pending = [EvSessionIssued 11 7 \<lparr>idp_issuer = ''iss'', idp_sub = ''sub''\<rparr> 0 0 1800 28800 0 1]\<rparr>"

lemma sample_issue: "session_issue 11 sample_params = Inr sample_session"
  by (simp add: session_issue_def sample_params_def sample_session_def)

text \<open>
  C23. Whatever commands an issued session goes through, its sliding expiry stays at or below the
  absolute cap it was issued with, and its account and generation never change.  Every access token
  it mints is strictly alive when minted, lives at most the requested lifetime, and ends no later
  than the session and the cap; only an active session mints one.  Once the session is terminal no
  further command changes anything about it and it never mints again.
\<close>

theorem session_lifetime_bounds:
  assumes issued: "session_issue fresh p = Inr s0"
  shows "ses_issued_at (run_cmds session_exec s0 cs) < ses_expires_at (run_cmds session_exec s0 cs)
       \<and> ses_expires_at (run_cmds session_exec s0 cs) \<le> ip_absolute_expiry p
       \<and> ses_account (run_cmds session_exec s0 cs) = ip_account p
       \<and> ses_generation (run_cmds session_exec s0 cs) = ip_generation p
       \<and> (\<forall>now ttl perms c. mint_access_token (run_cmds session_exec s0 cs) now ttl perms = Inr c \<longrightarrow>
            ses_status (run_cmds session_exec s0 cs) = SActive \<and> now < cl_expires_at c \<and>
            cl_expires_at c \<le> now + ttl \<and>
            cl_expires_at c \<le> ses_expires_at (run_cmds session_exec s0 cs) \<and>
            cl_expires_at c \<le> ip_absolute_expiry p \<and> cl_generation c = ip_generation p)
       \<and> (session_is_terminal (ses_status (run_cmds session_exec s0 cs)) \<longrightarrow>
            (\<forall>ds. run_cmds session_exec s0 (cs @ ds) = run_cmds session_exec s0 cs))"
proof -
  let ?s = "run_cmds session_exec s0 cs"
  have wf: "session_wf ?s" using ses.run_inv session_issue_wf issued by blast
  have "session_identity ?s = session_identity s0" by (rule ses_ident.run_inv) simp
  then have ident: "ses_account ?s = ip_account p" "ses_generation ?s = ip_generation p"
    "ses_absolute_expiry ?s = ip_absolute_expiry p"
    using issued by (auto simp: session_identity_def session_issue_def split: if_splits)
  have absorbed: "run_cmds session_exec s0 (cs @ ds) = ?s" if "session_is_terminal (ses_status ?s)" for ds
    using ses.run_final [OF wf that] by (simp add: run_cmds_append)
  show ?thesis
    using wf ident absorbed by (auto simp: session_wf_def dest!: mint_access_token_Inr)
qed

theorem session_lifetime_bounds_witness:
  "session_issue 11 sample_params = Inr sample_session \<and>
   ses_expires_at (run_cmds session_exec sample_session [Extend 1000 99999, Revoke 2000 Logout 3]) = 28800 \<and>
   ses_status (run_cmds session_exec sample_session [Extend 1000 99999, Revoke 2000 Logout 3]) = SRevoked \<and>
   (\<forall>ds. run_cmds session_exec sample_session ([Extend 1000 99999, Revoke 2000 Logout 3] @ ds) =
         run_cmds session_exec sample_session [Extend 1000 99999, Revoke 2000 Logout 3])"
proof -
  let ?s = "run_cmds session_exec sample_session [Extend 1000 99999, Revoke 2000 Logout 3]"
  have run: "ses_expires_at ?s = 28800" "ses_status ?s = SRevoked"
    by (simp_all add: session_cmd_defs session_is_expired_def sample_session_def)
  moreover have "session_is_terminal (ses_status ?s)" using run by (simp add: session_is_terminal_def)
  ultimately show ?thesis
    using session_lifetime_bounds [OF sample_issue, of "[Extend 1000 99999, Revoke 2000 Logout 3]"] sample_issue
    by blast
qed

end
