(* ===== verification/AuthFlows.thy ===== *)
theory AuthFlows
  imports AuthSession
begin

text \<open>
  The auth use cases over their stores (\<open>crates/services/auth/src/application\<close>, and the Postgres and
  Redis adapters under \<open>infrastructure\<close>): login, refresh with rotation and reuse detection, logout,
  global logout, introspection and session listing.

  Ports.  The identity provider, the account directory, the token minter and the UUID source are
  fields of \<open>auth_env\<close>, one environment per request; the event publisher may fail for any event.  The
  Postgres tables and the Redis keys are the state.  A table operation fails exactly on the unique
  constraints and the version checks of the SQL; lost connections are not modelled.  Application,
  database and cache clocks are taken to agree.
\<close>

section \<open>Policy, ports and stores\<close>

record session_policy =
  access_ttl :: int
  session_ttl :: int
  absolute_ttl :: int
  refresh_ttl :: int

datatype account_activation = AccActive | AccInactive string

record account_snapshot =
  activation :: account_activation
  acc_permissions :: "string list"

datatype authn_grant = AuthorizationCode string string string | Password string string

record generated_refresh =
  gen_plaintext :: string
  gen_hash :: string

record auth_env =
  env_policy :: session_policy
  authenticate :: "authn_grant \<Rightarrow> auth_error + string \<times> string"
  resolve_or_provision :: "idp_subject \<Rightarrow> auth_error + uuid"
  dir_lookup :: "uuid \<Rightarrow> auth_error + account_snapshot"
  mint_access :: "access_token_claims \<Rightarrow> auth_error + string"
  verify_access :: "string \<Rightarrow> auth_error + access_token_claims"
  generate_refresh :: "auth_error + generated_refresh"
  hash_refresh :: "string \<Rightarrow> auth_error + string"
  publish_fault :: "auth_event \<Rightarrow> auth_error option"
  fresh_session_id :: uuid
  fresh_token_id :: uuid
  parse_uuid :: "string \<Rightarrow> uuid option"
  uuid_str :: "uuid \<Rightarrow> string"

record auth_state =
  sessions :: "session list"
  refresh_tokens :: "refresh_token list"
  subject_links :: "subject_link list"
  generations :: "uuid \<Rightarrow> i64 option"
  blacklist :: "uuid \<Rightarrow> datetime option"
  published :: "auth_event list"

type_synonym 'a auth_step = "auth_state \<Rightarrow> (auth_error + 'a) \<times> auth_state"

section \<open>Postgres adapters\<close>

definition pg_find_session :: "auth_state \<Rightarrow> uuid \<Rightarrow> session option" where
  "pg_find_session db i = map_option session_reconstitute (find (\<lambda>r. ses_id r = i) (sessions db))"

definition pg_session_update :: "session \<Rightarrow> session \<Rightarrow> session" where
  "pg_session_update s r =
     (if ses_id r = ses_id s \<and> ses_version r = ses_version s - 1
      then r\<lparr>ses_status := ses_status s, ses_expires_at := ses_expires_at s,
             ses_revoked_at := ses_revoked_at s, ses_version := ses_version s\<rparr>
      else r)"

definition pg_session_save :: "session \<Rightarrow> auth_state \<Rightarrow> auth_error + auth_state" where
  "pg_session_save s db =
     (if ses_version s = 0 then
        (if ses_id s \<in> ses_id ` set (sessions db)
         then Inl (Storage (UniqueViolation ''sessions_pkey''))
         else Inr (db\<lparr>sessions := sessions db @ [session_reconstitute s]\<rparr>))
      else if \<exists>r \<in> set (sessions db). ses_id r = ses_id s \<and> ses_version r = ses_version s - 1
      then Inr (db\<lparr>sessions := map (pg_session_update s) (sessions db)\<rparr>)
      else Inl ConcurrentModification)"

definition pg_list_active_by_account :: "auth_state \<Rightarrow> uuid \<Rightarrow> session list" where
  "pg_list_active_by_account db a =
     map session_reconstitute
       (sort_key (\<lambda>r. - ses_issued_at r)
         (filter (\<lambda>r. ses_account r = a \<and> ses_status r = SActive) (sessions db)))"

definition pg_find_by_hash :: "auth_state \<Rightarrow> string \<Rightarrow> refresh_token option" where
  "pg_find_by_hash db h = find (\<lambda>r. tok_hash r = h) (refresh_tokens db)"

definition pg_token_update :: "refresh_token \<Rightarrow> refresh_token \<Rightarrow> refresh_token" where
  "pg_token_update t r =
     (if tok_id r = tok_id t \<and> tok_version r = tok_version t - 1
      then r\<lparr>tok_status := tok_status t, tok_used_at := tok_used_at t,
             tok_replaced_by := tok_replaced_by t, tok_version := tok_version t\<rparr>
      else r)"

definition pg_token_save :: "refresh_token \<Rightarrow> auth_state \<Rightarrow> auth_error + auth_state" where
  "pg_token_save t db =
     (if tok_version t = 0 then
        (if tok_id t \<in> tok_id ` set (refresh_tokens db)
         then Inl (Storage (UniqueViolation ''refresh_tokens_pkey''))
         else if tok_hash t \<in> tok_hash ` set (refresh_tokens db)
         then Inl (Storage (UniqueViolation ''uq_refresh_tokens_hash''))
         else Inr (db\<lparr>refresh_tokens := refresh_tokens db @ [t]\<rparr>))
      else if \<exists>r \<in> set (refresh_tokens db). tok_id r = tok_id t \<and> tok_version r = tok_version t - 1
      then Inr (db\<lparr>refresh_tokens := map (pg_token_update t) (refresh_tokens db)\<rparr>)
      else Inl ConcurrentModification)"

text \<open>The bulk update sets the status and \<open>used_at\<close>, not the version.\<close>

definition pg_revoke_all_for_session :: "datetime \<Rightarrow> uuid \<Rightarrow> auth_state \<Rightarrow> auth_state" where
  "pg_revoke_all_for_session now sid db =
     db\<lparr>refresh_tokens :=
          map (\<lambda>r. if tok_session r = sid \<and> tok_status r = TActive
                    then r\<lparr>tok_status := TRevoked, tok_used_at := Some now\<rparr> else r)
            (refresh_tokens db)\<rparr>"

definition pg_find_by_subject :: "auth_state \<Rightarrow> idp_subject \<Rightarrow> subject_link option" where
  "pg_find_by_subject db sub = find (\<lambda>r. lnk_subject r = sub) (subject_links db)"

definition pg_link_save :: "subject_link \<Rightarrow> auth_state \<Rightarrow> auth_error + auth_state" where
  "pg_link_save l db =
     (if lnk_subject l \<in> lnk_subject ` set (subject_links db)
      then Inl (SubjectAlreadyLinked (idp_issuer (lnk_subject l)) (idp_sub (lnk_subject l)))
      else Inr (db\<lparr>subject_links := subject_links db @ [l\<lparr>lnk_version := 0, lnk_pending := []\<rparr>]\<rparr>))"

section \<open>Redis adapter\<close>

definition current_generation :: "auth_state \<Rightarrow> uuid \<Rightarrow> i64" where
  "current_generation db a = (case generations db a of None \<Rightarrow> generation_initial | Some g \<Rightarrow> g)"

text \<open>\<open>INCR\<close> treats a missing key as 0 and refuses to leave the 64-bit range.\<close>

definition bump_generation :: "uuid \<Rightarrow> i64 auth_step" where
  "bump_generation a db =
     (let g = (case generations db a of None \<Rightarrow> 0 | Some g \<Rightarrow> g) + 1
      in if in_i64 g then (Inr g, db\<lparr>generations := (generations db)(a \<mapsto> g)\<rparr>)
         else (Inl (Cache (RdsUnknown ''ERR increment or decrement would overflow'')), db))"

definition blacklist_session :: "datetime \<Rightarrow> uuid \<Rightarrow> int \<Rightarrow> auth_state \<Rightarrow> auth_state" where
  "blacklist_session now sid ttl db =
     db\<lparr>blacklist := (blacklist db)(sid \<mapsto> now + max 1 (ttl div nanos_per_sec) * nanos_per_sec)\<rparr>"

definition is_blacklisted :: "auth_state \<Rightarrow> datetime \<Rightarrow> uuid \<Rightarrow> bool" where
  "is_blacklisted db now sid = (case blacklist db sid of None \<Rightarrow> False | Some e \<Rightarrow> now < e)"

definition publish :: "auth_env \<Rightarrow> auth_event \<Rightarrow> unit auth_step" where
  "publish env e db =
     (case publish_fault env e of
        Some err \<Rightarrow> (Inl err, db)
      | None \<Rightarrow> (Inr (), db\<lparr>published := published db @ [e]\<rparr>))"


section \<open>Commands and their validation\<close>

definition ensure_valid :: "field_violation list \<Rightarrow> auth_error + unit" where
  "ensure_valid vs = (if vs = [] then Inr () else Inl (Validation (ValidationError vs)))"

record refresh_command =
  rc_refresh_token :: string
  rc_device :: device_fingerprint

definition refresh_validate :: "refresh_command \<Rightarrow> field_violation list" where
  "refresh_validate c =
     (if is_blank (rc_refresh_token c)
      then [\<lparr>fv_field = ''refresh_token'', fv_code = ''AUT-VAL-010'',
             fv_message = ''refresh_token must not be empty''\<rparr>] else [])"

record login_command =
  lc_grant :: authn_grant
  lc_device :: device_fingerprint

definition login_validate :: "login_command \<Rightarrow> field_violation list" where
  "login_validate c =
     (case lc_grant c of
        AuthorizationCode code redirect_uri _ \<Rightarrow>
          (if is_blank code
           then [\<lparr>fv_field = ''code'', fv_code = ''AUT-VAL-001'', fv_message = ''code must not be empty''\<rparr>] else []) @
          (if is_blank redirect_uri
           then [\<lparr>fv_field = ''redirect_uri'', fv_code = ''AUT-VAL-002'',
                  fv_message = ''redirect_uri must not be empty''\<rparr>] else [])
      | Password username password \<Rightarrow>
          (if is_blank username
           then [\<lparr>fv_field = ''username'', fv_code = ''AUT-VAL-003'', fv_message = ''username must not be empty''\<rparr>] else []) @
          (if password = []
           then [\<lparr>fv_field = ''password'', fv_code = ''AUT-VAL-004'',
                  fv_message = ''password must not be empty''\<rparr>] else []))"

definition logout_validate :: "string \<Rightarrow> field_violation list" where
  "logout_validate sid =
     (if is_blank sid
      then [\<lparr>fv_field = ''session_id'', fv_code = ''AUT-VAL-020'', fv_message = ''session_id must not be empty''\<rparr>] else [])"

definition logout_all_validate :: "string \<Rightarrow> field_violation list" where
  "logout_all_validate aid =
     (if is_blank aid
      then [\<lparr>fv_field = ''account_id'', fv_code = ''AUT-VAL-021'', fv_message = ''account_id must not be empty''\<rparr>] else [])"

record issued_session =
  is_account :: uuid
  is_session :: uuid
  is_access_token :: string
  is_refresh_token :: string
  is_access_expires_in :: i64
  is_first_link :: bool

section \<open>Login\<close>

definition publish_all :: "auth_env \<Rightarrow> auth_event list \<Rightarrow> unit auth_step" where
  "publish_all env es = st_each (publish env) es"

definition gate_active :: "account_snapshot \<Rightarrow> auth_error + string list" where
  "gate_active snap =
     (case activation snap of
        AccActive \<Rightarrow> Inr (acc_permissions snap)
      | AccInactive reason \<Rightarrow> Inl (AccountNotActive reason))"

definition login_resolve :: "auth_env \<Rightarrow> idp_subject \<Rightarrow> (uuid \<times> bool) auth_step" where
  "login_resolve env sub =
     st_bind (st_read (\<lambda>db. pg_find_by_subject db sub)) (\<lambda>found.
       case found of
         Some l \<Rightarrow> st_lift (Inr (lnk_account l, False))
       | None \<Rightarrow> st_lift (bind_res (resolve_or_provision env sub) (\<lambda>a. Inr (a, True))))"

definition login_link :: "auth_env \<Rightarrow> idp_subject \<Rightarrow> uuid \<Rightarrow> uuid \<Rightarrow> datetime \<Rightarrow> unit auth_step" where
  "login_link env sub account corr now =
     (let link = link_establish sub account now corr in
      st_bind (st_try (pg_link_save link)) (\<lambda>_. publish_all env (fst (link_drain_events link))))"

definition login_issue ::
  "auth_env \<Rightarrow> idp_subject \<Rightarrow> uuid \<Rightarrow> device_fingerprint \<Rightarrow> string list \<Rightarrow> bool \<Rightarrow> uuid \<Rightarrow> datetime \<Rightarrow> issued_session auth_step" where
  "login_issue env sub account device perms first_link corr now =
     st_bind (st_read (\<lambda>db. current_generation db account)) (\<lambda>gen.
     st_bind (st_lift (session_issue (fresh_session_id env)
        \<lparr>ip_account = account, ip_subject = sub, ip_generation = gen, ip_device = device,
         ip_issued_at = now, ip_expires_at = now + session_ttl (env_policy env),
         ip_absolute_expiry = now + absolute_ttl (env_policy env), ip_correlation = corr\<rparr>)) (\<lambda>session.
     st_bind (st_try (pg_session_save session)) (\<lambda>_.
     st_bind (publish_all env (fst (session_drain_events session))) (\<lambda>_.
     st_bind (st_lift (generate_refresh env)) (\<lambda>generated.
     st_bind (st_lift (token_issue (fresh_token_id env)
        \<lparr>tp_session = ses_id session, tp_account = account, tp_hash = gen_hash generated,
         tp_issued_at = now, tp_expires_at = now + refresh_ttl (env_policy env)\<rparr>)) (\<lambda>refresh.
     st_bind (st_try (pg_token_save refresh)) (\<lambda>_.
     st_bind (st_lift (mint_access_token session now (access_ttl (env_policy env)) perms)) (\<lambda>claims.
     st_bind (st_lift (mint_access env claims)) (\<lambda>access_token.
     st_lift (Inr
        \<lparr>is_account = account, is_session = ses_id session, is_access_token = access_token,
         is_refresh_token = gen_plaintext generated, is_access_expires_in = expires_in_secs claims now,
         is_first_link = first_link\<rparr>))))))))))"

definition login_handle ::
  "auth_env \<Rightarrow> login_command \<Rightarrow> uuid \<Rightarrow> datetime \<Rightarrow> issued_session auth_step" where
  "login_handle env cmd corr now =
     st_bind (st_lift (ensure_valid (login_validate cmd))) (\<lambda>_.
     st_bind (st_lift (authenticate env (lc_grant cmd))) (\<lambda>claims.
     st_bind (st_lift (idp_subject_new (fst claims) (snd claims))) (\<lambda>sub.
     st_bind (login_resolve env sub) (\<lambda>(account, needs_link).
     st_bind (st_lift (dir_lookup env account)) (\<lambda>snap.
     st_bind (st_lift (gate_active snap)) (\<lambda>perms.
     st_bind (if needs_link then login_link env sub account corr now else st_lift (Inr ())) (\<lambda>_.
     login_issue env sub account (lc_device cmd) perms needs_link corr now)))))))"

section \<open>Refresh\<close>

definition revoke_generation :: "auth_env \<Rightarrow> datetime \<Rightarrow> uuid \<Rightarrow> uuid \<Rightarrow> uuid \<Rightarrow> unit auth_step" where
  "revoke_generation env now account sid corr =
     st_bind (bump_generation account) (\<lambda>_.
     st_bind (st_modify (pg_revoke_all_for_session now sid)) (\<lambda>_.
     st_bind (st_read (\<lambda>db. pg_find_session db sid)) (\<lambda>found.
     case found of
       None \<Rightarrow> st_lift (Inr ())
     | Some session \<Rightarrow>
         if ses_status session \<noteq> SActive then st_lift (Inr ())
         else
           st_bind (st_lift (session_revoke session now RefreshReuse corr)) (\<lambda>revoked.
           st_bind (st_try (pg_session_save revoked)) (\<lambda>_.
           st_bind (st_modify (blacklist_session now sid (access_ttl (env_policy env)))) (\<lambda>_.
           publish_all env (fst (session_drain_events revoked))))))))"

text \<open>Steps 3 to 5 of the handler: the checks between the rotation and the first write.\<close>

definition refresh_checks ::
  "auth_env \<Rightarrow> refresh_command \<Rightarrow> uuid \<Rightarrow> uuid \<Rightarrow> datetime \<Rightarrow> (session \<times> string list) auth_step" where
  "refresh_checks env cmd account sid now =
     st_bind (st_read (\<lambda>db. pg_find_session db sid)) (\<lambda>found.
     st_bind (st_lift (ok_or (SessionNotFound (uuid_str env sid)) found)) (\<lambda>session.
     st_bind (st_read (\<lambda>db. current_generation db account)) (\<lambda>gen.
     st_bind (st_lift (guard_res (is_valid_under session gen now) SessionRevoked)) (\<lambda>_.
     st_bind (st_lift (guard_res (same_device_as (ses_device session) (rc_device cmd))
        (DomainViolation ''device'' ''refresh device does not match the session's bound device''))) (\<lambda>_.
     st_bind (st_lift (dir_lookup env account)) (\<lambda>snap.
     st_bind (st_lift (gate_active snap)) (\<lambda>perms.
     st_lift (Inr (session, perms)))))))))"

text \<open>Step 6: persist the rotation, slide the window, mint.\<close>

definition refresh_commit ::
  "auth_env \<Rightarrow> refresh_token \<Rightarrow> refresh_token \<Rightarrow> string \<Rightarrow> session \<Rightarrow> string list \<Rightarrow> datetime \<Rightarrow> issued_session auth_step" where
  "refresh_commit env token successor plaintext session perms now =
     st_bind (st_try (pg_token_save token)) (\<lambda>_.
     st_bind (st_try (pg_token_save successor)) (\<lambda>_.
     st_bind (st_lift (session_extend session now (session_ttl (env_policy env)))) (\<lambda>extended.
     st_bind (st_try (pg_session_save extended)) (\<lambda>_.
     st_bind (st_lift (mint_access_token extended now (access_ttl (env_policy env)) perms)) (\<lambda>claims.
     st_bind (st_lift (mint_access env claims)) (\<lambda>access_token.
     st_lift (Inr
        \<lparr>is_account = tok_account token, is_session = tok_session token,
         is_access_token = access_token, is_refresh_token = plaintext,
         is_access_expires_in = expires_in_secs claims now, is_first_link = False\<rparr>)))))))"

definition refresh_handle ::
  "auth_env \<Rightarrow> refresh_command \<Rightarrow> uuid \<Rightarrow> datetime \<Rightarrow> issued_session auth_step" where
  "refresh_handle env cmd corr now =
     st_bind (st_lift (ensure_valid (refresh_validate cmd))) (\<lambda>_.
     st_bind (st_lift (hash_refresh env (rc_refresh_token cmd))) (\<lambda>hash.
     st_bind (st_read (\<lambda>db. pg_find_by_hash db hash)) (\<lambda>found.
     st_bind (st_lift (ok_or RefreshTokenNotFound found)) (\<lambda>token.
     st_bind (st_lift (generate_refresh env)) (\<lambda>generated.
     case token_rotate (fresh_token_id env) token now (gen_hash generated)
            (now + refresh_ttl (env_policy env)) of
       Inl err \<Rightarrow>
         if err = RefreshTokenReuseDetected
         then st_bind (revoke_generation env now (tok_account token) (tok_session token) corr) (\<lambda>_.
                st_lift (Inl RefreshTokenReuseDetected))
         else st_lift (Inl err)
     | Inr (rotated, successor) \<Rightarrow>
         st_bind (refresh_checks env cmd (tok_account token) (tok_session token) now) (\<lambda>(session, perms).
         refresh_commit env rotated successor (gen_plaintext generated) session perms now))))))"

section \<open>Logout and global logout\<close>

definition session_id_try_from :: "auth_env \<Rightarrow> string \<Rightarrow> auth_error + uuid" where
  "session_id_try_from env s = ok_or (InvalidSessionId s) (parse_uuid env s)"

definition account_id_try_from :: "auth_env \<Rightarrow> string \<Rightarrow> auth_error + uuid" where
  "account_id_try_from env s = ok_or (InvalidAccountId s) (parse_uuid env s)"

definition revoke_and_kill :: "auth_env \<Rightarrow> datetime \<Rightarrow> revocation_reason \<Rightarrow> uuid \<Rightarrow> session \<Rightarrow> unit auth_step" where
  "revoke_and_kill env now reason corr session =
     st_bind (st_lift (session_revoke session now reason corr)) (\<lambda>revoked.
     st_bind (st_try (pg_session_save revoked)) (\<lambda>_.
     st_bind (st_modify (blacklist_session now (ses_id session) (access_ttl (env_policy env)))) (\<lambda>_.
     st_bind (st_modify (pg_revoke_all_for_session now (ses_id session))) (\<lambda>_.
     publish_all env (fst (session_drain_events revoked))))))"

definition logout_handle :: "auth_env \<Rightarrow> string \<Rightarrow> uuid \<Rightarrow> datetime \<Rightarrow> bool auth_step" where
  "logout_handle env raw_id corr now =
     st_bind (st_lift (ensure_valid (logout_validate raw_id))) (\<lambda>_.
     st_bind (st_lift (session_id_try_from env raw_id)) (\<lambda>sid.
     st_bind (st_read (\<lambda>db. pg_find_session db sid)) (\<lambda>found.
     st_bind (st_lift (ok_or (SessionNotFound (uuid_str env sid)) found)) (\<lambda>session.
     if ses_status session \<noteq> SActive then st_lift (Inr True)
     else st_bind (revoke_and_kill env now Logout corr session) (\<lambda>_. st_lift (Inr True))))))"

record logout_all_outcome =
  lo_generation :: i64
  lo_sessions_revoked :: nat

primrec logout_all_loop :: "auth_env \<Rightarrow> datetime \<Rightarrow> uuid \<Rightarrow> session list \<Rightarrow> nat \<Rightarrow> nat auth_step" where
  "logout_all_loop env now corr [] revoked = st_lift (Inr revoked)"
| "logout_all_loop env now corr (s # ss) revoked =
     (if ses_status s \<noteq> SActive then logout_all_loop env now corr ss revoked
      else st_bind (revoke_and_kill env now GlobalLogout corr s) (\<lambda>_.
           logout_all_loop env now corr ss (Suc revoked)))"

definition logout_all_handle :: "auth_env \<Rightarrow> string \<Rightarrow> uuid \<Rightarrow> datetime \<Rightarrow> logout_all_outcome auth_step" where
  "logout_all_handle env raw_id corr now =
     st_bind (st_lift (ensure_valid (logout_all_validate raw_id))) (\<lambda>_.
     st_bind (st_lift (account_id_try_from env raw_id)) (\<lambda>account.
     st_bind (bump_generation account) (\<lambda>gen.
     st_bind (st_read (\<lambda>db. pg_list_active_by_account db account)) (\<lambda>active.
     st_bind (logout_all_loop env now corr active 0) (\<lambda>revoked.
     st_lift (Inr \<lparr>lo_generation = gen, lo_sessions_revoked = revoked\<rparr>))))))"

section \<open>Queries\<close>

record introspection_view =
  iv_active :: bool
  iv_account :: "string option"
  iv_session :: "string option"
  iv_generation :: i64
  iv_permissions :: "string list"
  iv_expires_at :: "datetime option"

definition iv_inactive :: introspection_view where
  "iv_inactive =
     \<lparr>iv_active = False, iv_account = None, iv_session = None, iv_generation = 0,
      iv_permissions = [], iv_expires_at = None\<rparr>"

text \<open>
  \<open>gf\<close> and \<open>bf\<close> are the errors of the two cache reads, which the handler passes on; a token that does
  not verify is answered as inactive.
\<close>

definition introspect ::
  "auth_env \<Rightarrow> auth_error option \<Rightarrow> auth_error option \<Rightarrow> auth_state \<Rightarrow> string \<Rightarrow> datetime
   \<Rightarrow> auth_error + introspection_view" where
  "introspect env gf bf db token now =
     (case verify_access env token of
        Inl _ \<Rightarrow> Inr iv_inactive
      | Inr claims \<Rightarrow>
          if cl_expires_at claims \<le> now then Inr iv_inactive
          else case gf of Some err \<Rightarrow> Inl err | None \<Rightarrow>
          if cl_generation claims \<noteq> current_generation db (cl_account claims) then Inr iv_inactive
          else case bf of Some err \<Rightarrow> Inl err | None \<Rightarrow>
          if is_blacklisted db now (cl_session claims) then Inr iv_inactive
          else Inr \<lparr>iv_active = True, iv_account = Some (uuid_str env (cl_account claims)),
                    iv_session = Some (uuid_str env (cl_session claims)),
                    iv_generation = cl_generation claims, iv_permissions = cl_permissions claims,
                    iv_expires_at = Some (cl_expires_at claims)\<rparr>)"

text \<open>The answer that lets a token pass; an error does not.\<close>

definition says_active :: "auth_error + introspection_view \<Rightarrow> bool" where
  "says_active ans = (case ans of Inr v \<Rightarrow> iv_active v | Inl _ \<Rightarrow> False)"

record session_summary =
  sum_session_id :: string
  sum_status :: session_status
  sum_generation :: i64
  sum_issued_at :: datetime
  sum_expires_at :: datetime
  sum_absolute_expiry :: datetime
  sum_current :: bool

definition list_sessions ::
  "auth_env \<Rightarrow> auth_state \<Rightarrow> string \<Rightarrow> string option \<Rightarrow> auth_error + session_summary list" where
  "list_sessions env db raw_id current =
     bind_res (account_id_try_from env raw_id) (\<lambda>account.
       Inr (map (\<lambda>s. \<lparr>sum_session_id = uuid_str env (ses_id s), sum_status = ses_status s,
                       sum_generation = ses_generation s, sum_issued_at = ses_issued_at s,
                       sum_expires_at = ses_expires_at s, sum_absolute_expiry = ses_absolute_expiry s,
                       sum_current = (current = Some (uuid_str env (ses_id s)))\<rparr>)
              (pg_list_active_by_account db account)))"


section \<open>Invariants of the stores\<close>

text \<open>
  The contract between the stores and the handlers: an invariant \<open>I\<close> that every table and cache
  operation keeps, where a session row or a blacklist entry is only written for an identifier that
  is \<open>live\<close> and a token row for one that is \<open>tok_live\<close>, and every active row is.  Each handler then
  keeps \<open>I\<close>, whatever it answers.
\<close>

lemma token_rotate_Inr:
  "token_rotate fresh t now h e = Inr (r, u) \<Longrightarrow>
     tok_status t = TActive \<and> now < tok_expires_at t \<and> tok_id r = tok_id t \<and> tok_hash r = tok_hash t \<and>
     tok_session r = tok_session t \<and> tok_account r = tok_account t \<and> tok_status r = TRotated \<and>
     tok_version r = tok_version t + 1 \<and> tok_version u = 0 \<and> tok_status u = TActive \<and> tok_hash u = h \<and>
     tok_id u = fresh \<and> tok_session u = tok_session t \<and> tok_account u = tok_account t"
  by (auto simp: token_rotate_def token_issue_def token_touch_def token_is_expired_def bind_res_Inr_iff not_le
           split: refresh_token_status.splits if_splits)

locale auth_invariant =
  fixes I :: "auth_state \<Rightarrow> bool"
    and live :: "uuid \<Rightarrow> bool"
    and tok_live :: "uuid \<Rightarrow> bool"
  assumes published_inv: "I db \<Longrightarrow> I (db\<lparr>published := es\<rparr>)"
    and bump_inv: "I db \<Longrightarrow> bump_generation a db = (ans, db') \<Longrightarrow> I db'"
    and link_inv: "I db \<Longrightarrow> pg_link_save l db = Inr db' \<Longrightarrow> I db'"
    and token_insert_inv: "I db \<Longrightarrow> tok_version t = 0 \<Longrightarrow> pg_token_save t db = Inr db' \<Longrightarrow> I db'"
    and token_save_inv: "I db \<Longrightarrow> tok_live (tok_id t) \<Longrightarrow> pg_token_save t db = Inr db' \<Longrightarrow> I db'"
    and token_live: "I db \<Longrightarrow> k \<in> set (refresh_tokens db) \<Longrightarrow> tok_status k = TActive \<Longrightarrow> tok_live (tok_id k)"
    and revoke_all_inv: "I db \<Longrightarrow> I (pg_revoke_all_for_session now i db)"
    and insert_inv: "I db \<Longrightarrow> ses_version s = 0 \<Longrightarrow> pg_session_save s db = Inr db' \<Longrightarrow> I db'"
    and save_inv: "I db \<Longrightarrow> live (ses_id s) \<Longrightarrow> pg_session_save s db = Inr db' \<Longrightarrow> I db'"
    and blacklist_inv: "I db \<Longrightarrow> live i \<Longrightarrow> I (blacklist_session now i ttl db)"
    and active_live: "I db \<Longrightarrow> r \<in> set (sessions db) \<Longrightarrow> ses_status r = SActive \<Longrightarrow> live (ses_id r)"
begin

lemma keeps_publish_all: "st_keeps I (publish_all env es)"
  unfolding publish_all_def
  by (rule st_keeps_each) (auto simp: st_hoare_def publish_def published_inv split: option.splits)

lemma keeps_bump: "st_keeps I (bump_generation a)"
  by (auto simp: st_hoare_def intro: bump_inv split: sum.splits prod.splits)

lemma keeps_token_save: "tok_live (tok_id t) \<Longrightarrow> st_keeps I (st_try (pg_token_save t))"
  by (rule st_hoare_try) (auto intro: token_save_inv)

lemma keeps_token_insert: "tok_version t = 0 \<Longrightarrow> st_keeps I (st_try (pg_token_save t))"
  by (rule st_hoare_try) (auto intro: token_insert_inv)

lemma keeps_revoke_all: "st_keeps I (st_modify (pg_revoke_all_for_session now i))"
  by (rule st_hoare_modify) (rule revoke_all_inv)

lemma keeps_save: "live (ses_id s) \<Longrightarrow> st_keeps I (st_try (pg_session_save s))"
  by (rule st_hoare_try) (auto intro: save_inv)

lemma keeps_insert: "ses_version s = 0 \<Longrightarrow> st_keeps I (st_try (pg_session_save s))"
  by (rule st_hoare_try) (auto intro: insert_inv)

lemma keeps_blacklist: "live i \<Longrightarrow> st_keeps I (st_modify (blacklist_session now i ttl))"
  by (rule st_hoare_modify) (rule blacklist_inv)

lemma keeps_lift: "st_keeps I (st_lift r)"
  by (rule st_hoare_lift)

lemma found_live:
  assumes "I db" "pg_find_session db i = Some s" "ses_status s = SActive"
  shows "live (ses_id s)" and "ses_id s = i"
proof -
  obtain r where "find (\<lambda>r. ses_id r = i) (sessions db) = Some r" "s = session_reconstitute r"
    using assms(2) by (auto simp: pg_find_session_def)
  then have "r \<in> set (sessions db)" "ses_id s = ses_id r" "ses_status s = ses_status r" "ses_id r = i"
    by (auto simp: find_Some_iff session_reconstitute_def)
  then show "live (ses_id s)" "ses_id s = i" using active_live [of db r] assms by simp_all
qed

lemma listed_live: "I db \<Longrightarrow> s \<in> set (pg_list_active_by_account db a) \<Longrightarrow> live (ses_id s)"
  by (auto simp: pg_list_active_by_account_def session_reconstitute_def dest: active_live)

lemmas keeps_basic = keeps_publish_all keeps_bump keeps_revoke_all keeps_save
  keeps_blacklist

lemmas keeps_bind = keeps_basic [THEN st_keeps_bind] st_hoare_bind_lift

lemma session_revoke_id: "session_revoke s now r c = Inr s' \<Longrightarrow> ses_id s' = ses_id s"
  by (auto simp: session_cmd_defs split: if_splits)

lemma session_extend_id: "session_extend s now ttl = Inr s' \<Longrightarrow> ses_id s' = ses_id s"
  by (auto simp: session_cmd_defs split: if_splits)

lemma keeps_revoke_and_kill: "live (ses_id s) \<Longrightarrow> st_keeps I (revoke_and_kill env now reason corr s)"
  unfolding revoke_and_kill_def
  by (rule st_hoare_bind_lift) (auto intro!: keeps_bind keeps_basic simp: session_revoke_id)

lemma keeps_logout_all_loop:
  "\<forall>s \<in> set ss. live (ses_id s) \<Longrightarrow> st_keeps I (logout_all_loop env now corr ss n)"
  by (induction ss arbitrary: n) (auto intro!: keeps_lift keeps_revoke_and_kill [THEN st_keeps_bind])

lemma keeps_logout_all_tail:
  "st_keeps I (st_bind (st_read (\<lambda>db. pg_list_active_by_account db account)) (\<lambda>active.
     st_bind (logout_all_loop env now corr active 0) (\<lambda>revoked.
     st_lift (Inr \<lparr>lo_generation = gen, lo_sessions_revoked = revoked\<rparr>))))"
  by (intro keeps_lift st_keeps_bind_read [where C = "\<lambda>ss. \<forall>s \<in> set ss. live (ses_id s)"]
        keeps_logout_all_loop [THEN st_keeps_bind])
     (auto intro: listed_live)

lemma keeps_logout_all: "st_keeps I (logout_all_handle env raw corr now)"
  unfolding logout_all_handle_def
  by (intro keeps_bind keeps_logout_all_tail) simp_all

lemma keeps_logout: "st_keeps I (logout_handle env raw corr now)"
  unfolding logout_handle_def
  by (intro keeps_bind
        st_keeps_bind_read [where C = "\<lambda>f. \<forall>s. f = Some s \<longrightarrow> ses_status s = SActive \<longrightarrow> live (ses_id s)"])
     (auto intro!: keeps_lift keeps_revoke_and_kill [THEN st_keeps_bind] intro: found_live
           simp: ok_or_def split: option.splits)

lemma keeps_revoke_generation: "st_keeps I (revoke_generation env now a sid corr)"
  unfolding revoke_generation_def
proof (intro keeps_bind
         st_keeps_bind_read [where C = "\<lambda>f. \<forall>s. f = Some s \<longrightarrow> ses_status s = SActive \<longrightarrow> live (ses_id s) \<and> ses_id s = sid"])
  fix found :: "session option"
  assume "\<forall>s. found = Some s \<longrightarrow> ses_status s = SActive \<longrightarrow> live (ses_id s) \<and> ses_id s = sid"
  then show "st_keeps I (case found of
       None \<Rightarrow> st_lift (Inr ())
     | Some session \<Rightarrow>
         if ses_status session \<noteq> SActive then st_lift (Inr ())
         else
           st_bind (st_lift (session_revoke session now RefreshReuse corr)) (\<lambda>revoked.
           st_bind (st_try (pg_session_save revoked)) (\<lambda>_.
           st_bind (st_modify (blacklist_session now sid (access_ttl (env_policy env)))) (\<lambda>_.
           publish_all env (fst (session_drain_events revoked))))))"
    by (cases found) (auto intro!: keeps_bind keeps_basic keeps_lift simp: session_revoke_id)
qed (auto dest: found_live)

lemma keeps_refresh_checks:
  "st_hoare I (refresh_checks env cmd a sid now) (\<lambda>(s, perms) db. I db \<and> live (ses_id s)) I"
  unfolding refresh_checks_def
  by (auto simp: st_hoare_def st_bind_def st_lift_def st_read_def is_valid_under_def guard_res_def ok_or_def
           intro: found_live split: sum.splits option.splits)

lemma keeps_refresh_commit:
  "live (ses_id s) \<Longrightarrow> tok_live (tok_id t) \<Longrightarrow> tok_version u = 0 \<Longrightarrow>
   st_keeps I (refresh_commit env t u p s perms now)"
  unfolding refresh_commit_def
  by (rule keeps_token_save [THEN st_keeps_bind], simp, rule keeps_token_insert [THEN st_keeps_bind])
     (auto intro!: keeps_bind keeps_lift simp: session_extend_id)

lemma keeps_refresh: "st_keeps I (refresh_handle env cmd corr now)"
  unfolding refresh_handle_def
proof (intro keeps_bind
         st_keeps_bind_read [where C = "\<lambda>f. \<forall>t. f = Some t \<longrightarrow> tok_status t = TActive \<longrightarrow> tok_live (tok_id t)"])
  fix db h
  assume "I db"
  then show "\<forall>t. pg_find_by_hash db h = Some t \<longrightarrow> tok_status t = TActive \<longrightarrow> tok_live (tok_id t)"
    using token_live by (auto simp: pg_find_by_hash_def find_Some_iff)
next
  fix found and token :: refresh_token and generated :: generated_refresh
  assume "\<forall>t. found = Some t \<longrightarrow> tok_status t = TActive \<longrightarrow> tok_live (tok_id t)"
    and "ok_or RefreshTokenNotFound found = Inr token"
  then have tok_live: "tok_status token = TActive \<Longrightarrow> tok_live (tok_id token)"
    by (auto simp: ok_or_def split: option.splits)
  have commit: "st_keeps I (st_bind (refresh_checks env cmd (tok_account token) (tok_session token) now)
        (\<lambda>(session, perms). refresh_commit env r u (gen_plaintext generated) session perms now))" if "tok_live (tok_id r)" "tok_version u = 0" for r u
  proof (rule st_hoare_bind [OF keeps_refresh_checks])
    fix x :: "session \<times> string list"
    show "st_hoare (case x of (s, perms) \<Rightarrow> \<lambda>db. I db \<and> live (ses_id s))
        (case x of (session, perms) \<Rightarrow> refresh_commit env r u (gen_plaintext generated) session perms now)
        (\<lambda>_. I) I"
    proof (cases x)
      case (Pair session perms)
      have "st_keeps I (refresh_commit env r u (gen_plaintext generated) session perms now)"
        if "live (ses_id session)" using that \<open>tok_live (tok_id r)\<close> \<open>tok_version u = 0\<close>
        by (rule keeps_refresh_commit)
      then show ?thesis unfolding Pair by (auto simp: st_hoare_def)
    qed
  qed
  show "st_keeps I (case token_rotate (fresh_token_id env) token now (gen_hash generated)
            (now + refresh_ttl (env_policy env)) of
       Inl err \<Rightarrow>
         if err = RefreshTokenReuseDetected
         then st_bind (revoke_generation env now (tok_account token) (tok_session token) corr) (\<lambda>_.
                st_lift (Inl RefreshTokenReuseDetected))
         else st_lift (Inl err)
     | Inr (rotated, successor) \<Rightarrow>
         st_bind (refresh_checks env cmd (tok_account token) (tok_session token) now) (\<lambda>(session, perms).
         refresh_commit env rotated successor (gen_plaintext generated) session perms now))"
    by (auto intro!: keeps_lift commit keeps_revoke_generation [THEN st_keeps_bind]
             simp: tok_live dest!: token_rotate_Inr split: sum.splits prod.splits)
qed simp_all

lemma keeps_login: "st_keeps I (login_handle env cmd corr now)"
proof -
  have fresh: "session_issue i p = Inr s \<Longrightarrow> ses_version s = 0" for i p s
    by (auto simp: session_issue_def split: if_splits)
  have token_fresh: "token_issue i q = Inr t \<Longrightarrow> tok_version t = 0" for i q t
    by (auto simp: token_issue_def split: if_splits)
  have issue: "st_keeps I (login_issue env sub a dev perms fl corr now)" for sub a dev perms fl
    unfolding login_issue_def
    by (intro st_keeps_bind_read [where C = "\<lambda>_. True"] st_hoare_bind_lift keeps_lift
          keeps_insert [THEN st_keeps_bind] keeps_publish_all [THEN st_keeps_bind]
          keeps_token_insert [THEN st_keeps_bind]) (simp_all add: fresh token_fresh)
  have link: "st_keeps I (login_link env sub a corr now)" for sub a
    unfolding login_link_def Let_def
    by (intro st_keeps_bind st_hoare_try keeps_publish_all) (simp_all add: link_inv)
  have resolve: "st_keeps I (login_resolve env sub)" for sub
    unfolding login_resolve_def
    by (rule st_keeps_bind_read [where C = "\<lambda>_. True"]) (simp_all add: keeps_lift split: option.splits)
  show ?thesis
    unfolding login_handle_def
    by (intro st_hoare_bind_lift resolve [THEN st_keeps_bind])
       (auto simp: case_prod_beta intro!: st_hoare_bind_lift link [THEN st_keeps_bind] issue)
qed

end


text \<open>Any number of requests, each with its own environment, clock and correlation id.\<close>

inductive auth_reach :: "auth_state \<Rightarrow> auth_state \<Rightarrow> bool" where
  reach_refl: "auth_reach db db"
| reach_login: "auth_reach db db1 \<Longrightarrow> login_handle env cmd corr now db1 = (r, db2) \<Longrightarrow> auth_reach db db2"
| reach_refresh: "auth_reach db db1 \<Longrightarrow> refresh_handle env rcmd corr now db1 = (r, db2) \<Longrightarrow> auth_reach db db2"
| reach_logout: "auth_reach db db1 \<Longrightarrow> logout_handle env raw corr now db1 = (lr, db2) \<Longrightarrow> auth_reach db db2"
| reach_logout_all: "auth_reach db db1 \<Longrightarrow> logout_all_handle env raw corr now db1 = (ar, db2) \<Longrightarrow> auth_reach db db2"

context auth_invariant
begin

lemma reach_inv: "auth_reach db db' \<Longrightarrow> I db \<Longrightarrow> I db'"
proof (induction rule: auth_reach.induct)
  case reach_login
  then show ?case using st_keepsD [OF keeps_login] by blast
next
  case reach_refresh
  then show ?case using st_keepsD [OF keeps_refresh] by blast
next
  case reach_logout
  then show ?case using st_keepsD [OF keeps_logout] by blast
next
  case reach_logout_all
  then show ?case using st_keepsD [OF keeps_logout_all] by blast
qed

end

text \<open>First instance: the primary keys and the unique hash of the tables.\<close>

definition auth_keys :: "auth_state \<Rightarrow> bool" where
  "auth_keys db \<longleftrightarrow>
     distinct (map ses_id (sessions db)) \<and> distinct (map tok_id (refresh_tokens db)) \<and>
     distinct (map tok_hash (refresh_tokens db)) \<and> distinct (map lnk_subject (subject_links db))"

lemma pg_session_update_key [simp]: "ses_id (pg_session_update s r) = ses_id r"
  by (simp add: pg_session_update_def)

lemma pg_token_update_keys [simp]:
  "tok_id (pg_token_update t r) = tok_id r" "tok_hash (pg_token_update t r) = tok_hash r"
  "tok_session (pg_token_update t r) = tok_session r" "tok_account (pg_token_update t r) = tok_account r"
  by (simp_all add: pg_token_update_def)

lemma session_reconstitute_fields [simp]:
  "ses_id (session_reconstitute s) = ses_id s" "ses_status (session_reconstitute s) = ses_status s"
  "ses_version (session_reconstitute s) = ses_version s"
  "ses_generation (session_reconstitute s) = ses_generation s"
  "ses_account (session_reconstitute s) = ses_account s"
  by (simp_all add: session_reconstitute_def)

lemmas store_defs = pg_session_save_def pg_token_save_def pg_link_save_def pg_revoke_all_for_session_def
  bump_generation_def blacklist_session_def

interpretation keys: auth_invariant auth_keys "\<lambda>_. True" "\<lambda>_. True"
  by unfold_locales
     (auto simp: auth_keys_def store_defs Let_def comp_def if_distrib [of tok_id] if_distrib [of tok_hash]
           cong: if_cong split: if_splits)

text \<open>Second instance: the generation of an account never falls.\<close>

definition gen_floor :: "uuid \<Rightarrow> i64 \<Rightarrow> auth_state \<Rightarrow> bool" where
  "gen_floor a g db \<longleftrightarrow> g \<le> current_generation db a"

lemma current_generation_frame:
  "generations db' = generations db \<Longrightarrow> current_generation db' a = current_generation db a"
  by (simp add: current_generation_def)

lemma bump_generation_ok:
  "in_i64 (current_generation db a + 1) \<Longrightarrow>
   bump_generation a db = (Inr (current_generation db a + 1),
     db\<lparr>generations := (generations db)(a \<mapsto> current_generation db a + 1)\<rparr>)"
  by (auto simp: bump_generation_def current_generation_def generation_initial_def Let_def split: option.splits)

interpretation gen: auth_invariant "gen_floor a g" "\<lambda>_. True" "\<lambda>_. True" for a g
  by unfold_locales
     (auto simp: gen_floor_def store_defs current_generation_def generation_initial_def Let_def
           split: if_splits option.splits)


text \<open>Third instance: a session that has ended stays ended, and its blacklist entry stays.\<close>

definition ended :: "uuid \<Rightarrow> datetime \<Rightarrow> auth_state \<Rightarrow> bool" where
  "ended i e db \<longleftrightarrow>
     distinct (map ses_id (sessions db)) \<and>
     (\<exists>r \<in> set (sessions db). ses_id r = i \<and> ses_status r \<noteq> SActive) \<and>
     (\<exists>b. blacklist db i = Some b \<and> e \<le> b)"

lemma pg_session_update_other: "ses_id r \<noteq> ses_id s \<Longrightarrow> pg_session_update s r = r"
  by (simp add: pg_session_update_def)

lemma ended_save:
  assumes "ended i e db" "ses_id s \<noteq> i \<or> ses_version s = 0" "pg_session_save s db = Inr db'"
  shows "ended i e db'"
proof -
  obtain r where r: "r \<in> set (sessions db)" "ses_id r = i" "ses_status r \<noteq> SActive"
    using assms(1) by (auto simp: ended_def)
  consider "sessions db' = sessions db @ [session_reconstitute s]" "ses_id s \<notin> ses_id ` set (sessions db)"
    | "sessions db' = map (pg_session_update s) (sessions db)" "ses_id s \<noteq> i"
    using assms(2,3) by (auto simp: pg_session_save_def split: if_splits)
  then show ?thesis
  proof cases
    case 1
    then show ?thesis using assms r by (auto simp: ended_def pg_session_save_def split: if_splits)
  next
    case 2
    then have "r \<in> set (sessions db')" using r by (force simp: pg_session_update_other)
    then show ?thesis using assms r 2
      by (auto simp: ended_def pg_session_save_def comp_def split: if_splits)
  qed
qed

interpretation over: auth_invariant "ended i e" "\<lambda>j. j \<noteq> i" "\<lambda>_. True" for i e
proof unfold_locales
  fix db db' and s
  show "ended i e db \<Longrightarrow> ses_version s = 0 \<Longrightarrow> pg_session_save s db = Inr db' \<Longrightarrow> ended i e db'"
    by (rule ended_save) simp_all
  show "ended i e db \<Longrightarrow> ses_id s \<noteq> i \<Longrightarrow> pg_session_save s db = Inr db' \<Longrightarrow> ended i e db'"
    by (rule ended_save) simp_all
  show "ended i e db \<Longrightarrow> s \<in> set (sessions db) \<Longrightarrow> ses_status s = SActive \<Longrightarrow> ses_id s \<noteq> i"
    by (auto simp: ended_def distinct_map dest: inj_onD)
qed (auto simp: ended_def store_defs Let_def split: if_splits)

text \<open>Fourth instance: a rotated token stays rotated.\<close>

definition spent :: "uuid \<Rightarrow> string \<Rightarrow> uuid \<Rightarrow> uuid \<Rightarrow> auth_state \<Rightarrow> bool" where
  "spent k h a i db \<longleftrightarrow>
     distinct (map tok_id (refresh_tokens db)) \<and> distinct (map tok_hash (refresh_tokens db)) \<and>
     (\<exists>t \<in> set (refresh_tokens db). tok_id t = k \<and> tok_hash t = h \<and> tok_account t = a \<and>
        tok_session t = i \<and> tok_status t = TRotated)"

lemma pg_token_update_other: "tok_id r \<noteq> tok_id t \<Longrightarrow> pg_token_update t r = r"
  by (simp add: pg_token_update_def)

lemma spent_save:
  assumes "spent k h a i db" "tok_id t \<noteq> k \<or> tok_version t = 0" "pg_token_save t db = Inr db'"
  shows "spent k h a i db'"
proof -
  obtain r where r: "r \<in> set (refresh_tokens db)" "tok_id r = k" "tok_hash r = h" "tok_account r = a"
      "tok_session r = i" "tok_status r = TRotated"
    using assms(1) by (auto simp: spent_def)
  consider "refresh_tokens db' = refresh_tokens db @ [t]" "tok_id t \<notin> tok_id ` set (refresh_tokens db)"
      "tok_hash t \<notin> tok_hash ` set (refresh_tokens db)"
    | "refresh_tokens db' = map (pg_token_update t) (refresh_tokens db)" "tok_id t \<noteq> k"
    using assms(2,3) by (auto simp: pg_token_save_def split: if_splits)
  then show ?thesis
  proof cases
    case 1
    then show ?thesis using assms r by (auto simp: spent_def)
  next
    case 2
    then have "r \<in> set (refresh_tokens db')" using r by (force simp: pg_token_update_other)
    then show ?thesis using assms r 2 by (auto simp: spent_def comp_def)
  qed
qed

interpretation used: auth_invariant "spent k h a i" "\<lambda>_. True" "\<lambda>j. j \<noteq> k" for k h a i
proof unfold_locales
  fix db db' and t
  show "spent k h a i db \<Longrightarrow> tok_version t = 0 \<Longrightarrow> pg_token_save t db = Inr db' \<Longrightarrow> spent k h a i db'"
    by (rule spent_save) simp_all
  show "spent k h a i db \<Longrightarrow> tok_id t \<noteq> k \<Longrightarrow> pg_token_save t db = Inr db' \<Longrightarrow> spent k h a i db'"
    by (rule spent_save) simp_all
  show "spent k h a i db \<Longrightarrow> t \<in> set (refresh_tokens db) \<Longrightarrow> tok_status t = TActive \<Longrightarrow> tok_id t \<noteq> k"
    by (auto simp: spent_def distinct_map dest: inj_onD)
next
  fix db now j
  assume sp: "spent k h a i db"
  show "spent k h a i (pg_revoke_all_for_session now j db)"
    using sp by (force simp: spent_def pg_revoke_all_for_session_def comp_def if_distrib [of tok_id]
        if_distrib [of tok_hash] cong: if_cong)
qed (auto simp: spent_def store_defs Let_def split: if_splits)

end
