(* ===== verification/AuthSafety.thy ===== *)
theory AuthSafety
  imports AuthFlows
begin

text \<open>
  What the auth use cases guarantee across requests: rotation is single use and a replay revokes the
  generation, logout and global logout are final, and what a refresh does at the absolute cap of a
  session.
\<close>

section \<open>A successful refresh\<close>

lemma ok_or_Inr_iff: "ok_or e x = Inr y \<longleftrightarrow> x = Some y"
  by (cases x) auto

lemma gate_active_Inr_iff:
  "gate_active snap = Inr p \<longleftrightarrow> activation snap = AccActive \<and> p = acc_permissions snap"
  by (cases "activation snap") (auto simp: gate_active_def)

lemma refresh_checks_Inr:
  "refresh_checks env cmd a i now db = (Inr (s, perms), db') \<Longrightarrow>
     db' = db \<and> pg_find_session db i = Some s \<and> is_valid_under s (current_generation db a) now \<and>
     same_device_as (ses_device s) (rc_device cmd) \<and>
     (\<exists>snap. dir_lookup env a = Inr snap \<and> activation snap = AccActive \<and> perms = acc_permissions snap)"
  unfolding refresh_checks_def
  by (auto simp: st_Inr_iffs ok_or_Inr_iff gate_active_Inr_iff)

lemma refresh_handle_Inr:
  assumes "refresh_handle env cmd corr now db = (Inr x, db')"
  obtains h t g r u s perms where
    "hash_refresh env (rc_refresh_token cmd) = Inr h" "pg_find_by_hash db h = Some t"
    "generate_refresh env = Inr g"
    "token_rotate (fresh_token_id env) t now (gen_hash g) (now + refresh_ttl (env_policy env)) = Inr (r, u)"
    "refresh_checks env cmd (tok_account t) (tok_session t) now db = (Inr (s, perms), db)"
    "refresh_commit env r u (gen_plaintext g) s perms now db = (Inr x, db')"
proof -
  obtain h t g where htg: "hash_refresh env (rc_refresh_token cmd) = Inr h" "pg_find_by_hash db h = Some t"
      "generate_refresh env = Inr g"
    and tail: "(case token_rotate (fresh_token_id env) t now (gen_hash g) (now + refresh_ttl (env_policy env)) of
       Inl err \<Rightarrow>
         if err = RefreshTokenReuseDetected
         then st_bind (revoke_generation env now (tok_account t) (tok_session t) corr) (\<lambda>_.
                st_lift (Inl RefreshTokenReuseDetected))
         else st_lift (Inl err)
     | Inr (rotated, successor) \<Rightarrow>
         st_bind (refresh_checks env cmd (tok_account t) (tok_session t) now) (\<lambda>(session, perms).
         refresh_commit env rotated successor (gen_plaintext g) session perms now)) db = (Inr x, db')"
    using assms unfolding refresh_handle_def st_bind_Inr_iff st_step_Inr_iff ok_or_Inr_iff by blast
  then obtain r u where ru:
      "token_rotate (fresh_token_id env) t now (gen_hash g) (now + refresh_ttl (env_policy env)) = Inr (r, u)"
    by (cases "token_rotate (fresh_token_id env) t now (gen_hash g) (now + refresh_ttl (env_policy env))")
       (auto simp: st_Inr_iffs split: if_splits)
  then obtain s perms db1 where
      "refresh_checks env cmd (tok_account t) (tok_session t) now db = (Inr (s, perms), db1)"
      "refresh_commit env r u (gen_plaintext g) s perms now db1 = (Inr x, db')"
    using tail by (auto simp: st_bind_Inr_iff)
  then show ?thesis using that htg ru refresh_checks_Inr by metis
qed

lemma refresh_needs_valid_session:
  assumes "is_ok (fst (refresh_handle env cmd corr now db))"
    and "hash_refresh env (rc_refresh_token cmd) = Inr h" "pg_find_by_hash db h = Some t"
    and "pg_find_session db (tok_session t) = Some s"
  shows "is_valid_under s (current_generation db (tok_account t)) now"
proof -
  obtain x db' where run: "refresh_handle env cmd corr now db = (Inr x, db')"
    using assms(1) by (cases "refresh_handle env cmd corr now db") (auto simp: is_ok_iff)
  show ?thesis
    by (rule refresh_handle_Inr [OF run]) (use assms refresh_checks_Inr in fastforce)
qed

lemma refresh_commit_Inr:
  "refresh_commit env r u p s perms now db = (Inr x, db') \<Longrightarrow>
     \<exists>db1 db2 s' c a. pg_token_save r db = Inr db1 \<and> pg_token_save u db1 = Inr db2 \<and>
       session_extend s now (session_ttl (env_policy env)) = Inr s' \<and> pg_session_save s' db2 = Inr db' \<and>
       mint_access_token s' now (access_ttl (env_policy env)) perms = Inr c \<and> mint_access env c = Inr a \<and>
       x = \<lparr>is_account = tok_account r, is_session = tok_session r, is_access_token = a,
            is_refresh_token = p, is_access_expires_in = expires_in_secs c now, is_first_link = False\<rparr>"
  unfolding refresh_commit_def st_bind_Inr_iff st_step_Inr_iff sum.inject
  by (elim exE conjE, hypsubst, intro exI conjI, assumption+, rule refl)


section \<open>Rotation is single use\<close>

lemma find_hash_row:
  "pg_find_by_hash db h = Some t \<Longrightarrow> t \<in> set (refresh_tokens db) \<and> tok_hash t = h"
  by (auto simp: pg_find_by_hash_def find_Some_iff)

lemma rotation_saved:
  assumes keys: "auth_keys db" and t: "pg_find_by_hash db h = Some t"
    and rot: "token_rotate fresh t now nh e = Inr (r, u)" and save: "pg_token_save r db = Inr db'"
  shows "spent (tok_id t) h (tok_account t) (tok_session t) db'"
proof -
  note row = find_hash_row [OF t] and r = token_rotate_Inr [OF rot]
  have "tok_id r \<in> tok_id ` set (refresh_tokens db)" using row r by auto
  then have upd: "refresh_tokens db' = map (pg_token_update r) (refresh_tokens db)"
    using save by (auto simp: pg_token_save_def split: if_splits)
  have member: "pg_token_update r t \<in> set (refresh_tokens db')" using row upd by simp
  have status: "tok_status (pg_token_update r t) = TRotated" using r by (simp add: pg_token_update_def)
  have "map tok_id (refresh_tokens db') = map tok_id (refresh_tokens db)"
    "map tok_hash (refresh_tokens db') = map tok_hash (refresh_tokens db)" using upd by simp_all
  then show ?thesis
    unfolding spent_def using keys member status row
    by (intro conjI bexI [OF _ member]) (simp_all add: auth_keys_def)
qed

lemma refresh_spends_token:
  assumes keys: "auth_keys db" and run: "refresh_handle env cmd corr now db = (Inr x, db')"
    and h: "hash_refresh env (rc_refresh_token cmd) = Inr h"
  shows "\<exists>k. spent k h (is_account x) (is_session x) db'"
proof -
  from run obtain h' t g r u s perms where h': "hash_refresh env (rc_refresh_token cmd) = Inr h'" and
      t: "pg_find_by_hash db h' = Some t" and "generate_refresh env = Inr g" and
      rot: "token_rotate (fresh_token_id env) t now (gen_hash g) (now + refresh_ttl (env_policy env)) = Inr (r, u)"
      and commit: "refresh_commit env r u (gen_plaintext g) s perms now db = (Inr x, db')"
    by (rule refresh_handle_Inr) blast
  note r = token_rotate_Inr [OF rot]
  obtain db1 db2 s' where saves: "pg_token_save r db = Inr db1" "pg_token_save u db1 = Inr db2"
      "pg_session_save s' db2 = Inr db'" and x: "is_account x = tok_account r" "is_session x = tok_session r"
    using refresh_commit_Inr [OF commit] by (elim exE conjE) simp
  have "spent (tok_id t) h' (tok_account t) (tok_session t) db1"
    by (rule rotation_saved [OF keys t rot saves(1)])
  then have "spent (tok_id t) h' (tok_account t) (tok_session t) db2"
    by (rule used.token_insert_inv) (use r saves in simp_all)
  then have "spent (tok_id t) h' (tok_account t) (tok_session t) db'"
    by (rule used.save_inv) (use saves in simp_all)
  then show ?thesis using x r h h' by auto
qed

lemma spent_replay:
  assumes "spent k h a i db" "hash_refresh env (rc_refresh_token cmd) = Inr h"
    "\<not> is_blank (rc_refresh_token cmd)" "generate_refresh env = Inr g"
  shows "refresh_handle env cmd corr now db =
    st_bind (revoke_generation env now a i corr) (\<lambda>_. st_lift (Inl RefreshTokenReuseDetected)) db"
proof -
  obtain t where t: "t \<in> set (refresh_tokens db)" "tok_hash t = h" "tok_account t = a" "tok_session t = i"
      "tok_status t = TRotated" and d: "distinct (map tok_hash (refresh_tokens db))"
    using assms(1) by (auto simp: spent_def)
  have "pg_find_by_hash db h \<noteq> None" using t by (auto simp: pg_find_by_hash_def find_None_iff)
  then obtain t' where t': "pg_find_by_hash db h = Some t'" by blast
  then have "t' = t" using find_hash_row [OF t'] t d by (auto simp: distinct_map dest: inj_onD)
  then show ?thesis
    using assms t t' by (simp add: refresh_handle_def ensure_valid_def refresh_validate_def state_defs token_rotate_def)
qed

definition cut_off :: "uuid \<Rightarrow> i64 \<Rightarrow> uuid \<Rightarrow> auth_state \<Rightarrow> bool" where
  "cut_off a g i db \<longleftrightarrow>
     current_generation db a = g \<and> (\<forall>t \<in> set (refresh_tokens db). tok_session t = i \<longrightarrow> tok_status t \<noteq> TActive)"

lemma cut_off_frame:
  "st_keeps (cut_off a g i) (publish_all env es)"
  "st_keeps (cut_off a g i) (st_try (pg_session_save s))"
  "st_keeps (cut_off a g i) (st_modify (blacklist_session now j ttl))"
  "st_keeps (cut_off a g i) (st_lift r)"
proof -
  show "st_keeps (cut_off a g i) (publish_all env es)"
    unfolding publish_all_def
    by (rule st_keeps_each)
       (auto simp: st_hoare_def publish_def cut_off_def current_generation_def split: option.splits)
qed (auto simp: st_hoare_def st_try_def st_modify_def st_lift_def pg_session_save_def blacklist_session_def
       cut_off_def current_generation_def split: sum.splits if_splits)

lemma revoke_all_no_active:
  assumes "t \<in> set (refresh_tokens (pg_revoke_all_for_session now i db))" "tok_session t = i"
  shows "tok_status t \<noteq> TActive"
proof -
  let ?f = "\<lambda>r. if tok_session r = i \<and> tok_status r = TActive
                    then r\<lparr>tok_status := TRevoked, tok_used_at := Some now\<rparr> else r"
  have "refresh_tokens (pg_revoke_all_for_session now i db) = map ?f (refresh_tokens db)"
    by (simp add: pg_revoke_all_for_session_def)
  then have "t \<in> ?f ` set (refresh_tokens db)" using assms(1) by (simp only: set_map)
  then obtain r where r: "t = ?f r" by (rule imageE)
  show ?thesis
  proof (cases "tok_session r = i \<and> tok_status r = TActive")
    case True
    then show ?thesis using r by simp
  next
    case False
    then have "t = r" unfolding r by (rule if_not_P)
    then show ?thesis using False assms(2) by simp
  qed
qed

lemma revoke_generation_cuts_off:
  assumes range: "in_i64 (g + 1)"
  shows "st_hoare (\<lambda>db. current_generation db a = g) (revoke_generation env now a i corr)
           (\<lambda>_. cut_off a (g + 1) i) (cut_off a (g + 1) i)"
proof -
  have bump: "st_hoare (\<lambda>db. current_generation db a = g) (bump_generation a)
      (\<lambda>_ db. current_generation db a = g + 1) (cut_off a (g + 1) i)"
    unfolding st_hoare_def
  proof (intro allI impI)
    fix db assume g: "current_generation db a = g"
    have "current_generation (db\<lparr>generations := (generations db)(a \<mapsto> g + 1)\<rparr>) a = g + 1"
      by (simp add: current_generation_def)
    then show "case bump_generation a db of (Inl e, db') \<Rightarrow> cut_off a (g + 1) i db'
        | (Inr x, db') \<Rightarrow> current_generation db' a = g + 1"
      using bump_generation_ok [of db a] range g by simp
  qed
  have revoke: "st_hoare (\<lambda>db. current_generation db a = g + 1) (st_modify (pg_revoke_all_for_session now i))
      (\<lambda>_. cut_off a (g + 1) i) (cut_off a (g + 1) i)"
  proof (rule st_hoare_modify)
    fix db assume "current_generation db a = g + 1"
    moreover have "current_generation (pg_revoke_all_for_session now i db) a = current_generation db a"
      by (simp add: pg_revoke_all_for_session_def current_generation_def)
    ultimately show "cut_off a (g + 1) i (pg_revoke_all_for_session now i db)"
      using revoke_all_no_active by (simp add: cut_off_def)
  qed
  have read: "st_keeps (cut_off a (g + 1) i) (st_read (\<lambda>db. pg_find_session db i))"
    by (rule st_hoare_read)
  have tail: "st_keeps (cut_off a (g + 1) i) (case found of
       None \<Rightarrow> st_lift (Inr ())
     | Some session \<Rightarrow>
         if ses_status session \<noteq> SActive then st_lift (Inr ())
         else
           st_bind (st_lift (session_revoke session now RefreshReuse corr)) (\<lambda>revoked.
           st_bind (st_try (pg_session_save revoked)) (\<lambda>_.
           st_bind (st_modify (blacklist_session now i (access_ttl (env_policy env)))) (\<lambda>_.
           publish_all env (fst (session_drain_events revoked))))))" for found
    by (cases found) (simp_all add: cut_off_frame st_keeps_bind)
  show ?thesis
    unfolding revoke_generation_def
    by (rule st_hoare_bind [OF bump], rule st_hoare_bind [OF revoke], rule st_hoare_bind [OF read], rule tail)
qed

lemma stale_generation_inactive:
  assumes "verify_access env token = Inr c" "gen_floor (cl_account c) (cl_generation c + 1) db"
  shows "\<not> says_active (introspect env gf bf db token now)"
  using assms by (auto simp: introspect_def says_active_def iv_inactive_def gen_floor_def split: option.splits)

lemma replay_outcome:
  assumes spent: "spent k h a i db"
    and replay: "hash_refresh env (rc_refresh_token cmd) = Inr h" "\<not> is_blank (rc_refresh_token cmd)"
      "generate_refresh env = Inr g"
    and range: "in_i64 (current_generation db a + 1)"
    and run: "refresh_handle env cmd corr now db = (ans, db')"
  shows "\<not> is_ok ans \<and> cut_off a (current_generation db a + 1) i db'"
proof
  note replayed = spent_replay [OF spent replay]
  show "\<not> is_ok ans"
    using run unfolding replayed by (cases ans) (auto simp: st_Inr_iffs)
  obtain r0 where r0: "revoke_generation env now a i corr db = (r0, db')"
    using run unfolding replayed by (auto simp: state_defs split: prod.splits sum.splits)
  show "cut_off a (current_generation db a + 1) i db'"
    using st_hoareD [OF revoke_generation_cuts_off [OF range] refl]
      st_hoare_errD [OF revoke_generation_cuts_off [OF range] refl] r0 by (cases r0) auto
qed

text \<open>
  C19. A refresh token works once.  After a refresh that succeeded, whatever requests follow, every
  further refresh with the same token is refused; it raises the generation of the account, leaves no
  active refresh token in the session, and every access token of the account issued under the old
  generation, the one of the first refresh included, is inactive from then on, for ever.
\<close>

theorem refresh_token_single_use:
  assumes keys: "auth_keys db"
    and first: "refresh_handle env cmd corr now db = (Inr x, db1)"
    and hash: "hash_refresh env (rc_refresh_token cmd) = Inr h"
    and later: "auth_reach db1 db2"
    and replay: "hash_refresh env' (rc_refresh_token cmd') = Inr h" "\<not> is_blank (rc_refresh_token cmd')"
      "generate_refresh env' = Inr g'"
    and range: "in_i64 (current_generation db2 (is_account x) + 1)"
    and run: "refresh_handle env' cmd' corr' now' db2 = (ans, db3)"
  shows "\<not> is_ok ans
       \<and> current_generation db3 (is_account x) = current_generation db2 (is_account x) + 1
       \<and> (\<forall>t \<in> set (refresh_tokens db3). tok_session t = is_session x \<longrightarrow> tok_status t \<noteq> TActive)
       \<and> (\<forall>db4 env'' token c now''. auth_reach db3 db4 \<longrightarrow> verify_access env'' token = Inr c \<longrightarrow>
            cl_account c = is_account x \<longrightarrow> cl_generation c \<le> current_generation db2 (is_account x) \<longrightarrow>
            \<not> says_active (introspect env'' gf bf db4 token now''))"
proof -
  let ?a = "is_account x" and ?g = "current_generation db2 (is_account x)"
  obtain k where "spent k h ?a (is_session x) db1" using refresh_spends_token [OF keys first hash] by blast
  then have "spent k h ?a (is_session x) db2" using used.reach_inv [OF later] by blast
  then have err: "\<not> is_ok ans" and cut: "cut_off ?a (?g + 1) (is_session x) db3"
    using replay_outcome [OF _ replay range run] by blast+
  have "\<not> says_active (introspect env'' gf bf db4 token now'')"
    if "auth_reach db3 db4" "verify_access env'' token = Inr c" "cl_account c = ?a" "cl_generation c \<le> ?g"
    for db4 env'' token c now''
  proof (rule stale_generation_inactive [OF that(2)])
    have "gen_floor ?a (?g + 1) db3" using cut by (simp add: cut_off_def gen_floor_def)
    then have "gen_floor ?a (?g + 1) db4" using gen.reach_inv [OF that(1)] by blast
    then show "gen_floor (cl_account c) (cl_generation c + 1) db4" using that by (simp add: gen_floor_def)
  qed
  then show ?thesis using err cut by (auto simp: cut_off_def)
qed


section \<open>Global logout is final\<close>

lemma logout_all_raises_floor:
  assumes parse: "parse_uuid env raw = Some a" "\<not> is_blank raw"
    and range: "in_i64 (current_generation db a + 1)"
    and run: "logout_all_handle env raw corr now db = (ans, db1)"
  shows "gen_floor a (current_generation db a + 1) db1"
    and "ans = Inr out \<Longrightarrow> lo_generation out = current_generation db a + 1"
proof -
  let ?g = "current_generation db a + 1" and ?db = "db\<lparr>generations := (generations db)(a \<mapsto> current_generation db a + 1)\<rparr>"
  let ?tail = "st_bind (st_read (\<lambda>db. pg_list_active_by_account db a)) (\<lambda>active.
     st_bind (logout_all_loop env now corr active 0) (\<lambda>revoked.
     st_lift (Inr \<lparr>lo_generation = ?g, lo_sessions_revoked = revoked\<rparr>)))"
  have "logout_all_handle env raw corr now db = ?tail ?db"
    using parse bump_generation_ok [OF range]
    by (simp add: logout_all_handle_def ensure_valid_def logout_all_validate_def account_id_try_from_def
          st_bind_def st_lift_def st_read_def)
  then have run': "?tail ?db = (ans, db1)" using run by simp
  have "gen_floor a ?g ?db" by (simp add: gen_floor_def current_generation_def)
  then show "gen_floor a ?g db1" using st_keepsD [OF gen.keeps_logout_all_tail] run' by blast
  show "ans = Inr out \<Longrightarrow> lo_generation out = ?g"
    using run' by (auto simp only: st_bind_Inr_iff st_step_Inr_iff sum.inject logout_all_outcome.simps)
qed

text \<open>
  C21. A global logout is final: once the generation has been raised, whatever the handler then
  answers and whatever requests follow, no access token of the account issued under the old
  generation is ever active again, and no refresh token whose session was issued under it can be
  exchanged.
\<close>

theorem global_logout_is_final:
  assumes parse: "parse_uuid env raw = Some a" "\<not> is_blank raw"
    and range: "in_i64 (current_generation db a + 1)"
    and run: "logout_all_handle env raw corr now db = (ans, db1)"
    and later: "auth_reach db1 db2"
  shows "(\<forall>out. ans = Inr out \<longrightarrow> lo_generation out = current_generation db a + 1)
       \<and> (\<forall>env' token c now'. verify_access env' token = Inr c \<longrightarrow> cl_account c = a \<longrightarrow>
            cl_generation c \<le> current_generation db a \<longrightarrow> \<not> says_active (introspect env' gf bf db2 token now'))
       \<and> (\<forall>env' cmd corr' now' h t s. hash_refresh env' (rc_refresh_token cmd) = Inr h \<longrightarrow>
            pg_find_by_hash db2 h = Some t \<longrightarrow> tok_account t = a \<longrightarrow>
            pg_find_session db2 (tok_session t) = Some s \<longrightarrow> ses_generation s \<le> current_generation db a \<longrightarrow>
            \<not> is_ok (fst (refresh_handle env' cmd corr' now' db2)))"
proof (intro conjI allI impI)
  have floor: "gen_floor a (current_generation db a + 1) db2"
    using gen.reach_inv [OF later] logout_all_raises_floor(1) [OF parse range run] by blast
  show "lo_generation out = current_generation db a + 1" if "ans = Inr out" for out
    using logout_all_raises_floor(2) [OF parse range run that] .
  show "\<not> says_active (introspect env' gf bf db2 token now')"
    if "verify_access env' token = Inr c" "cl_account c = a" "cl_generation c \<le> current_generation db a"
    for env' token c now'
    by (rule stale_generation_inactive [OF that(1)]) (use floor that in \<open>simp add: gen_floor_def\<close>)
  show "\<not> is_ok (fst (refresh_handle env' cmd corr' now' db2))"
    if h: "hash_refresh env' (rc_refresh_token cmd) = Inr h" and t: "pg_find_by_hash db2 h = Some t"
      and a: "tok_account t = a" and s: "pg_find_session db2 (tok_session t) = Some s"
      and old: "ses_generation s \<le> current_generation db a" for env' cmd corr' now' h t s
  proof
    assume "is_ok (fst (refresh_handle env' cmd corr' now' db2))"
    then have "is_valid_under s (current_generation db2 a) now'"
      using refresh_needs_valid_session h t a s by blast
    then show False using old floor by (simp add: is_valid_under_def gen_floor_def)
  qed
qed


section \<open>Logout is final\<close>

lemma find_session_row:
  assumes "pg_find_session db i = Some s"
  shows "\<exists>r \<in> set (sessions db). ses_id r = i \<and> s = session_reconstitute r"
  using assms by (auto simp: pg_find_session_def find_Some_iff)

lemma found_session_unique:
  "distinct (map ses_id (sessions db)) \<Longrightarrow> r \<in> set (sessions db) \<Longrightarrow>
   pg_find_session db (ses_id r) = Some (session_reconstitute r)"
proof -
  assume d: "distinct (map ses_id (sessions db))" and r: "r \<in> set (sessions db)"
  then have "find (\<lambda>q. ses_id q = ses_id r) (sessions db) \<noteq> None" by (auto simp: find_None_iff)
  then obtain q where q: "find (\<lambda>q. ses_id q = ses_id r) (sessions db) = Some q" by blast
  then have "q \<in> set (sessions db)" "ses_id q = ses_id r" by (auto simp: find_Some_iff)
  then have "q = r" using d r by (auto simp: distinct_map dest: inj_onD)
  then show ?thesis using q by (simp add: pg_find_session_def)
qed

lemma session_revoke_active:
  "ses_status s = SActive \<Longrightarrow> \<exists>s'. session_revoke s now reason corr = Inr s' \<and> ses_id s' = ses_id s \<and>
     ses_version s' = ses_version s + 1 \<and> ses_status s' = SRevoked"
  by (auto simp: session_cmd_defs)

text \<open>Saving the successor version of a found session succeeds and stores its status.\<close>

lemma save_next_version:
  assumes "pg_find_session db i = Some s" "0 \<le> ses_version s"
    "ses_id s' = i" "ses_version s' = ses_version s + 1"
  shows "\<exists>db'. pg_session_save s' db = Inr db' \<and> sessions db' = map (pg_session_update s') (sessions db) \<and>
    generations db' = generations db \<and> refresh_tokens db' = refresh_tokens db \<and>
    (\<exists>r \<in> set (sessions db'). ses_id r = i \<and> ses_status r = ses_status s')"
proof -
  obtain r where r: "r \<in> set (sessions db)" "ses_id r = i" "s = session_reconstitute r"
    using find_session_row [OF assms(1)] by blast
  then have v: "ses_version r = ses_version s' - 1" "ses_version s' \<noteq> 0" using assms by simp_all
  let ?db = "db\<lparr>sessions := map (pg_session_update s') (sessions db)\<rparr>"
  have "pg_session_save s' db = Inr ?db" using r v assms by (auto simp: pg_session_save_def)
  moreover have "ses_status (pg_session_update s' r) = ses_status s'"
    using r v assms by (simp add: pg_session_update_def)
  then have "\<exists>q \<in> set (sessions ?db). ses_id q = i \<and> ses_status q = ses_status s'"
    using r by (intro bexI [of _ "pg_session_update s' r"]) simp_all
  ultimately show ?thesis by (intro exI [of _ ?db]) simp
qed

lemma logout_ends:
  assumes keys: "auth_keys db" and raw: "parse_uuid env raw = Some i" "\<not> is_blank raw"
    and s: "pg_find_session db i = Some s" "ses_status s = SActive" "0 \<le> ses_version s"
    and ttl: "0 < access_ttl (env_policy env)" "nanos_per_sec dvd access_ttl (env_policy env)"
    and run: "logout_handle env raw corr now db = (ans, db1)"
  shows "ended i (now + access_ttl (env_policy env)) db1"
proof -
  let ?ttl = "access_ttl (env_policy env)"
  have i: "ses_id s = i" using find_session_row [OF s(1)] by auto
  obtain s' where s': "session_revoke s now Logout corr = Inr s'" "ses_id s' = i"
      "ses_version s' = ses_version s + 1" "ses_status s' = SRevoked"
    using session_revoke_active [OF s(2)] i by metis
  obtain db2 where db2: "pg_session_save s' db = Inr db2" "sessions db2 = map (pg_session_update s') (sessions db)"
      "\<exists>r \<in> set (sessions db2). ses_id r = i \<and> ses_status r = SRevoked"
    using save_next_version [OF s(1,3) s'(2,3)] unfolding s'(4) by blast
  let ?db = "blacklist_session now i ?ttl db2"
  have "1 \<le> ?ttl div nanos_per_sec" "?ttl div nanos_per_sec * nanos_per_sec = ?ttl"
    using ttl by (auto simp: nanos_per_sec_def elim!: dvdE)
  then have black: "blacklist ?db i = Some (now + ?ttl)" by (simp add: blacklist_session_def)
  have "sessions ?db = sessions db2" by (simp add: blacklist_session_def)
  then have start: "ended i (now + ?ttl) ?db"
    using keys db2 black by (force simp: ended_def auth_keys_def comp_def)
  let ?tail = "st_bind (st_modify (pg_revoke_all_for_session now i)) (\<lambda>_.
     publish_all env (fst (session_drain_events s')))"
  have keep: "st_keeps (ended i (now + ?ttl)) (st_bind ?tail (\<lambda>_. st_lift (Inr True)))"
    by (intro st_keeps_bind over.keeps_revoke_all over.keeps_publish_all over.keeps_lift)
  have "logout_handle env raw corr now db = st_bind ?tail (\<lambda>_. st_lift (Inr True)) ?db"
    using raw s(1,2) s'(1) db2(1) i
    by (simp add: logout_handle_def ensure_valid_def logout_validate_def session_id_try_from_def
          revoke_and_kill_def st_bind_def st_lift_def st_read_def st_try_def st_modify_def)
  then have "st_bind ?tail (\<lambda>_. st_lift (Inr True)) ?db = (ans, db1)" using run by simp
  then show ?thesis by (rule st_keepsD [OF keep start])
qed

lemma ended_introspection:
  assumes "ended i e db" "verify_access env token = Inr c" "cl_session c = i" "cl_expires_at c \<le> e"
  shows "\<not> says_active (introspect env gf bf db token now)"
  using assms by (auto simp: introspect_def says_active_def iv_inactive_def ended_def is_blacklisted_def split: option.splits)

lemma ended_no_refresh:
  assumes "ended i e db" "hash_refresh env (rc_refresh_token cmd) = Inr h" "pg_find_by_hash db h = Some t"
    "tok_session t = i"
  shows "\<not> is_ok (fst (refresh_handle env cmd corr now db))"
proof
  assume ok: "is_ok (fst (refresh_handle env cmd corr now db))"
  obtain r where r: "r \<in> set (sessions db)" "ses_id r = i" "ses_status r \<noteq> SActive"
    and d: "distinct (map ses_id (sessions db))" using assms(1) by (auto simp: ended_def)
  then have "pg_find_session db (tok_session t) = Some (session_reconstitute r)"
    using found_session_unique assms(4) by metis
  then have "is_valid_under (session_reconstitute r) (current_generation db (tok_account t)) now"
    using refresh_needs_valid_session [OF ok assms(2,3)] by blast
  then show False using r by (simp add: is_valid_under_def)
qed

text \<open>
  C20. A logout is final, even when publishing its event fails: for a policy whose access lifetime is
  a positive number of whole seconds, every access token the session minted up to then is inactive at
  every later introspection, after any further requests, and none of the session's refresh tokens can
  be exchanged again.
\<close>

theorem logout_is_final:
  assumes keys: "auth_keys db" and raw: "parse_uuid env raw = Some i" "\<not> is_blank raw"
    and s: "pg_find_session db i = Some s" "ses_status s = SActive" "0 \<le> ses_version s"
    and ttl: "0 < access_ttl (env_policy env)" "nanos_per_sec dvd access_ttl (env_policy env)"
    and run: "logout_handle env raw corr now db = (ans, db1)"
    and later: "auth_reach db1 db2"
  shows "(\<forall>s0 t perms c env' token now'.
            mint_access_token s0 t (access_ttl (env_policy env)) perms = Inr c \<longrightarrow> ses_id s0 = i \<longrightarrow>
            t \<le> now \<longrightarrow> verify_access env' token = Inr c \<longrightarrow> \<not> says_active (introspect env' gf bf db2 token now'))
       \<and> (\<forall>env' cmd corr' now' h t. hash_refresh env' (rc_refresh_token cmd) = Inr h \<longrightarrow>
            pg_find_by_hash db2 h = Some t \<longrightarrow> tok_session t = i \<longrightarrow>
            \<not> is_ok (fst (refresh_handle env' cmd corr' now' db2)))"
proof -
  have over: "ended i (now + access_ttl (env_policy env)) db2"
    using over.reach_inv [OF later] logout_ends [OF keys raw s ttl run] by blast
  have "\<not> says_active (introspect env' gf bf db2 token now')"
    if "mint_access_token s0 t (access_ttl (env_policy env)) perms = Inr c" "ses_id s0 = i" "t \<le> now"
      "verify_access env' token = Inr c" for s0 t perms c env' token now'
    by (rule ended_introspection [OF over that(4)]) (use mint_access_token_Inr [OF that(1)] that in auto)
  then show ?thesis using ended_no_refresh [OF over] by blast
qed


section \<open>Refreshing at the absolute cap\<close>

text \<open>Everything a refresh checks before its first write holds, and the ids it draws are new.\<close>

definition refresh_ready ::
  "auth_env \<Rightarrow> refresh_command \<Rightarrow> datetime \<Rightarrow> auth_state \<Rightarrow> string \<Rightarrow> refresh_token \<Rightarrow> session \<Rightarrow> generated_refresh \<Rightarrow> bool" where
  "refresh_ready env cmd now db h t s g \<longleftrightarrow>
     \<not> is_blank (rc_refresh_token cmd) \<and> hash_refresh env (rc_refresh_token cmd) = Inr h \<and>
     pg_find_by_hash db h = Some t \<and> tok_status t = TActive \<and> now < tok_expires_at t \<and> 0 \<le> tok_version t \<and>
     generate_refresh env = Inr g \<and> 0 < refresh_ttl (env_policy env) \<and>
     fresh_token_id env \<notin> tok_id ` set (refresh_tokens db) \<and> gen_hash g \<notin> tok_hash ` set (refresh_tokens db) \<and>
     pg_find_session db (tok_session t) = Some s \<and>
     is_valid_under s (current_generation db (tok_account t)) now \<and>
     same_device_as (ses_device s) (rc_device cmd) \<and>
     (case dir_lookup env (tok_account t) of Inl _ \<Rightarrow> False | Inr snap \<Rightarrow> activation snap = AccActive)"

definition rotated_by :: "auth_env \<Rightarrow> refresh_token \<Rightarrow> datetime \<Rightarrow> refresh_token" where
  "rotated_by env t now =
     token_touch (t\<lparr>tok_status := TRotated, tok_used_at := Some now, tok_replaced_by := Some (fresh_token_id env)\<rparr>)"

definition successor_of :: "auth_env \<Rightarrow> refresh_token \<Rightarrow> generated_refresh \<Rightarrow> datetime \<Rightarrow> refresh_token" where
  "successor_of env t g now =
     \<lparr>tok_id = fresh_token_id env, tok_session = tok_session t, tok_account = tok_account t,
      tok_hash = gen_hash g, tok_status = TActive, tok_issued_at = now,
      tok_expires_at = now + refresh_ttl (env_policy env), tok_used_at = None, tok_replaced_by = None,
      tok_version = 0\<rparr>"

lemma ready_rotates:
  "refresh_ready env cmd now db h t s g \<Longrightarrow>
   token_rotate (fresh_token_id env) t now (gen_hash g) (now + refresh_ttl (env_policy env)) =
     Inr (rotated_by env t now, successor_of env t g now)"
  by (simp add: refresh_ready_def token_rotate_def token_issue_def token_is_expired_def rotated_by_def successor_of_def)

lemma ready_checks:
  assumes "refresh_ready env cmd now db h t s g"
  shows "\<exists>perms. refresh_checks env cmd (tok_account t) (tok_session t) now db = (Inr (s, perms), db)"
  using assms
  by (auto simp: refresh_ready_def refresh_checks_def state_defs gate_active_def split: sum.splits)

lemma ready_saves:
  assumes "refresh_ready env cmd now db h t s g"
  shows "\<exists>db1 db2. pg_token_save (rotated_by env t now) db = Inr db1 \<and>
     pg_token_save (successor_of env t g now) db1 = Inr db2 \<and>
     sessions db1 = sessions db \<and> sessions db2 = sessions db \<and>
     generations db1 = generations db \<and> generations db2 = generations db"
proof -
  have t: "t \<in> set (refresh_tokens db)" "0 \<le> tok_version t" and new: "fresh_token_id env \<notin> tok_id ` set (refresh_tokens db)"
      "gen_hash g \<notin> tok_hash ` set (refresh_tokens db)"
    using assms find_hash_row by (auto simp: refresh_ready_def)
  let ?r = "rotated_by env t now"
  let ?db1 = "db\<lparr>refresh_tokens := map (pg_token_update ?r) (refresh_tokens db)\<rparr>"
  have r: "tok_id ?r = tok_id t" "tok_version ?r = tok_version t + 1" by (simp_all add: rotated_by_def token_touch_def)
  have "pg_token_save ?r db = Inr ?db1" using t r by (auto simp: pg_token_save_def)
  moreover have "pg_token_save (successor_of env t g now) ?db1 =
      Inr (?db1\<lparr>refresh_tokens := refresh_tokens ?db1 @ [successor_of env t g now]\<rparr>)"
    using new by (simp add: pg_token_save_def successor_of_def image_image)
  ultimately show ?thesis
    by (intro exI [of _ ?db1] exI [of _ "?db1\<lparr>refresh_tokens := refresh_tokens ?db1 @ [successor_of env t g now]\<rparr>"])
       simp
qed

lemma extend_at_cap:
  "is_valid_under s g now \<Longrightarrow> min (now + ttl) (ses_absolute_expiry s) \<le> ses_expires_at s \<Longrightarrow>
   session_extend s now ttl = Inr s"
  by (auto simp: session_extend_def ensure_mintable_def is_valid_under_def Let_def not_less)

lemma unchanged_session_not_saved:
  assumes "distinct (map ses_id (sessions db))" "pg_find_session db i = Some s"
  shows "pg_session_save s db =
     Inl (if ses_version s = 0 then Storage (UniqueViolation ''sessions_pkey'') else ConcurrentModification)"
proof -
  obtain r where r: "r \<in> set (sessions db)" "s = session_reconstitute r"
    using find_session_row [OF assms(2)] by blast
  have "q = r" if "q \<in> set (sessions db)" "ses_id q = ses_id r" for q
    using assms(1) r that by (auto simp: distinct_map dest: inj_onD)
  then show ?thesis using r by (force simp: pg_session_save_def)
qed

text \<open>
  C22. A refresh that passes every check fails when the sliding expiry cannot move, which is the case
  for every refresh after the session has reached its absolute cap: \<open>extend\<close> then leaves the version
  as it is and the versioned save of the session is refused.  The rotation has been stored by then,
  so the client holds a spent token and never saw its successor; when it retries, as the retryable
  error invites it to, the retry is treated as theft and raises the generation of the account.
\<close>

theorem refresh_at_cap_locks_out:
  assumes keys: "auth_keys db" and ready: "refresh_ready env cmd now db h t s g"
    and cap: "min (now + session_ttl (env_policy env)) (ses_absolute_expiry s) \<le> ses_expires_at s"
  shows "\<exists>db1. refresh_handle env cmd corr now db =
            (Inl (if ses_version s = 0 then Storage (UniqueViolation ''sessions_pkey'') else ConcurrentModification), db1)
       \<and> current_generation db1 (tok_account t) = current_generation db (tok_account t)
       \<and> (\<forall>env' cmd' corr' now' g' ans db2.
            hash_refresh env' (rc_refresh_token cmd') = Inr h \<longrightarrow> \<not> is_blank (rc_refresh_token cmd') \<longrightarrow>
            generate_refresh env' = Inr g' \<longrightarrow> in_i64 (current_generation db (tok_account t) + 1) \<longrightarrow>
            refresh_handle env' cmd' corr' now' db1 = (ans, db2) \<longrightarrow>
            \<not> is_ok ans \<and>
            current_generation db2 (tok_account t) = current_generation db (tok_account t) + 1)"
proof -
  note rot = ready_rotates [OF ready]
  have facts: "\<not> is_blank (rc_refresh_token cmd)" "hash_refresh env (rc_refresh_token cmd) = Inr h"
      "pg_find_by_hash db h = Some t" "generate_refresh env = Inr g"
      "pg_find_session db (tok_session t) = Some s" "is_valid_under s (current_generation db (tok_account t)) now"
    using ready by (simp_all add: refresh_ready_def)
  obtain perms where checks: "refresh_checks env cmd (tok_account t) (tok_session t) now db = (Inr (s, perms), db)"
    using ready_checks [OF ready] by blast
  obtain db1 db2 where saves: "pg_token_save (rotated_by env t now) db = Inr db1"
      "pg_token_save (successor_of env t g now) db1 = Inr db2"
    and frame: "sessions db2 = sessions db" "generations db2 = generations db"
    using ready_saves [OF ready] by blast
  have "pg_find_session db2 (tok_session t) = Some s" "distinct (map ses_id (sessions db2))"
    using facts keys frame by (simp_all add: pg_find_session_def auth_keys_def)
  note refused = unchanged_session_not_saved [OF this(2,1)]
  have run: "refresh_handle env cmd corr now db =
      (Inl (if ses_version s = 0 then Storage (UniqueViolation ''sessions_pkey'') else ConcurrentModification), db2)"
    using facts checks rot saves refused extend_at_cap [OF facts(6) cap]
    by (simp add: refresh_handle_def ensure_valid_def refresh_validate_def refresh_commit_def st_bind_def
          st_lift_def st_read_def st_try_def)
  have "spent (tok_id t) h (tok_account t) (tok_session t) db2"
    using used.token_insert_inv [OF rotation_saved [OF keys facts(3) rot saves(1)] _ saves(2)]
    by (simp add: successor_of_def)
  note spent = this
  have gen: "current_generation db2 (tok_account t) = current_generation db (tok_account t)"
    using frame by (simp add: current_generation_def)
  have "\<not> is_ok ans \<and> current_generation db3 (tok_account t) = current_generation db (tok_account t) + 1"
    if prem: "hash_refresh env' (rc_refresh_token cmd') = Inr h" "\<not> is_blank (rc_refresh_token cmd')"
      "generate_refresh env' = Inr g'" and range: "in_i64 (current_generation db (tok_account t) + 1)"
      and retry: "refresh_handle env' cmd' corr' now' db2 = (ans, db3)" for env' cmd' corr' now' g' ans db3
    using replay_outcome [OF spent prem _ retry] range gen
    by (simp add: cut_off_def)
  then show ?thesis using run gen by blast
qed


section \<open>A sample run\<close>

definition sample_device :: device_fingerprint where
  "sample_device = \<lparr>user_agent = None, ip_address = None, device_id = Some ''d1''\<rparr>"

definition sample_claims :: access_token_claims where
  "sample_claims =
     \<lparr>cl_account = 7, cl_session = 11, cl_generation = 0, cl_permissions = [''read''],
      cl_issued_at = 1000000000, cl_expires_at = 2000000000\<rparr>"

definition sample_env :: auth_env where
  "sample_env =
     \<lparr>env_policy = \<lparr>access_ttl = 1000000000, session_ttl = 5000000000, absolute_ttl = 20000000000,
                    refresh_ttl = 100000000000\<rparr>,
      authenticate = (\<lambda>_. Inr (''iss'', ''sub'')), resolve_or_provision = (\<lambda>_. Inr 7),
      dir_lookup = (\<lambda>_. Inr \<lparr>activation = AccActive, acc_permissions = [''read'']\<rparr>),
      mint_access = (\<lambda>_. Inr ''at''), verify_access = (\<lambda>_. Inr sample_claims),
      generate_refresh = Inr \<lparr>gen_plaintext = ''r2'', gen_hash = ''#r2''\<rparr>,
      hash_refresh = (\<lambda>p. Inr (''#'' @ p)), publish_fault = (\<lambda>_. None),
      fresh_session_id = 12, fresh_token_id = 32,
      parse_uuid = (\<lambda>s. if s = ''s'' then Some 11 else if s = ''a'' then Some 7 else None),
      uuid_str = (\<lambda>_. ''id'')\<rparr>"

definition sample_row :: session where
  "sample_row =
     \<lparr>ses_id = 11, ses_account = 7, ses_subject = \<lparr>idp_issuer = ''iss'', idp_sub = ''sub''\<rparr>,
      ses_generation = 0, ses_status = SActive, ses_device = sample_device,
      ses_issued_at = 0, ses_expires_at = 5000000000, ses_absolute_expiry = 20000000000,
      ses_revoked_at = None, ses_version = 3, ses_pending = []\<rparr>"

definition sample_token :: refresh_token where
  "sample_token =
     \<lparr>tok_id = 31, tok_session = 11, tok_account = 7, tok_hash = ''#r1'', tok_status = TActive,
      tok_issued_at = 0, tok_expires_at = 100000000000, tok_used_at = None, tok_replaced_by = None,
      tok_version = 0\<rparr>"

definition sample_auth :: "session \<Rightarrow> auth_state" where
  "sample_auth s =
     \<lparr>sessions = [s], refresh_tokens = [sample_token], subject_links = [], generations = Map.empty,
      blacklist = Map.empty, published = []\<rparr>"

definition sample_refresh :: refresh_command where
  "sample_refresh = \<lparr>rc_refresh_token = ''r1'', rc_device = sample_device\<rparr>"

lemmas sample_auth_defs = sample_auth_def sample_token_def sample_row_def sample_env_def sample_refresh_def
  sample_device_def sample_claims_def

lemma sample_keys: "auth_keys (sample_auth s)"
  by (simp add: auth_keys_def sample_auth_def)

lemma sample_refresh_ok:
  "is_ok (fst (refresh_handle sample_env sample_refresh 1 1000000000 (sample_auth sample_row)))"
  by code_simp


lemma sample_refresh_run:
  obtains x db1 where
    "refresh_handle sample_env sample_refresh 1 1000000000 (sample_auth sample_row) = (Inr x, db1)"
    "is_account x = 7" "is_session x = 11" "current_generation db1 7 = 0"
proof -
  have "case refresh_handle sample_env sample_refresh 1 1000000000 (sample_auth sample_row) of
      (Inl _, _) \<Rightarrow> False
    | (Inr x, db1) \<Rightarrow> is_account x = 7 \<and> is_session x = 11 \<and> current_generation db1 7 = 0"
    by code_simp
  then show ?thesis using that by (auto split: prod.splits sum.splits)
qed

lemma sample_env_facts:
  "hash_refresh sample_env (rc_refresh_token sample_refresh) = Inr ''#r1''"
  "\<not> is_blank (rc_refresh_token sample_refresh)"
  "generate_refresh sample_env = Inr \<lparr>gen_plaintext = ''r2'', gen_hash = ''#r2''\<rparr>"
  "parse_uuid sample_env ''s'' = Some 11" "parse_uuid sample_env ''a'' = Some 7"
  "\<not> is_blank ''s''" "\<not> is_blank ''a''" "verify_access sample_env token = Inr sample_claims"
proof -
  show "\<not> is_blank (rc_refresh_token sample_refresh)" by code_simp
  show "\<not> is_blank ''s''" "\<not> is_blank ''a''" by code_simp+
qed (simp_all add: sample_env_def sample_refresh_def)

theorem refresh_token_single_use_witness:
  "\<exists>x db1. refresh_handle sample_env sample_refresh 1 1000000000 (sample_auth sample_row) = (Inr x, db1) \<and>
     \<not> is_ok (fst (refresh_handle sample_env sample_refresh 2 1500000000 db1)) \<and>
     current_generation (snd (refresh_handle sample_env sample_refresh 2 1500000000 db1)) 7 = 1 \<and>
     \<not> says_active (introspect sample_env None None (snd (refresh_handle sample_env sample_refresh 2 1500000000 db1)) ''at'' 1500000000)"
proof -
  obtain x db1 where first: "refresh_handle sample_env sample_refresh 1 1000000000 (sample_auth sample_row) = (Inr x, db1)"
    and x: "is_account x = 7" "is_session x = 11" "current_generation db1 7 = 0" by (rule sample_refresh_run)
  have range: "in_i64 (current_generation db1 (is_account x) + 1)"
    using x by (simp add: in_i64_def i64_min_def i64_max_def)
  note used = refresh_token_single_use [OF sample_keys first sample_env_facts(1) reach_refl sample_env_facts(1,2,3)
      range surjective_pairing [of "refresh_handle sample_env sample_refresh 2 1500000000 db1"]]
  have "\<not> says_active (introspect sample_env None None (snd (refresh_handle sample_env sample_refresh 2 1500000000 db1)) ''at'' 1500000000)"
    using used reach_refl sample_env_facts(8) x by (auto simp: sample_claims_def)
  then show ?thesis using first used x by auto
qed

theorem global_logout_is_final_witness:
  "current_generation (sample_auth sample_row) 7 = 0 \<and>
   is_ok (fst (logout_all_handle sample_env ''a'' 1 1500000000 (sample_auth sample_row))) \<and>
   \<not> says_active (introspect sample_env None None (snd (logout_all_handle sample_env ''a'' 1 1500000000 (sample_auth sample_row))) ''at'' 1500000000)"
proof -
  have g: "current_generation (sample_auth sample_row) 7 = 0" by code_simp
  then have range: "in_i64 (current_generation (sample_auth sample_row) 7 + 1)"
    by (simp add: in_i64_def i64_min_def i64_max_def)
  have "is_ok (fst (logout_all_handle sample_env ''a'' 1 1500000000 (sample_auth sample_row)))" by code_simp
  moreover note global_logout_is_final [OF sample_env_facts(5,7) range
      surjective_pairing [of "logout_all_handle sample_env ''a'' 1 1500000000 (sample_auth sample_row)"] reach_refl]
  ultimately show ?thesis using g sample_env_facts(8) by (auto simp: sample_claims_def)
qed

theorem logout_is_final_witness:
  "is_ok (fst (logout_handle sample_env ''s'' 1 1500000000 (sample_auth sample_row))) \<and>
   mint_access_token sample_row 1000000000 1000000000 [''read''] = Inr sample_claims \<and>
   \<not> says_active (introspect sample_env None None (snd (logout_handle sample_env ''s'' 1 1500000000 (sample_auth sample_row))) ''at'' 1600000000)"
proof -
  have found: "pg_find_session (sample_auth sample_row) 11 = Some sample_row" by code_simp
  have row: "ses_status sample_row = SActive" "0 \<le> ses_version sample_row" "ses_id sample_row = 11"
    by (simp_all add: sample_row_def)
  have ttl: "0 < access_ttl (env_policy sample_env)" "nanos_per_sec dvd access_ttl (env_policy sample_env)"
      "access_ttl (env_policy sample_env) = 1000000000"
    by (simp_all add: sample_env_def nanos_per_sec_def)
  have mint: "mint_access_token sample_row 1000000000 1000000000 [''read''] = Inr sample_claims" by code_simp
  have "is_ok (fst (logout_handle sample_env ''s'' 1 1500000000 (sample_auth sample_row)))" by code_simp
  moreover have "\<not> says_active (introspect sample_env None None (snd (logout_handle sample_env ''s'' 1 1500000000 (sample_auth sample_row))) ''at'' 1600000000)"
    by (rule logout_is_final [OF sample_keys sample_env_facts(4,6) found row(1,2) ttl(1,2)
          surjective_pairing reach_refl, THEN conjunct1, rule_format, unfolded ttl(3), OF mint row(3) _ sample_env_facts(8)])
       simp
  ultimately show ?thesis using mint by blast
qed

definition capped_row :: session where
  "capped_row = sample_row\<lparr>ses_expires_at := 20000000000\<rparr>"

theorem refresh_at_cap_locks_out_witness:
  "\<exists>db1. refresh_handle sample_env sample_refresh 1 1000000000 (sample_auth capped_row) =
       (Inl ConcurrentModification, db1) \<and>
     auth_is_retryable ConcurrentModification \<and>
     current_generation (snd (refresh_handle sample_env sample_refresh 2 1500000000 db1)) 7 = 1"
proof -
  have ready: "refresh_ready sample_env sample_refresh 1000000000 (sample_auth capped_row) ''#r1'' sample_token capped_row
      \<lparr>gen_plaintext = ''r2'', gen_hash = ''#r2''\<rparr>"
    by code_simp
  have cap: "min (1000000000 + session_ttl (env_policy sample_env)) (ses_absolute_expiry capped_row) \<le> ses_expires_at capped_row"
    "ses_version capped_row = 3" "tok_account sample_token = 7"
    by (simp_all add: capped_row_def sample_auth_defs)
  have g: "current_generation (sample_auth capped_row) 7 = 0" by code_simp
  then have range: "in_i64 (current_generation (sample_auth capped_row) (tok_account sample_token) + 1)"
    using cap by (simp add: in_i64_def i64_min_def i64_max_def)
  obtain db1 where "refresh_handle sample_env sample_refresh 1 1000000000 (sample_auth capped_row) =
       (Inl ConcurrentModification, db1)"
    and "\<forall>env' cmd' corr' now' g' ans db2.
            hash_refresh env' (rc_refresh_token cmd') = Inr ''#r1'' \<longrightarrow> \<not> is_blank (rc_refresh_token cmd') \<longrightarrow>
            generate_refresh env' = Inr g' \<longrightarrow> in_i64 (current_generation (sample_auth capped_row) (tok_account sample_token) + 1) \<longrightarrow>
            refresh_handle env' cmd' corr' now' db1 = (ans, db2) \<longrightarrow>
            \<not> is_ok ans \<and> current_generation db2 (tok_account sample_token) =
              current_generation (sample_auth capped_row) (tok_account sample_token) + 1"
    using refresh_at_cap_locks_out [OF sample_keys ready cap(1), of 1] cap(2) by auto
  then show ?thesis
    using sample_env_facts(1,2,3) range g cap(3) by (metis auth_is_retryable.simps(3) prod.collapse add_0)
qed

end
