(* ===== verification/Account.thy ===== *)
theory Account
  imports StorageErrors "HOL-Library.Char_ord" "HOL-Library.List_Lexorder"
begin

text \<open>
  The account domain (\<open>crates/services/account/src/domain\<close>): statuses, roles and their grants, the MFA
  and GDPR entities, and the \<open>Account\<close> aggregate with all its commands.  Every \<open>Utc::now()\<close> of the
  source is an argument, two of them where a command reads the clock twice.
\<close>

section \<open>Errors\<close>

datatype account_error =
    AccStorage storage_error
  | AccValidation validation_error
  | AccountNotFound string
  | IdentityAlreadyRegistered string
  | EmailAlreadyRegistered string
  | AccNotActive string
  | InvalidStatusTransition string string
  | EmailAlreadyVerified
  | AccConcurrentModification
  | MfaAlreadyEnrolled
  | MfaNotEnrolled
  | InvalidKycTransition string string
  | GdprDeletionAlreadyRequested
  | AccountAlreadyAnonymized
  | RoleAlreadyAssigned string
  | RoleNotAssigned string
  | AccDomainViolation string string
  | AccInvalidAccountId string
  | InvalidIdentityId string
  | InvalidEmail string
  | InvalidPhone string
  | InvalidCountryCode string
  | InvalidAccountStatus string
  | InvalidKycStatus string
  | InvalidAccountRole string
  | AccEventPublishFailed string

section \<open>Value objects\<close>

datatype account_status = PendingVerification | Active | Suspended | Deactivated | Deleted

primrec account_status_as_str :: "account_status \<Rightarrow> string" where
  "account_status_as_str PendingVerification = ''pending_verification''"
| "account_status_as_str Active = ''active''"
| "account_status_as_str Suspended = ''suspended''"
| "account_status_as_str Deactivated = ''deactivated''"
| "account_status_as_str Deleted = ''deleted''"

definition account_can_transition_to :: "account_status \<Rightarrow> account_status \<Rightarrow> bool" where
  "account_can_transition_to a b \<longleftrightarrow>
     (a, b) \<in> {(PendingVerification, Active), (PendingVerification, Deleted), (Active, Suspended),
               (Active, Deactivated), (Active, Deleted), (Suspended, Active), (Suspended, Deactivated),
               (Suspended, Deleted), (Deactivated, Active), (Deactivated, Deleted)}"

definition account_status_try_from :: "string \<Rightarrow> account_error + account_status" where
  "account_status_try_from s =
     (if s = ''pending_verification'' then Inr PendingVerification
      else if s = ''active'' then Inr Active
      else if s = ''suspended'' then Inr Suspended
      else if s = ''deactivated'' then Inr Deactivated
      else if s = ''deleted'' then Inr Deleted
      else Inl (InvalidAccountStatus s))"

datatype kyc_status = NotStarted | Submitted | InReview | Approved | Rejected

primrec kyc_status_as_str :: "kyc_status \<Rightarrow> string" where
  "kyc_status_as_str NotStarted = ''not_started''"
| "kyc_status_as_str Submitted = ''submitted''"
| "kyc_status_as_str InReview = ''in_review''"
| "kyc_status_as_str Approved = ''approved''"
| "kyc_status_as_str Rejected = ''rejected''"

definition kyc_can_transition_to :: "kyc_status \<Rightarrow> kyc_status \<Rightarrow> bool" where
  "kyc_can_transition_to a b \<longleftrightarrow>
     (a, b) \<in> {(NotStarted, Submitted), (Submitted, InReview), (InReview, Approved), (InReview, Rejected),
               (Rejected, Submitted)}"

definition kyc_status_try_from :: "string \<Rightarrow> account_error + kyc_status" where
  "kyc_status_try_from s =
     (if s = ''not_started'' then Inr NotStarted
      else if s = ''submitted'' then Inr Submitted
      else if s = ''in_review'' then Inr InReview
      else if s = ''approved'' then Inr Approved
      else if s = ''rejected'' then Inr Rejected
      else Inl (InvalidKycStatus s))"

datatype account_role = User | ContentModerator | SupportAgent | FinanceOperator | Admin | SuperAdmin

primrec account_role_as_str :: "account_role \<Rightarrow> string" where
  "account_role_as_str User = ''user''"
| "account_role_as_str ContentModerator = ''content_moderator''"
| "account_role_as_str SupportAgent = ''support_agent''"
| "account_role_as_str FinanceOperator = ''finance_operator''"
| "account_role_as_str Admin = ''admin''"
| "account_role_as_str SuperAdmin = ''super_admin''"

primrec granted_permissions :: "account_role \<Rightarrow> string list" where
  "granted_permissions User = []"
| "granted_permissions ContentModerator = []"
| "granted_permissions SupportAgent = []"
| "granted_permissions FinanceOperator = []"
| "granted_permissions Admin = [''audit:read'', ''audit:verify'']"
| "granted_permissions SuperAdmin = [''audit:read'', ''audit:verify'', ''audit:export'', ''audit:record'']"

primrec privilege_level :: "account_role \<Rightarrow> u8" where
  "privilege_level User = 1"
| "privilege_level ContentModerator = 2"
| "privilege_level SupportAgent = 2"
| "privilege_level FinanceOperator = 3"
| "privilege_level Admin = 4"
| "privilege_level SuperAdmin = 5"

definition account_role_try_from :: "string \<Rightarrow> account_error + account_role" where
  "account_role_try_from s =
     (if s = ''user'' then Inr User
      else if s = ''content_moderator'' then Inr ContentModerator
      else if s = ''support_agent'' then Inr SupportAgent
      else if s = ''finance_operator'' then Inr FinanceOperator
      else if s = ''admin'' then Inr Admin
      else if s = ''super_admin'' then Inr SuperAdmin
      else Inl (InvalidAccountRole s))"

lemma account_texts_round_trip:
  "account_status_try_from (account_status_as_str st) = Inr st"
  "kyc_status_try_from (kyc_status_as_str k) = Inr k"
  "account_role_try_from (account_role_as_str r) = Inr r"
  by (cases st, simp_all add: account_status_try_from_def)
     (cases k, simp_all add: kyc_status_try_from_def,
      cases r, simp_all add: account_role_try_from_def)

text \<open>A role grants at least what every role of strictly lower privilege grants.\<close>

lemma grants_monotone:
  "privilege_level a < privilege_level b \<Longrightarrow> set (granted_permissions a) \<subseteq> set (granted_permissions b)"
  by (cases a; cases b) auto

definition identity_id_new :: "string \<Rightarrow> account_error + string" where
  "identity_id_new s =
     (if s = [] then Inl (InvalidIdentityId ''identity_id must not be empty'')
      else if 255 < length s then Inl (InvalidIdentityId ''identity_id exceeds maximum length of 255 characters'')
      else Inr s)"

text \<open>
  An e-mail address: trimmed and lowercased, then split at its last \<open>@\<close>.  \<open>lower\<close> is
  \<open>str::to_lowercase\<close>, which the Unicode tables of the standard library define.
\<close>

definition rsplit_at :: "char \<Rightarrow> string \<Rightarrow> (string \<times> string) option" where
  "rsplit_at c s =
     (if c \<in> set s
      then Some (rev (tl (dropWhile (\<lambda>x. x \<noteq> c) (rev s))), rev (takeWhile (\<lambda>x. x \<noteq> c) (rev s)))
      else None)"

definition email_new :: "(string \<Rightarrow> string) \<Rightarrow> string \<Rightarrow> account_error + string" where
  "email_new lower raw =
     (let s = lower (str_trim raw) in
      if s = [] then Inl (InvalidEmail ''email must not be empty'')
      else if 254 < length s then Inl (InvalidEmail ''email exceeds maximum length of 254 characters'')
      else if list_ex is_ws_scalar (utf8_chars s) then Inl (InvalidEmail ''email must not contain whitespace'')
      else case rsplit_at (CHR ''@'') s of
        None \<Rightarrow> Inl (InvalidEmail (''email must contain '' @ [CHR 39] @ ''@'' @ [CHR 39]))
      | Some (local, domain) \<Rightarrow>
          if local = [] then Inl (InvalidEmail ''email local part must not be empty'')
          else if domain = [] \<or> CHR ''.'' \<notin> set domain
          then Inl (InvalidEmail ''email domain part must be non-empty and contain at least one dot'')
          else if hd domain = CHR ''.'' \<or> last domain = CHR ''.''
          then Inl (InvalidEmail ''email domain must not start or end with a dot'')
          else Inr s)"

definition is_digit :: "char \<Rightarrow> bool" where
  "is_digit c \<longleftrightarrow> c \<in> set ''0123456789''"

definition phone_new :: "string \<Rightarrow> account_error + string" where
  "phone_new s =
     (if s = [] \<or> hd s \<noteq> CHR ''+''
      then Inl (InvalidPhone (''phone number must start with '' @ [CHR 39] @ ''+'' @ [CHR 39] @ '' (E.164 format)''))
      else if \<not> list_all is_digit (tl s)
      then Inl (InvalidPhone (''phone number must contain only digits after '' @ [CHR 39] @ ''+'' @ [CHR 39]))
      else if \<not> (8 \<le> length s \<and> length s \<le> 15)
      then Inl (InvalidPhone (''phone number length must be between 8 and 15 characters (got '' @ dec_string (length s) @ '')''))
      else Inr s)"

lemma phone_new_bounds: "phone_new s = Inr p \<Longrightarrow> p = s \<and> 8 \<le> length p \<and> length p \<le> 15 \<and> hd p = CHR ''+''"
  by (auto simp: phone_new_def split: if_splits)


section \<open>The MFA and GDPR entities\<close>

record mfa_state =
  mfa_enforced :: bool
  totp_secret :: "bytes option"
  totp_enrolled_at :: "datetime option"
  recovery_codes :: "string list"
  backup_verified_at :: "datetime option"

definition mfa_default :: mfa_state where
  "mfa_default =
     \<lparr>mfa_enforced = False, totp_secret = None, totp_enrolled_at = None, recovery_codes = [],
      backup_verified_at = None\<rparr>"

definition mfa_is_enrolled :: "mfa_state \<Rightarrow> bool" where
  "mfa_is_enrolled m \<longleftrightarrow> totp_secret m \<noteq> None"

definition consume_recovery_code :: "mfa_state \<Rightarrow> string \<Rightarrow> datetime \<Rightarrow> bool \<times> mfa_state" where
  "consume_recovery_code m code now =
     (if code \<in> set (recovery_codes m)
      then (True, m\<lparr>recovery_codes := remove1 code (recovery_codes m), backup_verified_at := Some now\<rparr>)
      else (False, m))"

definition mfa_enroll :: "mfa_state \<Rightarrow> bytes \<Rightarrow> string list \<Rightarrow> datetime \<Rightarrow> mfa_state" where
  "mfa_enroll m secret codes now =
     m\<lparr>totp_secret := Some secret, recovery_codes := codes, totp_enrolled_at := Some now\<rparr>"

definition mfa_revoke :: "mfa_state \<Rightarrow> mfa_state" where
  "mfa_revoke m =
     m\<lparr>totp_secret := None, totp_enrolled_at := None, recovery_codes := [], backup_verified_at := None,
       mfa_enforced := False\<rparr>"

text \<open>A recovery code is worth one use: each use removes one copy of it.\<close>

lemma recovery_code_consumed:
  "consume_recovery_code m code now = (b, m') \<Longrightarrow>
     count_list (recovery_codes m') code = count_list (recovery_codes m) code - of_bool b \<and>
     (b \<longleftrightarrow> 0 < count_list (recovery_codes m) code)"
proof -
  have "count_list (remove1 code xs) code = count_list xs code - 1" for xs :: "string list"
    by (induction xs) auto
  then show "consume_recovery_code m code now = (b, m') \<Longrightarrow> ?thesis"
    by (auto simp: consume_recovery_code_def count_list_0_iff split: if_splits intro!: gr0I)
qed

record gdpr_record =
  data_processing_consented_at :: "datetime option"
  marketing_consented_at :: "datetime option"
  consent_ip :: "string option"
  last_consent_version :: "string option"
  deletion_requested_at :: "datetime option"
  deletion_scheduled_at :: "datetime option"
  anonymized_at :: "datetime option"
  data_export_requested_at :: "datetime option"
  data_export_completed_at :: "datetime option"

definition gdpr_default :: gdpr_record where
  "gdpr_default =
     \<lparr>data_processing_consented_at = None, marketing_consented_at = None, consent_ip = None,
      last_consent_version = None, deletion_requested_at = None, deletion_scheduled_at = None,
      anonymized_at = None, data_export_requested_at = None, data_export_completed_at = None\<rparr>"

definition is_anonymized :: "gdpr_record \<Rightarrow> bool" where
  "is_anonymized g \<longleftrightarrow> anonymized_at g \<noteq> None"

definition has_pending_deletion :: "gdpr_record \<Rightarrow> bool" where
  "has_pending_deletion g \<longleftrightarrow> deletion_requested_at g \<noteq> None \<and> anonymized_at g = None"

definition nanos_per_day :: int where
  "nanos_per_day = 86400 * nanos_per_sec"

text \<open>A deadline beyond the last date of \<open>chrono\<close> panics; the gRPC entry, the only caller, passes 30 days.\<close>

definition request_deletion :: "gdpr_record \<Rightarrow> u32 \<Rightarrow> datetime \<Rightarrow> gdpr_record" where
  "request_deletion g days now =
     g\<lparr>deletion_requested_at := Some now, deletion_scheduled_at := Some (now + uint days * nanos_per_day)\<rparr>"

section \<open>Domain events\<close>

datatype account_event =
    AccountCreated uuid string string account_role account_status "string option" datetime uuid
  | EvEmailVerified uuid string datetime datetime uuid
  | EvPhoneChanged uuid "string option" datetime uuid
  | EvPasswordChanged uuid datetime uuid
  | EvEmailChanged uuid string string datetime uuid
  | EvMfaEnrolled uuid nat datetime uuid
  | EvMfaRevoked uuid datetime uuid
  | EvRoleAssigned uuid account_role datetime uuid
  | EvRoleRevoked uuid account_role datetime uuid
  | EvAccountSuspended uuid string datetime uuid
  | EvAccountActivated uuid datetime uuid
  | EvAccountDeactivated uuid datetime uuid
  | EvAccountDeleted uuid "uuid option" datetime uuid
  | EvKycStatusChanged uuid kyc_status kyc_status datetime uuid
  | EvGdprDeletionRequested uuid u32 datetime datetime uuid
  | EvGdprDataExportRequested uuid datetime datetime uuid

section \<open>The aggregate\<close>

record account_create_params =
  cp_identity :: string
  cp_email :: string
  cp_password :: "string option"
  cp_phone :: "string option"
  cp_role :: account_role
  cp_country :: "string option"
  cp_created_by :: "uuid option"
  cp_correlation :: uuid

record account =
  acc_id :: uuid
  acc_version :: i64
  acc_status :: account_status
  suspension_reason :: "string option"
  deactivated_at :: "datetime option"
  identity_id :: string
  acc_email :: string
  email_verified :: bool
  email_verified_at :: "datetime option"
  acc_phone :: "string option"
  phone_verified :: bool
  phone_verified_at :: "datetime option"
  password_hash :: "string option"
  password_changed_at :: "datetime option"
  failed_login_attempts :: int
  locked_until :: "datetime option"
  last_login_at :: "datetime option"
  acc_mfa :: mfa_state
  acc_kyc :: kyc_status
  kyc_reviewed_at :: "datetime option"
  kyc_reviewer_id :: "uuid option"
  date_of_birth :: "int option"
  country_of_residence :: "string option"
  acc_gdpr :: gdpr_record
  acc_roles :: "account_role list"
  permission_overrides :: "string list"
  created_by :: "uuid option"
  created_at :: datetime
  updated_at :: datetime
  acc_pending :: "account_event list"


definition account_create :: "uuid \<Rightarrow> datetime \<Rightarrow> account_create_params \<Rightarrow> account" where
  "account_create fresh now p =
     \<lparr>acc_id = fresh, acc_version = 0, acc_status = PendingVerification, suspension_reason = None,
      deactivated_at = None, identity_id = cp_identity p, acc_email = cp_email p, email_verified = False,
      email_verified_at = None, acc_phone = cp_phone p, phone_verified = False, phone_verified_at = None,
      password_hash = cp_password p, password_changed_at = None, failed_login_attempts = 0,
      locked_until = None, last_login_at = None, acc_mfa = mfa_default, acc_kyc = NotStarted,
      kyc_reviewed_at = None, kyc_reviewer_id = None, date_of_birth = None,
      country_of_residence = cp_country p, acc_gdpr = gdpr_default, acc_roles = [cp_role p],
      permission_overrides = [], created_by = cp_created_by p, created_at = now, updated_at = now,
      acc_pending = [AccountCreated fresh (cp_identity p) (cp_email p) (cp_role p) PendingVerification
                       (cp_country p) now (cp_correlation p)]\<rparr>"

definition require_active :: "account \<Rightarrow> account_error + unit" where
  "require_active a =
     (if acc_status a \<noteq> Active then Inl (AccNotActive (account_status_as_str (acc_status a))) else Inr ())"

definition transition_status :: "account \<Rightarrow> account_status \<Rightarrow> account_error + account" where
  "transition_status a nxt =
     (if \<not> account_can_transition_to (acc_status a) nxt
      then Inl (InvalidStatusTransition (account_status_as_str (acc_status a)) (account_status_as_str nxt))
      else Inr (a\<lparr>acc_status := nxt\<rparr>))"

text \<open>The version counts the saves from 0, one per command; the overflow of \<open>i64\<close> is not modelled.\<close>

definition acc_touch :: "datetime \<Rightarrow> account \<Rightarrow> account" where
  "acc_touch now a = a\<lparr>acc_version := acc_version a + 1, updated_at := now\<rparr>"

definition acc_push :: "account_event \<Rightarrow> account \<Rightarrow> account" where
  "acc_push e a = a\<lparr>acc_pending := acc_pending a @ [e]\<rparr>"

definition verify_email :: "account \<Rightarrow> datetime \<Rightarrow> uuid \<Rightarrow> account_error + account" where
  "verify_email a now corr =
     (if email_verified a then Inl EmailAlreadyVerified
      else bind_res (transition_status a Active) (\<lambda>a1.
        Inr (acc_push (EvEmailVerified (acc_id a) (acc_email a) now now corr)
               (acc_touch now (a1\<lparr>email_verified := True, email_verified_at := Some now\<rparr>)))))"

definition verify_phone :: "account \<Rightarrow> datetime \<Rightarrow> uuid \<Rightarrow> account_error + account" where
  "verify_phone a now corr =
     bind_res (require_active a) (\<lambda>_.
       if acc_phone a = None then Inl (AccDomainViolation ''phone'' ''no phone number is set on this account'')
       else Inr (acc_push (EvPhoneChanged (acc_id a) (acc_phone a) now corr)
                   ((acc_touch now a)\<lparr>phone_verified := True, phone_verified_at := Some now\<rparr>)))"

definition change_password :: "account \<Rightarrow> string \<Rightarrow> datetime \<Rightarrow> uuid \<Rightarrow> account_error + account" where
  "change_password a h now corr =
     bind_res (require_active a) (\<lambda>_.
       Inr (acc_push (EvPasswordChanged (acc_id a) now corr)
              ((acc_touch now (a\<lparr>password_hash := Some h\<rparr>))\<lparr>password_changed_at := Some now\<rparr>)))"

definition change_email :: "account \<Rightarrow> string \<Rightarrow> datetime \<Rightarrow> uuid \<Rightarrow> account_error + account" where
  "change_email a new_email now corr =
     bind_res (require_active a) (\<lambda>_.
       Inr (acc_push (EvEmailChanged (acc_id a) (acc_email a) new_email now corr)
              (acc_touch now (a\<lparr>acc_email := new_email, email_verified := False, email_verified_at := None\<rparr>))))"

definition change_phone :: "account \<Rightarrow> string option \<Rightarrow> datetime \<Rightarrow> uuid \<Rightarrow> account_error + account" where
  "change_phone a new_phone now corr =
     bind_res (require_active a) (\<lambda>_.
       Inr (acc_push (EvPhoneChanged (acc_id a) new_phone now corr)
              (acc_touch now (a\<lparr>acc_phone := new_phone, phone_verified := False, phone_verified_at := None\<rparr>))))"

definition enroll_mfa ::
  "account \<Rightarrow> bytes \<Rightarrow> string list \<Rightarrow> datetime \<Rightarrow> datetime \<Rightarrow> uuid \<Rightarrow> account_error + account" where
  "enroll_mfa a secret codes t1 now corr =
     bind_res (require_active a) (\<lambda>_.
       if mfa_is_enrolled (acc_mfa a) then Inl MfaAlreadyEnrolled
       else Inr (acc_push (EvMfaEnrolled (acc_id a) (length codes) now corr)
                   (acc_touch now (a\<lparr>acc_mfa := mfa_enroll (acc_mfa a) secret codes t1\<rparr>))))"

definition revoke_mfa :: "account \<Rightarrow> datetime \<Rightarrow> uuid \<Rightarrow> account_error + account" where
  "revoke_mfa a now corr =
     bind_res (require_active a) (\<lambda>_.
       if \<not> mfa_is_enrolled (acc_mfa a) then Inl MfaNotEnrolled
       else Inr (acc_push (EvMfaRevoked (acc_id a) now corr)
                   (acc_touch now (a\<lparr>acc_mfa := mfa_revoke (acc_mfa a)\<rparr>))))"

definition assign_role :: "account \<Rightarrow> account_role \<Rightarrow> datetime \<Rightarrow> uuid \<Rightarrow> account_error + account" where
  "assign_role a role now corr =
     (if role \<in> set (acc_roles a) then Inl (RoleAlreadyAssigned (account_role_as_str role))
      else Inr (acc_push (EvRoleAssigned (acc_id a) role now corr)
                  (acc_touch now (a\<lparr>acc_roles := acc_roles a @ [role]\<rparr>))))"

definition revoke_role :: "account \<Rightarrow> account_role \<Rightarrow> datetime \<Rightarrow> uuid \<Rightarrow> account_error + account" where
  "revoke_role a role now corr =
     (if role \<notin> set (acc_roles a) then Inl (RoleNotAssigned (account_role_as_str role))
      else if length (acc_roles a) = 1
      then Inl (AccDomainViolation ''roles'' ''cannot revoke the last role from an account'')
      else Inr (acc_push (EvRoleRevoked (acc_id a) role now corr)
                  (acc_touch now (a\<lparr>acc_roles := remove1 role (acc_roles a)\<rparr>))))"

definition suspend :: "account \<Rightarrow> string \<Rightarrow> datetime \<Rightarrow> uuid \<Rightarrow> account_error + account" where
  "suspend a reason now corr =
     bind_res (transition_status a Suspended) (\<lambda>a1.
       Inr (acc_push (EvAccountSuspended (acc_id a) reason now corr)
              (acc_touch now (a1\<lparr>suspension_reason := Some reason\<rparr>))))"

definition activate :: "account \<Rightarrow> datetime \<Rightarrow> uuid \<Rightarrow> account_error + account" where
  "activate a now corr =
     bind_res (transition_status a Active) (\<lambda>a1.
       Inr (acc_push (EvAccountActivated (acc_id a) now corr)
              (acc_touch now (a1\<lparr>suspension_reason := None\<rparr>))))"

definition deactivate :: "account \<Rightarrow> datetime \<Rightarrow> uuid \<Rightarrow> account_error + account" where
  "deactivate a now corr =
     bind_res (transition_status a Deactivated) (\<lambda>a1.
       Inr (acc_push (EvAccountDeactivated (acc_id a) now corr)
              ((acc_touch now a1)\<lparr>deactivated_at := Some now\<rparr>)))"

definition delete_account :: "account \<Rightarrow> uuid option \<Rightarrow> datetime \<Rightarrow> uuid \<Rightarrow> account_error + account" where
  "delete_account a deleted_by now corr =
     bind_res (transition_status a Deleted) (\<lambda>a1.
       Inr (acc_push (EvAccountDeleted (acc_id a) deleted_by now corr) (acc_touch now a1)))"

definition update_kyc_status :: "account \<Rightarrow> kyc_status \<Rightarrow> uuid \<Rightarrow> datetime \<Rightarrow> uuid \<Rightarrow> account_error + account" where
  "update_kyc_status a new_status reviewer now corr =
     (if \<not> kyc_can_transition_to (acc_kyc a) new_status
      then Inl (InvalidKycTransition (kyc_status_as_str (acc_kyc a)) (kyc_status_as_str new_status))
      else Inr (acc_push (EvKycStatusChanged (acc_id a) (acc_kyc a) new_status now corr)
                  (acc_touch now (a\<lparr>acc_kyc := new_status, kyc_reviewed_at := Some now,
                                    kyc_reviewer_id := Some reviewer\<rparr>))))"

definition request_gdpr_deletion :: "account \<Rightarrow> u32 \<Rightarrow> datetime \<Rightarrow> datetime \<Rightarrow> uuid \<Rightarrow> account_error + account" where
  "request_gdpr_deletion a days t1 now corr =
     (if has_pending_deletion (acc_gdpr a) then Inl GdprDeletionAlreadyRequested
      else let g = request_deletion (acc_gdpr a) days t1 in
        Inr (acc_push (EvGdprDeletionRequested (acc_id a) days (the (deletion_scheduled_at g)) now corr)
               (acc_touch now (a\<lparr>acc_gdpr := g\<rparr>))))"

definition request_gdpr_data_export :: "account \<Rightarrow> datetime \<Rightarrow> uuid \<Rightarrow> account_error + account" where
  "request_gdpr_data_export a now corr =
     (let a1 = acc_touch now a in
      Inr (acc_push (EvGdprDataExportRequested (acc_id a) now now corr)
             (a1\<lparr>acc_gdpr := (acc_gdpr a1)\<lparr>data_export_requested_at := Some now\<rparr>\<rparr>)))"

definition anonymize :: "account \<Rightarrow> datetime \<Rightarrow> uuid \<Rightarrow> account_error + account" where
  "anonymize a now corr =
     (if is_anonymized (acc_gdpr a) then Inl AccountAlreadyAnonymized
      else let a1 = a\<lparr>acc_gdpr := (acc_gdpr a)\<lparr>anonymized_at := Some now\<rparr>, acc_phone := None,
                      phone_verified := False, phone_verified_at := None, password_hash := None,
                      date_of_birth := None, acc_mfa := mfa_revoke (acc_mfa a)\<rparr>;
               a2 = (case transition_status a1 Deleted of Inl _ \<Rightarrow> a1 | Inr a' \<Rightarrow> a')
           in Inr (acc_push (EvAccountDeleted (acc_id a) None now corr) (acc_touch now a2)))"

definition record_login :: "account \<Rightarrow> datetime \<Rightarrow> account" where
  "record_login a now =
     acc_touch now (a\<lparr>failed_login_attempts := 0, locked_until := None, last_login_at := Some now\<rparr>)"

text \<open>
  \<open>failed_login_attempts\<close> is an \<open>i32\<close>, whose \<open>+= 1\<close> wraps in a release build; the comparison casts
  it to \<open>u16\<close>, so it is taken modulo \<open>2 ^ 16\<close>.  \<open>lockout_duration_secs as i64\<close> is the signed reading
  of the word.  A lockout beyond the last date of \<open>chrono\<close> (year 262142) panics, which is not modelled:
  the gRPC entry, the only caller, passes 900 seconds.
\<close>

definition wrap_i32 :: "int \<Rightarrow> int" where
  "wrap_i32 n = sint (of_int n :: 32 word)"

definition record_failed_login :: "account \<Rightarrow> u16 \<Rightarrow> u64 \<Rightarrow> datetime \<Rightarrow> datetime \<Rightarrow> account" where
  "record_failed_login a max_attempts lockout t1 now =
     (let n = wrap_i32 (failed_login_attempts a + 1);
          a1 = a\<lparr>failed_login_attempts := n\<rparr>;
          a2 = (if max_attempts \<le> (of_int n :: u16)
                then a1\<lparr>locked_until := Some (t1 + sint lockout * nanos_per_sec)\<rparr> else a1)
      in acc_touch now a2)"

definition is_locked :: "account \<Rightarrow> datetime \<Rightarrow> bool" where
  "is_locked a now = (case locked_until a of None \<Rightarrow> False | Some u \<Rightarrow> now < u)"

definition acc_drain_events :: "account \<Rightarrow> account_event list \<times> account" where
  "acc_drain_events a = (acc_pending a, a\<lparr>acc_pending := []\<rparr>)"

text \<open>\<open>sort_unstable\<close> and \<open>dedup\<close> on the byte order of strings.\<close>

definition effective_permissions :: "account \<Rightarrow> string list" where
  "effective_permissions a =
     remdups_adj (sort (concat (map granted_permissions (acc_roles a)) @ permission_overrides a))"

end
