(* ===== verification/AccountLife.thy ===== *)
theory AccountLife
  imports Account
begin

text \<open>
  The life cycle of an account: the commands of the aggregate keep its invariant, its status follows
  the transition graph, erasure is permanent, and what a suspension does and does not survive.
\<close>

section \<open>The life cycle of an account\<close>

datatype account_cmd =
    VerifyEmail datetime uuid
  | VerifyPhone datetime uuid
  | ChangePassword string datetime uuid
  | ChangeEmail string datetime uuid
  | ChangePhone "string option" datetime uuid
  | EnrollMfa bytes "string list" datetime datetime uuid
  | RevokeMfa datetime uuid
  | AssignRole account_role datetime uuid
  | RevokeRole account_role datetime uuid
  | Suspend string datetime uuid
  | Activate datetime uuid
  | Deactivate datetime uuid
  | DeleteAccount "uuid option" datetime uuid
  | UpdateKyc kyc_status uuid datetime uuid
  | RequestGdprDeletion u32 datetime datetime uuid
  | RequestDataExport datetime uuid
  | Anonymize datetime uuid
  | RecordLogin datetime
  | RecordFailedLogin u16 u64 datetime datetime

primrec account_exec :: "account \<Rightarrow> account_cmd \<Rightarrow> account_error + account" where
  "account_exec a (VerifyEmail now corr) = verify_email a now corr"
| "account_exec a (VerifyPhone now corr) = verify_phone a now corr"
| "account_exec a (ChangePassword h now corr) = change_password a h now corr"
| "account_exec a (ChangeEmail e now corr) = change_email a e now corr"
| "account_exec a (ChangePhone p now corr) = change_phone a p now corr"
| "account_exec a (EnrollMfa secret codes t1 now corr) = enroll_mfa a secret codes t1 now corr"
| "account_exec a (RevokeMfa now corr) = revoke_mfa a now corr"
| "account_exec a (AssignRole r now corr) = assign_role a r now corr"
| "account_exec a (RevokeRole r now corr) = revoke_role a r now corr"
| "account_exec a (Suspend reason now corr) = suspend a reason now corr"
| "account_exec a (Activate now corr) = activate a now corr"
| "account_exec a (Deactivate now corr) = deactivate a now corr"
| "account_exec a (DeleteAccount b now corr) = delete_account a b now corr"
| "account_exec a (UpdateKyc k r now corr) = update_kyc_status a k r now corr"
| "account_exec a (RequestGdprDeletion d t1 now corr) = request_gdpr_deletion a d t1 now corr"
| "account_exec a (RequestDataExport now corr) = request_gdpr_data_export a now corr"
| "account_exec a (Anonymize now corr) = anonymize a now corr"
| "account_exec a (RecordLogin now) = Inr (record_login a now)"
| "account_exec a (RecordFailedLogin m l t1 now) = Inr (record_failed_login a m l t1 now)"

definition scrubbed :: "account \<Rightarrow> bool" where
  "scrubbed a \<longleftrightarrow>
     acc_status a = Deleted \<and> acc_phone a = None \<and> \<not> phone_verified a \<and> password_hash a = None \<and>
     date_of_birth a = None \<and> \<not> mfa_is_enrolled (acc_mfa a) \<and> recovery_codes (acc_mfa a) = []"

text \<open>What holds of the second factor: a secret and an enrolment date come and go together, and
  recovery codes exist only beside a secret.\<close>

definition mfa_wf :: "mfa_state \<Rightarrow> bool" where
  "mfa_wf m \<longleftrightarrow>
     (mfa_is_enrolled m \<longleftrightarrow> totp_enrolled_at m \<noteq> None) \<and> (mfa_is_enrolled m \<or> recovery_codes m = [])"

definition account_wf :: "account \<Rightarrow> bool" where
  "account_wf a \<longleftrightarrow>
     acc_roles a \<noteq> [] \<and> distinct (acc_roles a) \<and>
     email_verified a = (email_verified_at a \<noteq> None) \<and>
     (phone_verified a \<longrightarrow> acc_phone a \<noteq> None) \<and>
     mfa_wf (acc_mfa a) \<and> (is_anonymized (acc_gdpr a) \<longrightarrow> scrubbed a)"

lemma mfa_operations_wf [simp]:
  "mfa_wf mfa_default" "mfa_wf (mfa_enroll m secret codes t1)" "mfa_wf (mfa_revoke m)"
  "\<not> mfa_is_enrolled (mfa_revoke m)" "recovery_codes (mfa_revoke m) = []"
  by (simp_all add: mfa_wf_def mfa_default_def mfa_enroll_def mfa_revoke_def mfa_is_enrolled_def)

text \<open>The two guards of the commands, evaluated.\<close>

lemma bind_require_active:
  "bind_res (require_active a) f = (if acc_status a = Active then f () else Inl (AccNotActive (account_status_as_str (acc_status a))))"
  by (simp add: require_active_def)

lemma bind_transition_status:
  "bind_res (transition_status a nxt) f =
     (if account_can_transition_to (acc_status a) nxt then f (a\<lparr>acc_status := nxt\<rparr>)
      else Inl (InvalidStatusTransition (account_status_as_str (acc_status a)) (account_status_as_str nxt)))"
  by (simp add: transition_status_def)

lemmas account_cmd_defs = verify_email_def verify_phone_def change_password_def change_email_def
  change_phone_def enroll_mfa_def revoke_mfa_def assign_role_def revoke_role_def suspend_def activate_def
  deactivate_def delete_account_def update_kyc_status_def request_gdpr_deletion_def
  request_gdpr_data_export_def anonymize_def record_login_def record_failed_login_def
  bind_require_active bind_transition_status Let_def

lemmas account_part_defs = mfa_is_enrolled_def mfa_enroll_def mfa_revoke_def is_anonymized_def
  request_deletion_def scrubbed_def

text \<open>\<open>touch\<close> and the event queue do not concern the invariant.\<close>

lemma touch_push_wf [simp]:
  "account_wf (acc_touch now a) = account_wf a" "account_wf (acc_push e a) = account_wf a"
  by (simp_all add: account_wf_def scrubbed_def acc_touch_def acc_push_def)

lemma touch_push_status [simp]:
  "acc_status (acc_touch now a) = acc_status a" "acc_status (acc_push e a) = acc_status a"
  "acc_version (acc_touch now a) = acc_version a + 1" "acc_version (acc_push e a) = acc_version a"
  "acc_id (acc_touch now a) = acc_id a" "acc_id (acc_push e a) = acc_id a"
  "acc_phone (acc_touch now a) = acc_phone a" "acc_phone (acc_push e a) = acc_phone a"
  "acc_email (acc_touch now a) = acc_email a" "acc_email (acc_push e a) = acc_email a"
  "acc_gdpr (acc_touch now a) = acc_gdpr a" "acc_gdpr (acc_push e a) = acc_gdpr a"
  by (simp_all add: acc_touch_def acc_push_def)

lemma account_create_wf: "account_wf (account_create fresh now p)"
  by (simp add: account_wf_def account_create_def gdpr_default_def is_anonymized_def)

lemma verify_email_wf: "account_wf a \<Longrightarrow> verify_email a now corr = Inr a' \<Longrightarrow> account_wf a'"
  by (clarsimp simp: account_cmd_defs split: if_splits) (auto simp: acc_touch_def account_wf_def scrubbed_def account_can_transition_to_def)

lemma verify_phone_wf: "account_wf a \<Longrightarrow> verify_phone a now corr = Inr a' \<Longrightarrow> account_wf a'"
  by (clarsimp simp: account_cmd_defs split: if_splits) (auto simp: acc_touch_def account_wf_def scrubbed_def)

lemma change_password_wf: "account_wf a \<Longrightarrow> change_password a h now corr = Inr a' \<Longrightarrow> account_wf a'"
  by (clarsimp simp: account_cmd_defs split: if_splits) (auto simp: acc_touch_def account_wf_def scrubbed_def)

lemma change_email_wf: "account_wf a \<Longrightarrow> change_email a e now corr = Inr a' \<Longrightarrow> account_wf a'"
  by (clarsimp simp: account_cmd_defs split: if_splits) (auto simp: acc_touch_def account_wf_def scrubbed_def)

lemma change_phone_wf: "account_wf a \<Longrightarrow> change_phone a p now corr = Inr a' \<Longrightarrow> account_wf a'"
  by (clarsimp simp: account_cmd_defs split: if_splits) (auto simp: acc_touch_def account_wf_def scrubbed_def)

lemma enroll_mfa_wf: "account_wf a \<Longrightarrow> enroll_mfa a secret codes t1 now corr = Inr a' \<Longrightarrow> account_wf a'"
  by (clarsimp simp: account_cmd_defs split: if_splits) (auto simp: acc_touch_def account_wf_def scrubbed_def)

lemma revoke_mfa_wf: "account_wf a \<Longrightarrow> revoke_mfa a now corr = Inr a' \<Longrightarrow> account_wf a'"
  by (clarsimp simp: account_cmd_defs split: if_splits) (auto simp: acc_touch_def account_wf_def scrubbed_def)

lemma suspend_wf: "account_wf a \<Longrightarrow> suspend a reason now corr = Inr a' \<Longrightarrow> account_wf a'"
  by (clarsimp simp: account_cmd_defs split: if_splits) (auto simp: acc_touch_def account_wf_def scrubbed_def account_can_transition_to_def)

lemma activate_wf: "account_wf a \<Longrightarrow> activate a now corr = Inr a' \<Longrightarrow> account_wf a'"
  by (clarsimp simp: account_cmd_defs split: if_splits) (auto simp: acc_touch_def account_wf_def scrubbed_def account_can_transition_to_def)

lemma deactivate_wf: "account_wf a \<Longrightarrow> deactivate a now corr = Inr a' \<Longrightarrow> account_wf a'"
  by (clarsimp simp: account_cmd_defs split: if_splits) (auto simp: acc_touch_def account_wf_def scrubbed_def account_can_transition_to_def)

lemma delete_account_wf: "account_wf a \<Longrightarrow> delete_account a d now corr = Inr a' \<Longrightarrow> account_wf a'"
  by (clarsimp simp: account_cmd_defs split: if_splits) (auto simp: acc_touch_def account_wf_def scrubbed_def account_can_transition_to_def)

lemma assign_role_wf: "account_wf a \<Longrightarrow> assign_role a r now corr = Inr a' \<Longrightarrow> account_wf a'"
  by (clarsimp simp: account_cmd_defs split: if_splits) (auto simp: acc_touch_def account_wf_def scrubbed_def)

lemma update_kyc_status_wf: "account_wf a \<Longrightarrow> update_kyc_status a k rv now corr = Inr a' \<Longrightarrow> account_wf a'"
  by (clarsimp simp: account_cmd_defs split: if_splits) (auto simp: acc_touch_def account_wf_def scrubbed_def)

lemma request_gdpr_deletion_wf: "account_wf a \<Longrightarrow> request_gdpr_deletion a d t1 now corr = Inr a' \<Longrightarrow> account_wf a'"
  by (clarsimp simp: account_cmd_defs split: if_splits) (auto simp: acc_touch_def account_wf_def scrubbed_def is_anonymized_def request_deletion_def)

lemma request_gdpr_data_export_wf: "account_wf a \<Longrightarrow> request_gdpr_data_export a now corr = Inr a' \<Longrightarrow> account_wf a'"
  by (clarsimp simp: account_cmd_defs split: if_splits) (auto simp: acc_touch_def account_wf_def scrubbed_def is_anonymized_def)

lemma record_logins_wf:
  "account_wf a \<Longrightarrow> account_wf (record_login a now)"
  "account_wf a \<Longrightarrow> account_wf (record_failed_login a m l t1 now)"
  by (simp_all add: record_login_def record_failed_login_def Let_def account_wf_def scrubbed_def acc_touch_def)

lemma remove1_keeps_one: "length xs \<noteq> 1 \<Longrightarrow> xs \<noteq> [] \<Longrightarrow> remove1 x xs \<noteq> []"
  by (cases xs) (auto simp: remove1_idem dest: arg_cong [where f = length] simp: length_remove1 split: if_splits)

lemma revoke_role_wf: "account_wf a \<Longrightarrow> revoke_role a r now corr = Inr a' \<Longrightarrow> account_wf a'"
  by (clarsimp simp: account_cmd_defs split: if_splits)
     (auto simp: acc_touch_def account_wf_def scrubbed_def dest: remove1_keeps_one [rotated, where x = r])

lemma anonymize_outcome:
  assumes "anonymize a now corr = Inr a'"
  shows "scrubbed a'" "is_anonymized (acc_gdpr a')" "acc_mfa a' = mfa_revoke (acc_mfa a)"
    "acc_email a' = acc_email a" "country_of_residence a' = country_of_residence a"
    "consent_ip (acc_gdpr a') = consent_ip (acc_gdpr a)"
    "acc_version a' = acc_version a + 1" "acc_id a' = acc_id a" "acc_roles a' = acc_roles a"
    "email_verified a' = email_verified a" "email_verified_at a' = email_verified_at a"
  using assms by (cases "acc_status a";
     clarsimp simp: anonymize_def transition_status_def account_can_transition_to_def Let_def split: if_splits;
     simp add: acc_touch_def acc_push_def scrubbed_def is_anonymized_def)+

lemma anonymize_wf: "account_wf a \<Longrightarrow> anonymize a now corr = Inr a' \<Longrightarrow> account_wf a'"
  by (simp add: account_wf_def anonymize_outcome) (simp add: anonymize_outcome(1) [unfolded scrubbed_def])

lemmas account_op_wf =
  verify_email_wf verify_phone_wf change_password_wf change_email_wf change_phone_wf enroll_mfa_wf
  revoke_mfa_wf suspend_wf activate_wf deactivate_wf delete_account_wf assign_role_wf
  update_kyc_status_wf request_gdpr_deletion_wf request_gdpr_data_export_wf
  revoke_role_wf anonymize_wf

lemma account_exec_wf: "account_wf a \<Longrightarrow> account_exec a c = Inr a' \<Longrightarrow> account_wf a'"
  by (cases c; simp; (erule (1) account_op_wf)?; hypsubst; erule record_logins_wf)

text \<open>Every successful command is one version step of the same account along the status graph.\<close>

lemma account_exec_step:
  "account_exec a c = Inr a' \<Longrightarrow> acc_version a' = acc_version a + 1 \<and> acc_id a' = acc_id a \<and>
     (acc_status a' = acc_status a \<or> account_can_transition_to (acc_status a) (acc_status a'))"
proof (cases c)
  case (Anonymize now corr)
  moreover assume "account_exec a c = Inr a'"
  ultimately show ?thesis
    using anonymize_outcome [of a now corr a']
    by (cases "acc_status a") (simp_all add: scrubbed_def account_can_transition_to_def)
qed (clarsimp simp: account_cmd_defs split: if_splits; simp add: acc_touch_def acc_push_def)+

lemmas account_exec_edge = account_exec_step [THEN conjunct2, THEN conjunct2]

interpretation acct: lifecycle account_exec account_wf acc_status account_can_transition_to
  by unfold_locales (use account_exec_wf account_exec_edge in blast)+






text \<open>
  What remains of a person in an erased account: the e-mail address, the identity of the provider,
  the country and the address the consent came from.  No command changes it any more.
\<close>

definition personal_residue ::
  "account \<Rightarrow> string \<times> string \<times> string option \<times> string option" where
  "personal_residue a = (acc_email a, identity_id a, country_of_residence a, consent_ip (acc_gdpr a))"

lemma touch_push_residue [simp]:
  "personal_residue (acc_touch now a) = personal_residue a" "personal_residue (acc_push e a) = personal_residue a"
  by (simp_all add: personal_residue_def acc_touch_def acc_push_def)

lemma anonymize_residue: "anonymize a now corr = Inr a' \<Longrightarrow> personal_residue a' = personal_residue a"
  by (cases "acc_status a";
     clarsimp simp: anonymize_def transition_status_def account_can_transition_to_def Let_def split: if_splits;
     simp add: personal_residue_def)

lemma erased_step:
  assumes "account_wf a" "is_anonymized (acc_gdpr a)" "account_exec a c = Inr a'"
  shows "is_anonymized (acc_gdpr a') \<and> personal_residue a' = personal_residue a"
proof -
  have "acc_status a = Deleted" using assms by (simp add: account_wf_def scrubbed_def)
  then show ?thesis using assms(2,3)
    by (cases c; clarsimp simp: account_cmd_defs account_can_transition_to_def split: if_splits)
       (simp_all add: is_anonymized_def request_deletion_def personal_residue_def acc_touch_def acc_push_def)
qed

interpretation erased: absorbing_aggregate account_exec account_wf
  "\<lambda>a. is_anonymized (acc_gdpr a)" personal_residue
  by unfold_locales (rule erased_step)

section \<open>Properties\<close>


definition sample_account_params :: account_create_params where
  "sample_account_params = \<lparr>cp_identity = ''kc-1'', cp_email = ''a@b.io'', cp_password = Some ''h'', cp_phone = None,
     cp_role = User, cp_country = Some ''FR'', cp_created_by = None, cp_correlation = 9\<rparr>"


text \<open>
  C30. Erasure is permanent, and it is partial.  After a successful \<open>anonymize\<close>, and whatever commands
  follow it, the account stays anonymised and deleted with no phone, password, birth date or second
  factor.  But the e-mail address, the identity, the country and the consent address are for ever
  those of the account before the erasure: \<open>anonymize\<close> never uses \<open>EmailAddress::anonymised\<close>.
\<close>

theorem erasure_is_permanent:
  assumes "account_wf a" "anonymize a now corr = Inr a'"
  shows "is_anonymized (acc_gdpr (run_cmds account_exec a' cs)) \<and> scrubbed (run_cmds account_exec a' cs) \<and>
    personal_residue (run_cmds account_exec a' cs) = personal_residue a"
proof -
  have wf: "account_wf a'" using assms by (rule anonymize_wf)
  have "is_anonymized (acc_gdpr (run_cmds account_exec a' cs)) \<and>
      personal_residue (run_cmds account_exec a' cs) = personal_residue a'"
    using wf anonymize_outcome(2) [OF assms(2)] by (rule erased.run_final)
  moreover have "account_wf (run_cmds account_exec a' cs)" using wf by (rule acct.run_inv)
  ultimately show ?thesis using anonymize_residue [OF assms(2)] by (simp add: account_wf_def)
qed

theorem erasure_is_permanent_witness:
  "account_wf (account_create 1 0 sample_account_params) \<and>
   (\<exists>a'. anonymize (account_create 1 0 sample_account_params) 5 9 = Inr a' \<and>
     scrubbed (run_cmds account_exec a' [AssignRole Admin 6 9, RecordLogin 7]) \<and>
     acc_email (run_cmds account_exec a' [AssignRole Admin 6 9, RecordLogin 7]) = ''a@b.io'')"
proof -
  let ?a = "account_create 1 0 sample_account_params"
  let ?a' = "projr (anonymize ?a 5 9)"
  have wf: "account_wf ?a" by (rule account_create_wf)
  have ok: "anonymize ?a 5 9 = Inr ?a'" by code_simp
  have "acc_email ?a = ''a@b.io''" by code_simp
  then show ?thesis
    using wf ok erasure_is_permanent [OF wf ok, of "[AssignRole Admin 6 9, RecordLogin 7]"]
    by (intro conjI exI [of _ ?a']) (simp_all add: personal_residue_def)
qed

text \<open>
  C31. Verifying an e-mail address acts on the status, not only on the address.  For an account whose
  address is not verified: while it is active (after \<open>change_email\<close>, or activated without
  verification) \<open>verify_email\<close> is refused as a transition from active to active, at any time, so the
  address can never be verified; while it is suspended \<open>verify_email\<close> succeeds and makes it active
  again, without \<open>activate\<close> and with the suspension reason still recorded.
\<close>

theorem verify_email_by_status:
  assumes "\<not> email_verified a"
  shows "(acc_status a = Active \<longrightarrow>
           verify_email a now corr = Inl (InvalidStatusTransition ''active'' ''active'')) \<and>
    (acc_status a = Suspended \<longrightarrow>
      (\<exists>a'. verify_email a now corr = Inr a' \<and> acc_status a' = Active \<and> email_verified a' \<and>
         suspension_reason a' = suspension_reason a))"
  using assms by (simp add: verify_email_def bind_transition_status account_can_transition_to_def)
    (simp add: acc_touch_def acc_push_def)

theorem verify_email_by_status_witness:
  "acc_status (run_cmds account_exec (account_create 1 0 sample_account_params) [Activate 1 9, Suspend ''spam'' 2 9]) = Suspended \<and>
   (\<exists>a'. verify_email (run_cmds account_exec (account_create 1 0 sample_account_params) [Activate 1 9, Suspend ''spam'' 2 9]) 3 9
       = Inr a' \<and> acc_status a' = Active \<and> suspension_reason a' = Some ''spam'')"
proof -
  let ?a = "run_cmds account_exec (account_create 1 0 sample_account_params) [Activate 1 9, Suspend ''spam'' 2 9]"
  have "\<not> email_verified ?a" "acc_status ?a = Suspended" "suspension_reason ?a = Some ''spam''"
    by code_simp+
  then show ?thesis using verify_email_by_status [of ?a 3 9] by (metis (no_types))
qed

end
