(* ===== verification/AccountStore.thy ===== *)
theory AccountStore
  imports AccountLife
begin

text \<open>
  The accounts table and its adapter (\<open>crates/services/account/src/infrastructure/persistence\<close>): the
  flat row, its decoding into the aggregate, the optimistic save and the lookups.

  The table is a list of rows.  A statement fails exactly on the primary key, the two unique indexes
  and the version check of the SQL; lost connections and shard routing are not modelled.  A timestamp
  of the aggregate has nanoseconds, a \<open>TIMESTAMPTZ\<close> column microseconds: \<open>column_time\<close> is what the
  driver and the column keep of it.  \<open>to_lowercase\<close> and \<open>to_uppercase\<close> are those of \<open>str\<close>, given by the
  Unicode tables of the standard library.
\<close>

section \<open>Rows\<close>

record account_row =
  row_id :: uuid
  row_identity_id :: string
  row_status :: string
  row_suspension_reason :: "string option"
  row_deactivated_at :: "datetime option"
  row_email :: string
  row_email_verified :: bool
  row_email_verified_at :: "datetime option"
  row_phone :: "string option"
  row_phone_verified :: bool
  row_phone_verified_at :: "datetime option"
  row_password_hash :: "string option"
  row_password_changed_at :: "datetime option"
  row_failed_login_attempts :: int
  row_locked_until :: "datetime option"
  row_last_login_at :: "datetime option"
  row_mfa_enforced :: bool
  row_mfa_totp_secret :: "bytes option"
  row_mfa_totp_enrolled_at :: "datetime option"
  row_mfa_recovery_codes :: "string list"
  row_mfa_backup_verified_at :: "datetime option"
  row_kyc_status :: string
  row_kyc_reviewed_at :: "datetime option"
  row_kyc_reviewer_id :: "uuid option"
  row_date_of_birth :: "int option"
  row_country_of_residence :: "string option"
  row_gdpr_data_processing_consented_at :: "datetime option"
  row_gdpr_marketing_consented_at :: "datetime option"
  row_gdpr_consent_ip :: "string option"
  row_gdpr_last_consent_version :: "string option"
  row_gdpr_deletion_requested_at :: "datetime option"
  row_gdpr_deletion_scheduled_at :: "datetime option"
  row_gdpr_anonymized_at :: "datetime option"
  row_gdpr_data_export_requested_at :: "datetime option"
  row_gdpr_data_export_completed_at :: "datetime option"
  row_roles :: "string list"
  row_permission_overrides :: "string list"
  row_version :: i64
  row_created_at :: datetime
  row_updated_at :: datetime
  row_created_by :: "uuid option"

text \<open>\<open>failed_login_attempts() as i16\<close>: the low sixteen bits, read as a signed number.\<close>

definition wrap_i16 :: "int \<Rightarrow> int" where
  "wrap_i16 n = sint (of_int n :: 16 word)"

text \<open>What the adapter and the handlers take from outside the repository.\<close>

record account_env =
  to_lowercase :: "string \<Rightarrow> string"
  to_uppercase :: "string \<Rightarrow> string"
  debug_str :: "string \<Rightarrow> string"
  column_time :: "datetime \<Rightarrow> datetime"
  acc_parse_uuid :: "string \<Rightarrow> uuid option"
  acc_publish_fault :: "account_event \<Rightarrow> account_error option"

definition is_ascii_alphabetic :: "char \<Rightarrow> bool" where
  "is_ascii_alphabetic c \<longleftrightarrow>
     (65 \<le> byte_val c \<and> byte_val c \<le> 90) \<or> (97 \<le> byte_val c \<and> byte_val c \<le> 122)"

definition country_code_new :: "account_env \<Rightarrow> string \<Rightarrow> account_error + string" where
  "country_code_new env value =
     (let s = to_uppercase env (str_trim value) in
      if length s \<noteq> 2 \<or> \<not> list_all is_ascii_alphabetic s
      then Inl (InvalidCountryCode (''country code must be exactly 2 ASCII letters (got '' @ debug_str env s @ '')''))
      else Inr s)"

text \<open>The \<open>INSERT\<close>: every column from the aggregate, the version 1.\<close>

definition row_insert :: "account_env \<Rightarrow> account \<Rightarrow> account_row" where
  "row_insert env a =
     (let col = map_option (column_time env) in
     \<lparr>row_id = acc_id a, row_identity_id = identity_id a,
      row_status = account_status_as_str (acc_status a), row_suspension_reason = suspension_reason a,
      row_deactivated_at = col (deactivated_at a), row_email = acc_email a,
      row_email_verified = email_verified a, row_email_verified_at = col (email_verified_at a),
      row_phone = acc_phone a, row_phone_verified = phone_verified a,
      row_phone_verified_at = col (phone_verified_at a), row_password_hash = password_hash a,
      row_password_changed_at = col (password_changed_at a),
      row_failed_login_attempts = wrap_i16 (failed_login_attempts a),
      row_locked_until = col (locked_until a), row_last_login_at = col (last_login_at a),
      row_mfa_enforced = mfa_enforced (acc_mfa a), row_mfa_totp_secret = totp_secret (acc_mfa a),
      row_mfa_totp_enrolled_at = col (totp_enrolled_at (acc_mfa a)),
      row_mfa_recovery_codes = recovery_codes (acc_mfa a),
      row_mfa_backup_verified_at = col (backup_verified_at (acc_mfa a)),
      row_kyc_status = kyc_status_as_str (acc_kyc a), row_kyc_reviewed_at = col (kyc_reviewed_at a),
      row_kyc_reviewer_id = kyc_reviewer_id a, row_date_of_birth = date_of_birth a,
      row_country_of_residence = country_of_residence a,
      row_gdpr_data_processing_consented_at = col (data_processing_consented_at (acc_gdpr a)),
      row_gdpr_marketing_consented_at = col (marketing_consented_at (acc_gdpr a)),
      row_gdpr_consent_ip = consent_ip (acc_gdpr a),
      row_gdpr_last_consent_version = last_consent_version (acc_gdpr a),
      row_gdpr_deletion_requested_at = col (deletion_requested_at (acc_gdpr a)),
      row_gdpr_deletion_scheduled_at = col (deletion_scheduled_at (acc_gdpr a)),
      row_gdpr_anonymized_at = col (anonymized_at (acc_gdpr a)),
      row_gdpr_data_export_requested_at = col (data_export_requested_at (acc_gdpr a)),
      row_gdpr_data_export_completed_at = col (data_export_completed_at (acc_gdpr a)),
      row_roles = map account_role_as_str (acc_roles a),
      row_permission_overrides = permission_overrides a, row_version = 1,
      row_created_at = column_time env (created_at a), row_updated_at = column_time env (updated_at a), row_created_by = created_by a\<rparr>)"

text \<open>
  The \<open>UPDATE\<close> writes every column but \<open>id\<close>, \<open>identity_id\<close>, \<open>created_at\<close> and \<open>created_by\<close>; it counts the
  version up itself and stamps the database clock.
\<close>

definition row_update :: "account_env \<Rightarrow> datetime \<Rightarrow> account \<Rightarrow> account_row \<Rightarrow> account_row" where
  "row_update env db_now a r =
     (let col = map_option (column_time env) in
     r\<lparr>row_status := account_status_as_str (acc_status a),
         row_suspension_reason := suspension_reason a, row_deactivated_at := col (deactivated_at a),
         row_email := acc_email a, row_email_verified := email_verified a,
         row_email_verified_at := col (email_verified_at a), row_phone := acc_phone a,
         row_phone_verified := phone_verified a, row_phone_verified_at := col (phone_verified_at a),
         row_password_hash := password_hash a, row_password_changed_at := col (password_changed_at a),
         row_failed_login_attempts := wrap_i16 (failed_login_attempts a),
         row_locked_until := col (locked_until a), row_last_login_at := col (last_login_at a),
         row_mfa_enforced := mfa_enforced (acc_mfa a), row_mfa_totp_secret := totp_secret (acc_mfa a),
         row_mfa_totp_enrolled_at := col (totp_enrolled_at (acc_mfa a)),
         row_mfa_recovery_codes := recovery_codes (acc_mfa a),
         row_mfa_backup_verified_at := col (backup_verified_at (acc_mfa a)),
         row_kyc_status := kyc_status_as_str (acc_kyc a), row_kyc_reviewed_at := col (kyc_reviewed_at a),
         row_kyc_reviewer_id := kyc_reviewer_id a, row_date_of_birth := date_of_birth a,
         row_country_of_residence := country_of_residence a,
         row_gdpr_data_processing_consented_at := col (data_processing_consented_at (acc_gdpr a)),
         row_gdpr_marketing_consented_at := col (marketing_consented_at (acc_gdpr a)),
         row_gdpr_consent_ip := consent_ip (acc_gdpr a),
         row_gdpr_last_consent_version := last_consent_version (acc_gdpr a),
         row_gdpr_deletion_requested_at := col (deletion_requested_at (acc_gdpr a)),
         row_gdpr_deletion_scheduled_at := col (deletion_scheduled_at (acc_gdpr a)),
         row_gdpr_anonymized_at := col (anonymized_at (acc_gdpr a)),
         row_gdpr_data_export_requested_at := col (data_export_requested_at (acc_gdpr a)),
         row_gdpr_data_export_completed_at := col (data_export_completed_at (acc_gdpr a)),
         row_roles := map account_role_as_str (acc_roles a),
         row_permission_overrides := permission_overrides a, row_version := row_version r + 1,
         row_updated_at := db_now\<rparr>)"

text \<open>\<open>TryFrom<AccountRow> for Account\<close>: value objects are validated again, in this order.\<close>

definition account_of_row :: "account_env \<Rightarrow> account_row \<Rightarrow> account_error + account" where
  "account_of_row env r =
     bind_res (identity_id_new (row_identity_id r)) (\<lambda>ident.
     bind_res (err_const (InvalidAccountStatus (row_status r)) (account_status_try_from (row_status r))) (\<lambda>st.
     bind_res (email_new (to_lowercase env) (row_email r)) (\<lambda>email.
     bind_res (opt_res phone_new (row_phone r)) (\<lambda>phone.
     bind_res (err_const (InvalidKycStatus (row_kyc_status r)) (kyc_status_try_from (row_kyc_status r))) (\<lambda>kyc.
     bind_res (opt_res (country_code_new env) (row_country_of_residence r)) (\<lambda>country.
     bind_res (collect_res (\<lambda>s. err_const (InvalidAccountRole s) (account_role_try_from s)) (row_roles r)) (\<lambda>roles.
       Inr \<lparr>acc_id = row_id r, acc_version = row_version r, acc_status = st,
            suspension_reason = row_suspension_reason r, deactivated_at = row_deactivated_at r,
            identity_id = ident, acc_email = email, email_verified = row_email_verified r,
            email_verified_at = row_email_verified_at r, acc_phone = phone,
            phone_verified = row_phone_verified r, phone_verified_at = row_phone_verified_at r,
            password_hash = row_password_hash r, password_changed_at = row_password_changed_at r,
            failed_login_attempts = row_failed_login_attempts r, locked_until = row_locked_until r,
            last_login_at = row_last_login_at r,
            acc_mfa = \<lparr>mfa_enforced = row_mfa_enforced r, totp_secret = row_mfa_totp_secret r,
                       totp_enrolled_at = row_mfa_totp_enrolled_at r, recovery_codes = row_mfa_recovery_codes r,
                       backup_verified_at = row_mfa_backup_verified_at r\<rparr>,
            acc_kyc = kyc, kyc_reviewed_at = row_kyc_reviewed_at r, kyc_reviewer_id = row_kyc_reviewer_id r,
            date_of_birth = row_date_of_birth r, country_of_residence = country,
            acc_gdpr = \<lparr>data_processing_consented_at = row_gdpr_data_processing_consented_at r,
                        marketing_consented_at = row_gdpr_marketing_consented_at r,
                        consent_ip = row_gdpr_consent_ip r, last_consent_version = row_gdpr_last_consent_version r,
                        deletion_requested_at = row_gdpr_deletion_requested_at r,
                        deletion_scheduled_at = row_gdpr_deletion_scheduled_at r,
                        anonymized_at = row_gdpr_anonymized_at r,
                        data_export_requested_at = row_gdpr_data_export_requested_at r,
                        data_export_completed_at = row_gdpr_data_export_completed_at r\<rparr>,
            acc_roles = roles, permission_overrides = row_permission_overrides r,
            created_by = row_created_by r, created_at = row_created_at r, updated_at = row_updated_at r,
            acc_pending = []\<rparr>)))))))"

section \<open>The repository\<close>

record account_db =
  acc_rows :: "account_row list"
  acc_published :: "account_event list"

type_synonym 'a account_step = "account_db \<Rightarrow> (account_error + 'a) \<times> account_db"

definition pg_account_insert :: "account_env \<Rightarrow> account \<Rightarrow> account_db \<Rightarrow> account_error + account_db" where
  "pg_account_insert env a db =
     (if acc_id a \<in> row_id ` set (acc_rows db) then Inl (AccStorage (UniqueViolation ''accounts_pkey''))
      else if identity_id a \<in> row_identity_id ` set (acc_rows db)
      then Inl (AccStorage (UniqueViolation ''accounts_identity_id_uidx''))
      else if acc_email a \<in> row_email ` set (acc_rows db)
      then Inl (AccStorage (UniqueViolation ''accounts_email_uidx''))
      else Inr (db\<lparr>acc_rows := acc_rows db @ [row_insert env a]\<rparr>))"

definition row_matches :: "account \<Rightarrow> account_row \<Rightarrow> bool" where
  "row_matches a r \<longleftrightarrow> row_id r = acc_id a \<and> row_version r = acc_version a - 1"

definition pg_account_update :: "account_env \<Rightarrow> datetime \<Rightarrow> account \<Rightarrow> account_db \<Rightarrow> account_error + account_db" where
  "pg_account_update env db_now a db =
     (if \<not> list_ex (row_matches a) (acc_rows db) then Inl AccConcurrentModification
      else if list_ex (\<lambda>r. row_id r \<noteq> acc_id a \<and> row_email r = acc_email a) (acc_rows db)
      then Inl (AccStorage (UniqueViolation ''accounts_email_uidx''))
      else Inr (db\<lparr>acc_rows := map (\<lambda>r. if row_matches a r then row_update env db_now a r else r) (acc_rows db)\<rparr>))"

definition acc_publish :: "account_env \<Rightarrow> account_event \<Rightarrow> unit account_step" where
  "acc_publish env e db =
     (case acc_publish_fault env e of
        Some err \<Rightarrow> (Inl err, db)
      | None \<Rightarrow> (Inr (), db\<lparr>acc_published := acc_published db @ [e]\<rparr>))"

definition account_save :: "account_env \<Rightarrow> datetime \<Rightarrow> account \<Rightarrow> unit account_step" where
  "account_save env db_now a =
     st_bind (st_try (if acc_version a = 0 then pg_account_insert env a else pg_account_update env db_now a)) (\<lambda>_.
     st_each (acc_publish env) (acc_pending a))"

definition account_find_by_id :: "account_env \<Rightarrow> account_db \<Rightarrow> uuid \<Rightarrow> account_error + account option" where
  "account_find_by_id env db i =
     opt_res (account_of_row env) (find (\<lambda>r. row_id r = i) (acc_rows db))"

definition account_find_by_identity_id :: "account_env \<Rightarrow> account_db \<Rightarrow> string \<Rightarrow> account_error + account option" where
  "account_find_by_identity_id env db s =
     opt_res (account_of_row env) (find (\<lambda>r. row_identity_id r = s) (acc_rows db))"

definition account_list_by_status ::
  "account_env \<Rightarrow> account_db \<Rightarrow> account_status \<Rightarrow> nat \<Rightarrow> nat \<Rightarrow> account_error + account list" where
  "account_list_by_status env db s limit offset =
     collect_res (account_of_row env)
       (take limit (drop offset
         (sort_key (\<lambda>r. - row_created_at r) (filter (\<lambda>r. row_status r = account_status_as_str s) (acc_rows db)))))"

definition exists_by_email :: "account_db \<Rightarrow> string \<Rightarrow> bool" where
  "exists_by_email db email \<longleftrightarrow> 0 < length (filter (\<lambda>r. row_email r = email) (acc_rows db))"

definition exists_by_identity_id :: "account_db \<Rightarrow> string \<Rightarrow> bool" where
  "exists_by_identity_id db s \<longleftrightarrow> 0 < length (filter (\<lambda>r. row_identity_id r = s) (acc_rows db))"

definition count_by_status :: "account_db \<Rightarrow> account_status \<Rightarrow> nat" where
  "count_by_status db s = length (filter (\<lambda>r. row_status r = account_status_as_str s) (acc_rows db))"

section \<open>Value objects survive a round trip\<close>

lemma str_trim_no_ws: "\<not> list_ex is_ws_scalar (utf8_chars s) \<Longrightarrow> str_trim s = s"
proof -
  have id: "dropWhile P xs = xs" if "\<not> list_ex P xs" for P and xs :: "string list"
    using that by (cases xs) auto
  assume "\<not> list_ex is_ws_scalar (utf8_chars s)"
  then show ?thesis
    by (simp add: str_trim_def id list_ex_iff concat_utf8_chars)
qed

lemma alphabetic_utf8: "is_ascii_alphabetic c \<Longrightarrow> \<not> is_continuation c \<and> \<not> is_ws_scalar [c]"
  by (auto simp: is_ascii_alphabetic_def is_continuation_def is_ws_scalar_def)

lemma str_trim_two_letters:
  assumes "length s = 2" "list_all is_ascii_alphabetic s"
  shows "str_trim s = s"
proof -
  obtain a b where s: "s = [a, b]"
    using assms(1) by (auto simp: numeral_2_eq_2 length_Suc_conv)
  then show ?thesis
    using assms(2) by (intro str_trim_no_ws) (simp add: alphabetic_utf8)
qed

text \<open>Mapping to lower or upper case twice is mapping once.\<close>

definition case_maps_idempotent :: "account_env \<Rightarrow> bool" where
  "case_maps_idempotent env \<longleftrightarrow>
     (\<forall>s. to_lowercase env (to_lowercase env s) = to_lowercase env s) \<and>
     (\<forall>s. to_uppercase env (to_uppercase env s) = to_uppercase env s)"

lemma email_new_again:
  assumes "case_maps_idempotent env" "email_new (to_lowercase env) raw = Inr e"
  shows "email_new (to_lowercase env) e = Inr e"
proof -
  have "e = to_lowercase env (str_trim raw)" "\<not> list_ex is_ws_scalar (utf8_chars e)"
    using assms(2) by (auto simp: email_new_def Let_def split: if_splits option.splits)
  moreover from this have "to_lowercase env (str_trim e) = e"
    using assms(1) by (simp add: str_trim_no_ws case_maps_idempotent_def)
  ultimately show ?thesis using assms(2) by (simp add: email_new_def Let_def)
qed

lemma country_code_again:
  assumes "case_maps_idempotent env" "country_code_new env raw = Inr c"
  shows "country_code_new env c = Inr c"
proof -
  have c: "c = to_uppercase env (str_trim raw)" "length c = 2" "list_all is_ascii_alphabetic c"
    using assms(2) by (auto simp: country_code_new_def Let_def split: if_splits)
  then have "to_uppercase env (str_trim c) = c"
    using assms(1) by (simp add: str_trim_two_letters case_maps_idempotent_def)
  then show ?thesis using c by (simp add: country_code_new_def)
qed

lemma identity_id_again: "identity_id_new raw = Inr s \<Longrightarrow> s = raw"
  by (auto simp: identity_id_new_def split: if_splits)

lemma phone_again: "phone_new raw = Inr p \<Longrightarrow> phone_new p = Inr p"
  using phone_new_bounds [of raw p] by simp

text \<open>An aggregate that holds canonical value objects.\<close>

definition acc_valid :: "account_env \<Rightarrow> account \<Rightarrow> bool" where
  "acc_valid env a \<longleftrightarrow>
     identity_id_new (identity_id a) = Inr (identity_id a) \<and>
     email_new (to_lowercase env) (acc_email a) = Inr (acc_email a) \<and>
     opt_res phone_new (acc_phone a) = Inr (acc_phone a) \<and>
     opt_res (country_code_new env) (country_of_residence a) = Inr (country_of_residence a)"

text \<open>
  What a reader gets back of a saved aggregate: the timestamps the save wrote as the columns keep them.
  An update does not write \<open>created_at\<close>.
\<close>

definition stored_times :: "account_env \<Rightarrow> account \<Rightarrow> account" where
  "stored_times env a =
     (let col = map_option (column_time env) in
      a\<lparr>deactivated_at := col (deactivated_at a), email_verified_at := col (email_verified_at a),
        phone_verified_at := col (phone_verified_at a), password_changed_at := col (password_changed_at a),
        locked_until := col (locked_until a), last_login_at := col (last_login_at a),
        kyc_reviewed_at := col (kyc_reviewed_at a),
        acc_mfa := (acc_mfa a)\<lparr>totp_enrolled_at := col (totp_enrolled_at (acc_mfa a)),
          backup_verified_at := col (backup_verified_at (acc_mfa a))\<rparr>,
        acc_gdpr := (acc_gdpr a)\<lparr>data_processing_consented_at := col (data_processing_consented_at (acc_gdpr a)),
          marketing_consented_at := col (marketing_consented_at (acc_gdpr a)),
          deletion_requested_at := col (deletion_requested_at (acc_gdpr a)),
          deletion_scheduled_at := col (deletion_scheduled_at (acc_gdpr a)),
          anonymized_at := col (anonymized_at (acc_gdpr a)),
          data_export_requested_at := col (data_export_requested_at (acc_gdpr a)),
          data_export_completed_at := col (data_export_completed_at (acc_gdpr a))\<rparr>\<rparr>)"

definition settled :: "account_env \<Rightarrow> i64 \<Rightarrow> datetime \<Rightarrow> account \<Rightarrow> account" where
  "settled env v t a = (stored_times env a)\<lparr>acc_version := v, updated_at := t, acc_pending := [],
     failed_login_attempts := wrap_i16 (failed_login_attempts a)\<rparr>"

definition inserted :: "account_env \<Rightarrow> account \<Rightarrow> account" where
  "inserted env a = (settled env 1 (column_time env (updated_at a)) a)\<lparr>created_at := column_time env (created_at a)\<rparr>"

lemma enum_columns [simp]:
  "account_status_try_from (account_status_as_str s) = Inr s"
  "kyc_status_try_from (kyc_status_as_str k) = Inr k"
  "account_role_try_from (account_role_as_str r) = Inr r"
  subgoal by (cases s) (simp_all add: account_status_try_from_def)
  subgoal by (cases k) (simp_all add: kyc_status_try_from_def)
  subgoal by (cases r) (simp_all add: account_role_try_from_def)
  done

lemma role_columns: "collect_res (\<lambda>s. err_const (InvalidAccountRole s) (account_role_try_from s))
    (map account_role_as_str rs) = Inr rs"
  by (rule collect_res_map) simp

lemma read_insert: "acc_valid env a \<Longrightarrow> account_of_row env (row_insert env a) = Inr (inserted env a)"
  by (cases a) (simp add: acc_valid_def account_of_row_def row_insert_def inserted_def settled_def stored_times_def
      role_columns Let_def)

lemma read_update:
  "acc_valid env a \<Longrightarrow> row_id r = acc_id a \<Longrightarrow> row_identity_id r = identity_id a \<Longrightarrow>
   row_created_at r = created_at a \<Longrightarrow> row_created_by r = created_by a \<Longrightarrow>
   account_of_row env (row_update env t a r) = Inr (settled env (row_version r + 1) t a)"
  by (cases a) (simp add: acc_valid_def account_of_row_def row_update_def settled_def stored_times_def
      role_columns Let_def)

section \<open>The table invariant\<close>

definition row_ok :: "account_env \<Rightarrow> account_row \<Rightarrow> bool" where
  "row_ok env r \<longleftrightarrow> 1 \<le> row_version r \<and>
     (\<exists>a. account_of_row env r = Inr a \<and> account_wf a \<and> acc_valid env a \<and> acc_email a = row_email r)"

definition accounts_ok :: "account_env \<Rightarrow> account_db \<Rightarrow> bool" where
  "accounts_ok env db \<longleftrightarrow>
     distinct (map row_id (acc_rows db)) \<and> distinct (map row_identity_id (acc_rows db)) \<and>
     distinct (map row_email (acc_rows db)) \<and> (\<forall>r \<in> set (acc_rows db). row_ok env r)"

lemma account_of_row_fields:
  assumes "account_of_row env r = Inr a"
  shows "acc_id a = row_id r" "acc_version a = row_version r" "identity_id a = row_identity_id r"
    "created_at a = row_created_at r" "created_by a = row_created_by r" "acc_pending a = []"
    "updated_at a = row_updated_at r"
  using assms by (auto simp: account_of_row_def bind_res_Inr_iff dest: identity_id_again)

lemma stored_times_fields [simp]:
  "acc_id (stored_times env a) = acc_id a" "acc_email (stored_times env a) = acc_email a"
  "acc_status (stored_times env a) = acc_status a" "acc_roles (stored_times env a) = acc_roles a"
  "permission_overrides (stored_times env a) = permission_overrides a"
  "mfa_is_enrolled (acc_mfa (stored_times env a)) = mfa_is_enrolled (acc_mfa a)"
  "recovery_codes (acc_mfa (stored_times env a)) = recovery_codes (acc_mfa a)"
  "account_wf (stored_times env a) = account_wf a" "acc_valid env (stored_times env a) = acc_valid env a"
  by (simp_all add: stored_times_def account_wf_def scrubbed_def acc_valid_def mfa_wf_def mfa_is_enrolled_def
      is_anonymized_def Let_def)

lemma account_wf_sel:
  "account_wf (a\<lparr>acc_version := v, updated_at := t, acc_pending := es, failed_login_attempts := n\<rparr>) = account_wf a"
  "account_wf (a\<lparr>created_at := t\<rparr>) = account_wf a"
  by (simp_all add: account_wf_def scrubbed_def)

lemma settled_fields [simp]:
  "acc_id (settled env v t a) = acc_id a" "acc_email (settled env v t a) = acc_email a"
  "acc_status (settled env v t a) = acc_status a" "acc_version (settled env v t a) = v"
  "account_wf (settled env v t a) = account_wf a" "acc_valid env (settled env v t a) = acc_valid env a"
proof -
  show "acc_valid env (settled env v t a) = acc_valid env a"
    using stored_times_fields(9) [of env a] by (simp add: settled_def acc_valid_def)
qed (simp_all add: settled_def account_wf_sel)

lemma inserted_fields [simp]:
  "acc_id (inserted env a) = acc_id a" "acc_email (inserted env a) = acc_email a"
  "acc_status (inserted env a) = acc_status a" "acc_version (inserted env a) = 1"
  "account_wf (inserted env a) = account_wf a" "acc_valid env (inserted env a) = acc_valid env a"
proof -
  show "acc_valid env (inserted env a) = acc_valid env a"
    using settled_fields(6) [of env 1 "column_time env (updated_at a)" a] by (simp add: inserted_def acc_valid_def)
qed (simp_all add: inserted_def account_wf_sel)

lemma row_keys [simp]:
  "row_id (row_update env t a r) = row_id r" "row_identity_id (row_update env t a r) = row_identity_id r"
  "row_email (row_update env t a r) = acc_email a" "row_version (row_update env t a r) = row_version r + 1"
  "row_id (row_insert env a) = acc_id a" "row_identity_id (row_insert env a) = identity_id a"
  "row_email (row_insert env a) = acc_email a" "row_version (row_insert env a) = 1"
  by (simp_all add: row_update_def row_insert_def Let_def)

lemma find_map_key: "(\<And>x. key (f x) = key x) \<Longrightarrow>
    find (\<lambda>r. key r = k) (map f xs) = map_option f (find (\<lambda>r. key r = k) xs)"
  by (induction xs) auto

lemma find_key_unique:
  "distinct (map key xs) \<Longrightarrow> x \<in> set xs \<Longrightarrow> find (\<lambda>r. key r = key x) xs = Some x"
  by (induction xs) (auto simp: image_iff)

lemma find_key_Some: "find (\<lambda>r. key r = k) xs = Some x \<Longrightarrow> x \<in> set xs \<and> key x = k"
  by (auto simp: find_Some_iff)

lemma publish_all_rows: "st_each (acc_publish env) es db = (r, db') \<Longrightarrow> acc_rows db' = acc_rows db"
  by (induction es arbitrary: db)
     (auto simp: acc_publish_def st_bind_def st_lift_def split: prod.splits sum.splits option.splits)

lemma save_rows:
  assumes "account_save env t a db = (res, db')"
  shows "acc_rows db' = (case (if acc_version a = 0 then pg_account_insert env a db else pg_account_update env t a db) of
      Inl _ \<Rightarrow> acc_rows db | Inr d \<Rightarrow> acc_rows d)"
  using assms publish_all_rows
  by (auto simp: account_save_def st_bind_def st_try_def split: prod.splits sum.splits if_splits)

text \<open>
  The successor of a loaded aggregate: the next version of the same account, with the columns the
  \<open>UPDATE\<close> leaves alone unchanged and the e-mail kept.
\<close>

definition succeeds :: "account_env \<Rightarrow> account \<Rightarrow> account \<Rightarrow> bool" where
  "succeeds env a a' \<longleftrightarrow>
     acc_id a' = acc_id a \<and> acc_version a' = acc_version a + 1 \<and> identity_id a' = identity_id a \<and>
     created_at a' = created_at a \<and> created_by a' = created_by a \<and> acc_email a' = acc_email a \<and>
     account_wf a' \<and> acc_valid env a'"

lemma update_row:
  assumes ok: "accounts_ok env db" and r: "r \<in> set (acc_rows db)"
    and a: "account_of_row env r = Inr a" and s: "succeeds env a a'"
  and f: "f = (\<lambda>x. if row_matches a' x then row_update env t a' x else x)"
  shows "pg_account_update env t a' db = Inr (db\<lparr>acc_rows := map f (acc_rows db)\<rparr>)"
    and "f r = row_update env t a' r" and "x \<in> set (acc_rows db) \<Longrightarrow> x \<noteq> r \<Longrightarrow> f x = x"
    and "account_of_row env (f r) = Inr (settled env (acc_version a') t a')"
    and "row_email r = acc_email a'"
proof -
  note fields = account_of_row_fields [OF a]
  have match: "row_matches a' r" using s fields by (simp add: row_matches_def succeeds_def)
  have only: "x = r" if "x \<in> set (acc_rows db)" "row_id x = acc_id a'" for x
    using ok r that s fields(1) unfolding accounts_ok_def succeeds_def
    by (metis distinct_map inj_onD)
  show fr: "f r = row_update env t a' r" using match by (simp add: f)
  show "x \<in> set (acc_rows db) \<Longrightarrow> x \<noteq> r \<Longrightarrow> f x = x" using only by (auto simp: f row_matches_def)
  show mail: "row_email r = acc_email a'"
    using ok r a s by (auto simp: accounts_ok_def row_ok_def succeeds_def)
  have "\<not> list_ex (\<lambda>x. row_id x \<noteq> acc_id a' \<and> row_email x = acc_email a') (acc_rows db)"
  proof
    assume "list_ex (\<lambda>x. row_id x \<noteq> acc_id a' \<and> row_email x = acc_email a') (acc_rows db)"
    then obtain x where x: "x \<in> set (acc_rows db)" "row_id x \<noteq> acc_id a'" "row_email x = row_email r"
      using mail by (auto simp: list_ex_iff)
    then have "x = r" using ok r unfolding accounts_ok_def by (metis distinct_map inj_onD)
    then show False using x(2) s fields(1) by (simp add: succeeds_def)
  qed
  then show "pg_account_update env t a' db = Inr (db\<lparr>acc_rows := map f (acc_rows db)\<rparr>)"
    using match r by (auto simp: pg_account_update_def f list_ex_iff)
  show "account_of_row env (f r) = Inr (settled env (acc_version a') t a')"
    unfolding fr using s fields by (subst read_update) (auto simp: succeeds_def)
qed

lemma accounts_ok_map:
  assumes ok: "accounts_ok env db" and rows: "acc_rows db' = map f (acc_rows db)"
    and keys: "\<And>x. x \<in> set (acc_rows db) \<Longrightarrow>
      row_id (f x) = row_id x \<and> row_identity_id (f x) = row_identity_id x \<and> row_email (f x) = row_email x \<and> row_ok env (f x)"
  shows "accounts_ok env db'"
proof -
  have "map row_id (map f (acc_rows db)) = map row_id (acc_rows db)"
    "map row_identity_id (map f (acc_rows db)) = map row_identity_id (acc_rows db)"
    "map row_email (map f (acc_rows db)) = map row_email (acc_rows db)"
    using keys by (simp_all add: o_def)
  then show ?thesis using ok rows keys unfolding accounts_ok_def by (metis (no_types, lifting) imageE set_map)
qed

lemma find_by_id_row:
  assumes "account_find_by_id env db i = Inr (Some a)"
  obtains r where "r \<in> set (acc_rows db)" "row_id r = i" "account_of_row env r = Inr a"
    "find (\<lambda>r. row_id r = i) (acc_rows db) = Some r"
  using assms by (auto simp: account_find_by_id_def opt_res_def bind_res_Inr_iff split: option.splits
      dest: find_key_Some)

lemma save_update:
  assumes ok: "accounts_ok env db" and a: "account_find_by_id env db i = Inr (Some a)"
    and s: "succeeds env a a'" and save: "account_save env t a' db = (res, db')"
  shows "accounts_ok env db'"
    and "account_find_by_id env db' = (account_find_by_id env db)(i := Inr (Some (settled env (acc_version a') t a')))"
proof -
  obtain r where r: "r \<in> set (acc_rows db)" "row_id r = i" "account_of_row env r = Inr a"
    and fr: "find (\<lambda>r. row_id r = i) (acc_rows db) = Some r"
    using a by (rule find_by_id_row)
  let ?f = "\<lambda>x. if row_matches a' x then row_update env t a' x else x"
  note upd = update_row [OF ok r(1,3) s, where t = t, OF refl]
  have "1 \<le> acc_version a" using ok r account_of_row_fields(2) [OF r(3)] by (simp add: accounts_ok_def row_ok_def)
  then have "acc_version a' \<noteq> 0" using s by (simp add: succeeds_def)
  then have rows: "acc_rows db' = map ?f (acc_rows db)" using save_rows [OF save] upd(1) by simp
  show "accounts_ok env db'"
  proof (rule accounts_ok_map [OF ok rows])
    fix x assume x: "x \<in> set (acc_rows db)"
    show "row_id (?f x) = row_id x \<and> row_identity_id (?f x) = row_identity_id x \<and> row_email (?f x) = row_email x \<and>
        row_ok env (?f x)"
    proof (cases "x = r")
      case True
      have "1 \<le> row_version r" using ok r(1) by (simp add: accounts_ok_def row_ok_def)
      then have "1 \<le> row_version (?f r)" unfolding upd(2) by simp
      then show ?thesis unfolding True using upd(2,4,5) s by (auto simp: row_ok_def succeeds_def)
    next
      case False
      then show ?thesis using ok x upd(3) by (simp add: accounts_ok_def)
    qed
  qed
  have find': "find (\<lambda>r. row_id r = j) (acc_rows db') = map_option ?f (find (\<lambda>r. row_id r = j) (acc_rows db))" for j
    unfolding rows by (rule find_map_key) simp
  show "account_find_by_id env db' = (account_find_by_id env db)(i := Inr (Some (settled env (acc_version a') t a')))"
  proof
    fix j
    show "account_find_by_id env db' j =
        ((account_find_by_id env db)(i := Inr (Some (settled env (acc_version a') t a')))) j"
    proof (cases "j = i")
      case True
      then show ?thesis using upd(4) fr by (simp add: account_find_by_id_def find')
    next
      case False
      then have "?f x = x" if "find (\<lambda>r. row_id r = j) (acc_rows db) = Some x" for x
        using find_key_Some [OF that] upd(3) r(2) by blast
      then have "map_option ?f (find (\<lambda>r. row_id r = j) (acc_rows db)) = find (\<lambda>r. row_id r = j) (acc_rows db)"
        by (cases "find (\<lambda>r. row_id r = j) (acc_rows db)") (simp_all only: option.map)
      then show ?thesis using False by (simp add: account_find_by_id_def find')
    qed
  qed
qed

lemma save_insert:
  assumes ok: "accounts_ok env db" and a: "acc_version a = 0" "account_wf a" "acc_valid env a"
    and save: "account_save env t a db = (res, db')"
  shows "accounts_ok env db'"
    and "acc_rows db' = acc_rows db \<or>
      account_find_by_id env db (acc_id a) = Inr None \<and>
      account_find_by_id env db' = (account_find_by_id env db)(acc_id a := Inr (Some (inserted env a)))"
proof -
  have "acc_rows db' = acc_rows db \<or>
      acc_id a \<notin> row_id ` set (acc_rows db) \<and> identity_id a \<notin> row_identity_id ` set (acc_rows db) \<and>
      acc_email a \<notin> row_email ` set (acc_rows db) \<and> acc_rows db' = acc_rows db @ [row_insert env a]" (is "?same \<or> ?new")
    using save_rows [OF save] a(1) by (auto simp: pg_account_insert_def split: if_splits)
  moreover have "row_ok env (row_insert env a)" using a read_insert [OF a(3)] by (auto simp: row_ok_def)
  moreover have "find (\<lambda>r. row_id r = acc_id a) (acc_rows db) = None" if ?new
    using that by (auto simp: find_None_iff image_iff)
  moreover have find_append: "find P (xs @ ys) = (case find P xs of None \<Rightarrow> find P ys | Some x \<Rightarrow> Some x)"
    for P :: "account_row \<Rightarrow> bool" and xs ys by (induction xs) simp_all
  ultimately show "accounts_ok env db'"
    "acc_rows db' = acc_rows db \<or> account_find_by_id env db (acc_id a) = Inr None \<and>
      account_find_by_id env db' = (account_find_by_id env db)(acc_id a := Inr (Some (inserted env a)))"
    using ok read_insert [OF a(3)]
    by (auto simp: accounts_ok_def account_find_by_id_def fun_eq_iff opt_res_def split: option.splits)
qed

end
