(* ===== verification/Cqrs.thy ===== *)
theory Cqrs
  imports AppError
begin

text \<open>
  The in-process command bus (\<open>crates/platform/cqrs/src\<close>) and the validation layer
  (\<open>crates/platform/validation/src/middleware\<close>): envelopes, the registry of handlers, the middleware
  layers and the pipeline that stacks them.

  The commands of a service are one type \<open>'c\<close>; \<open>type_name\<close> gives the Rust type of a command, the key of
  the registry.  \<open>answers\<close> is the \<open>AppError\<close> implementation of the handlers' error type, \<open>validate\<close> the
  \<open>Validate\<close> implementation of the commands.  A bus is a function of the envelope and the state.
\<close>

section \<open>Envelopes\<close>

record 'c envelope =
  message_id :: uuid
  correlation_id :: uuid
  causation_id :: "uuid option"
  issued_at :: datetime
  env_metadata :: "(string, string) map"
  payload :: 'c

definition envelope_new :: "uuid \<Rightarrow> datetime \<Rightarrow> uuid \<Rightarrow> 'c \<Rightarrow> 'c envelope" where
  "envelope_new fresh now corr p =
     \<lparr>message_id = fresh, correlation_id = corr, causation_id = None, issued_at = now,
      env_metadata = Map.empty, payload = p\<rparr>"

definition new_caused_by :: "uuid \<Rightarrow> datetime \<Rightarrow> 'p envelope \<Rightarrow> 'c \<Rightarrow> 'c envelope" where
  "new_caused_by fresh now parent p =
     \<lparr>message_id = fresh, correlation_id = correlation_id parent, causation_id = Some (message_id parent),
      issued_at = now, env_metadata = env_metadata parent, payload = p\<rparr>"

definition with_metadata :: "'c envelope \<Rightarrow> string \<Rightarrow> string \<Rightarrow> 'c envelope" where
  "with_metadata e k v = e\<lparr>env_metadata := (env_metadata e)(k \<mapsto> v)\<rparr>"

definition envelope_map :: "('c \<Rightarrow> 'd) \<Rightarrow> 'c envelope \<Rightarrow> 'd envelope" where
  "envelope_map f e =
     \<lparr>message_id = message_id e, correlation_id = correlation_id e, causation_id = causation_id e,
      issued_at = issued_at e, env_metadata = env_metadata e, payload = f (payload e)\<rparr>"

section \<open>Errors of the bus\<close>

text \<open>The boxed error keeps the answers it was built from beside the original error.\<close>

datatype 'e dyn_error = DynHandler 'e | DynValidation validation_error

datatype 'e cqrs_error =
    HandlerNotFound string
  | DuplicateRegistration string
  | Handler app_answers "'e dyn_error"

definition from_handler :: "('e \<Rightarrow> app_answers) \<Rightarrow> 'e \<Rightarrow> 'e cqrs_error" where
  "from_handler answers e = Handler (answers e) (DynHandler e)"

primrec cqrs_answers :: "'e cqrs_error \<Rightarrow> app_answers" where
  "cqrs_answers (HandlerNotFound n) =
     \<lparr>error_code = ''CQRS_HANDLER_NOT_FOUND'', http_status = 500, severity = Critical, retryable = False,
      err_category = ''CQRS'', user_facing_message = ''An internal error occurred.''\<rparr>"
| "cqrs_answers (DuplicateRegistration n) =
     \<lparr>error_code = ''CQRS_DUPLICATE_REGISTRATION'', http_status = 500, severity = Critical, retryable = False,
      err_category = ''CQRS'', user_facing_message = ''An internal error occurred.''\<rparr>"
| "cqrs_answers (Handler a e) = a"

section \<open>The registry\<close>

datatype bus_log_line = LogStarted uuid | LogCompleted uuid | LogFailed uuid string

record 's bus_state =
  service_state :: 's
  seen :: "uuid set"
  bus_log :: "bus_log_line list"

type_synonym ('c, 'e, 's) command_handler = "'c envelope \<Rightarrow> 's \<Rightarrow> ('e + unit) \<times> 's"
type_synonym ('c, 'e, 's) command_bus = "'c envelope \<Rightarrow> 's bus_state \<Rightarrow> ('e cqrs_error + unit) \<times> 's bus_state"
type_synonym ('c, 'e, 's) registry = "string \<Rightarrow> ('c, 'e, 's) command_handler option"

definition bus_register ::
  "string \<Rightarrow> ('c, 'e, 's) command_handler \<Rightarrow> ('c, 'e, 's) registry \<Rightarrow> 'e cqrs_error + ('c, 'e, 's) registry" where
  "bus_register n h m = (if m n \<noteq> None then Inl (DuplicateRegistration n) else Inr (m(n \<mapsto> h)))"

primrec bus_build ::
  "(string \<times> ('c, 'e, 's) command_handler) list \<Rightarrow> ('c, 'e, 's) registry \<Rightarrow> 'e cqrs_error + ('c, 'e, 's) registry" where
  "bus_build [] m = Inr m"
| "bus_build (r # rs) m = bind_res (bus_register (fst r) (snd r) m) (bus_build rs)"

definition in_memory_dispatch ::
  "('c \<Rightarrow> string) \<Rightarrow> ('e \<Rightarrow> app_answers) \<Rightarrow> ('c, 'e, 's) registry \<Rightarrow> ('c, 'e, 's) command_bus" where
  "in_memory_dispatch type_name answers m e s =
     (case m (type_name (payload e)) of
        None \<Rightarrow> (Inl (HandlerNotFound (type_name (payload e))), s)
      | Some h \<Rightarrow>
          (case h e (service_state s) of
             (Inl err, t) \<Rightarrow> (Inl (from_handler answers err), s\<lparr>service_state := t\<rparr>)
           | (Inr _, t) \<Rightarrow> (Inr (), s\<lparr>service_state := t\<rparr>)))"

section \<open>Layers\<close>

definition idempotency_dispatch :: "('c, 'e, 's) command_bus \<Rightarrow> ('c, 'e, 's) command_bus" where
  "idempotency_dispatch inner e s =
     (if message_id e \<in> seen s then (Inr (), s)
      else case inner e s of
             (Inl err, s') \<Rightarrow> (Inl err, s')
           | (Inr _, s') \<Rightarrow> (Inr (), s'\<lparr>seen := insert (message_id e) (seen s')\<rparr>))"

definition validation_dispatch ::
  "('c \<Rightarrow> field_violation list) \<Rightarrow> ('c, 'e, 's) command_bus \<Rightarrow> ('c, 'e, 's) command_bus" where
  "validation_dispatch validate inner e s =
     (if validate (payload e) \<noteq> []
      then (Inl (Handler validation_answers (DynValidation (ValidationError (validate (payload e))))), s)
      else inner e s)"

definition logging_dispatch :: "('c, 'e, 's) command_bus \<Rightarrow> ('c, 'e, 's) command_bus" where
  "logging_dispatch inner e s =
     (case inner e (s\<lparr>bus_log := bus_log s @ [LogStarted (message_id e)]\<rparr>) of
        (Inr _, s') \<Rightarrow> (Inr (), s'\<lparr>bus_log := bus_log s' @ [LogCompleted (message_id e)]\<rparr>)
      | (Inl err, s') \<Rightarrow>
          (Inl err, s'\<lparr>bus_log := bus_log s' @ [LogFailed (message_id e) (error_code (cqrs_answers err))]\<rparr>))"

datatype layer = ValidationLayer | IdempotencyLayer | LoggingLayer

primrec apply_layer ::
  "('c \<Rightarrow> field_violation list) \<Rightarrow> layer \<Rightarrow> ('c, 'e, 's) command_bus \<Rightarrow> ('c, 'e, 's) command_bus" where
  "apply_layer validate ValidationLayer = validation_dispatch validate"
| "apply_layer validate IdempotencyLayer = idempotency_dispatch"
| "apply_layer validate LoggingLayer = logging_dispatch"

text \<open>\<open>MiddlewarePipeline::new(bus).layer(l1).layer(l2) ... .build()\<close>: every call wraps the service so far.\<close>

primrec pipeline ::
  "('c \<Rightarrow> field_violation list) \<Rightarrow> ('c, 'e, 's) command_bus \<Rightarrow> layer list \<Rightarrow> ('c, 'e, 's) command_bus" where
  "pipeline validate service [] = service"
| "pipeline validate service (l # ls) = pipeline validate (apply_layer validate l service) ls"

text \<open>The order the documentation of the pipeline promises: the first layer is the outermost.\<close>

definition documented_pipeline ::
  "('c \<Rightarrow> field_violation list) \<Rightarrow> ('c, 'e, 's) command_bus \<Rightarrow> layer list \<Rightarrow> ('c, 'e, 's) command_bus" where
  "documented_pipeline validate service ls = foldr (apply_layer validate) ls service"

primrec dispatch_all ::
  "('c, 'e, 's) command_bus \<Rightarrow> 'c envelope list \<Rightarrow> 's bus_state \<Rightarrow> 's bus_state" where
  "dispatch_all bus [] s = s"
| "dispatch_all bus (e # es) s = dispatch_all bus es (snd (bus e s))"

section \<open>The registry and the layers\<close>

lemma bus_build_distinct:
  "distinct ns \<Longrightarrow> \<forall>n \<in> set ns. m n = None \<Longrightarrow>
   bus_build (map (\<lambda>n. (n, h)) ns) m = Inr (\<lambda>n. if n \<in> set ns then Some h else m n)"
proof (induction ns arbitrary: m)
  case (Cons a ns)
  then have "bus_build (map (\<lambda>n. (n, h)) ns) (m(a \<mapsto> h)) =
      Inr (\<lambda>n. if n \<in> set ns then Some h else (m(a \<mapsto> h)) n)"
    by (intro Cons.IH) auto
  then show ?case using Cons.prems by (auto simp: bus_register_def fun_eq_iff)
qed simp

text \<open>A layer over a bus that keeps what was seen keeps it too.\<close>

definition keeps_seen :: "('c, 'e, 's) command_bus \<Rightarrow> bool" where
  "keeps_seen bus \<longleftrightarrow> (\<forall>e s. seen s \<subseteq> seen (snd (bus e s)))"

lemma keeps_seen_registry: "keeps_seen (in_memory_dispatch type_name answers m)"
  by (auto simp: keeps_seen_def in_memory_dispatch_def split: option.splits prod.splits sum.splits)

lemma keeps_seen_layer: "keeps_seen bus \<Longrightarrow> keeps_seen (apply_layer validate l bus)"
proof (cases l)
  case ValidationLayer
  then show "keeps_seen bus \<Longrightarrow> ?thesis" by (simp add: keeps_seen_def validation_dispatch_def)
next
  case IdempotencyLayer
  assume b: "keeps_seen bus"
  have "seen s \<subseteq> seen (snd (idempotency_dispatch bus e s))" for e s
    using b [unfolded keeps_seen_def, rule_format, of s e]
    by (auto simp: idempotency_dispatch_def split: prod.splits sum.splits)
  then show ?thesis using IdempotencyLayer by (simp add: keeps_seen_def)
next
  case LoggingLayer
  assume b: "keeps_seen bus"
  have "seen s \<subseteq> seen (snd (logging_dispatch bus e s))" for e s
    using b [unfolded keeps_seen_def, rule_format, of "s\<lparr>bus_log := bus_log s @ [LogStarted (message_id e)]\<rparr>" e]
    by (auto simp: logging_dispatch_def split: prod.splits sum.splits)
  then show ?thesis using LoggingLayer by (simp add: keeps_seen_def)
qed

text \<open>Only the idempotency layer marks messages.\<close>

lemma seen_below:
  "IdempotencyLayer \<notin> set ls \<Longrightarrow> (\<And>e s. seen (snd (bus e s)) = seen s) \<Longrightarrow>
   seen (snd (pipeline validate bus ls e s)) = seen s"
proof (induction ls arbitrary: bus)
  case (Cons l ls)
  have "seen (snd (apply_layer validate l bus e s)) = seen s" for e s
    using Cons.prems by (cases l) (auto simp: validation_dispatch_def logging_dispatch_def
      split: prod.splits sum.splits dest: arg_cong [where f = "\<lambda>p. seen (snd p)"])
  then show ?case using Cons by simp
qed simp

lemma seen_registry: "seen (snd (in_memory_dispatch type_name answers m e s)) = seen s"
  by (auto simp: in_memory_dispatch_def split: option.splits prod.splits sum.splits)

lemma keeps_seen_pipeline: "keeps_seen bus \<Longrightarrow> keeps_seen (pipeline validate bus ls)"
  by (induction ls arbitrary: bus) (simp_all add: keeps_seen_layer)

lemma dispatch_all_seen: "keeps_seen bus \<Longrightarrow> x \<in> seen s \<Longrightarrow> x \<in> seen (dispatch_all bus es s)"
  by (induction es arbitrary: s) (auto simp: keeps_seen_def)

lemma idempotency_marks:
  "idempotency_dispatch bus e s = (Inr u, s') \<Longrightarrow> message_id e \<in> seen s'"
  by (auto simp: idempotency_dispatch_def split: if_splits prod.splits sum.splits)

lemma pipeline_snoc: "pipeline validate bus (ls @ [l]) = apply_layer validate l (pipeline validate bus ls)"
  by (induction ls arbitrary: bus) simp_all

lemma pipeline_rev: "pipeline validate bus ls = documented_pipeline validate bus (rev ls)"
  by (induction ls arbitrary: bus) (simp_all add: documented_pipeline_def)

text \<open>
  What becomes of a dispatch, by what the layers look at.  The logging layers write the log only.
\<close>

definition deciding :: "layer list \<Rightarrow> layer list" where
  "deciding ls = filter (\<lambda>l. l \<noteq> LoggingLayer) ls"

definition invalid :: "('c \<Rightarrow> field_violation list) \<Rightarrow> 'c envelope \<Rightarrow> 'e cqrs_error + unit" where
  "invalid validate e = Inl (Handler validation_answers (DynValidation (ValidationError (validate (payload e)))))"

definition nothing_ran :: "'s bus_state \<Rightarrow> 's bus_state \<Rightarrow> bool" where
  "nothing_ran s s' \<longleftrightarrow> service_state s' = service_state s \<and> seen s' = seen s"

lemma logging_parts:
  "fst (logging_dispatch bus e s) = fst (bus e (s\<lparr>bus_log := bus_log s @ [LogStarted (message_id e)]\<rparr>))"
  "service_state (snd (logging_dispatch bus e s)) =
     service_state (snd (bus e (s\<lparr>bus_log := bus_log s @ [LogStarted (message_id e)]\<rparr>)))"
  "seen (snd (logging_dispatch bus e s)) =
     seen (snd (bus e (s\<lparr>bus_log := bus_log s @ [LogStarted (message_id e)]\<rparr>)))"
  by (auto simp: logging_dispatch_def split: prod.splits sum.splits)

lemma idempotency_parts:
  assumes "message_id e \<notin> seen s"
  shows "fst (idempotency_dispatch bus e s) = fst (bus e s)"
    "service_state (snd (idempotency_dispatch bus e s)) = service_state (snd (bus e s))"
    "seen (snd (idempotency_dispatch bus e s)) =
       (if fst (bus e s) = Inr () then insert (message_id e) (seen (snd (bus e s))) else seen (snd (bus e s)))"
  using assms by (auto simp: idempotency_dispatch_def split: prod.splits sum.splits)

lemma idempotency_hit: "message_id e \<in> seen s \<Longrightarrow> idempotency_dispatch bus e s = (Inr (), s)"
  by (simp add: idempotency_dispatch_def)

lemmas layer_parts = pipeline_snoc logging_parts idempotency_parts idempotency_hit validation_dispatch_def
  nothing_ran_def

lemma pipeline_replay:
  assumes "IdempotencyLayer \<in> set ls" "message_id e \<in> seen s" "validate (payload e) = []"
  shows "fst (pipeline validate bus ls e s) = Inr () \<and> nothing_ran s (snd (pipeline validate bus ls e s))"
  using assms
proof (induction ls arbitrary: s rule: rev_induct)
  case (snoc l ls)
  then show ?case by (cases l) (simp_all add: layer_parts invalid_def)
qed simp

lemma pipeline_invalid:
  assumes "ValidationLayer \<in> set ls" "message_id e \<notin> seen s" "validate (payload e) \<noteq> []"
  shows "fst (pipeline validate bus ls e s) = invalid validate e \<and> nothing_ran s (snd (pipeline validate bus ls e s))"
  using assms
proof (induction ls arbitrary: s rule: rev_induct)
  case (snoc l ls)
  then show ?case by (cases l) (simp_all add: layer_parts invalid_def)
qed simp

lemma pipeline_outermost:
  assumes "deciding ls \<noteq> []" "message_id e \<in> seen s" "validate (payload e) \<noteq> []"
  shows "fst (pipeline validate bus ls e s) = (if last (deciding ls) = IdempotencyLayer then Inr () else invalid validate e)
    \<and> nothing_ran s (snd (pipeline validate bus ls e s))"
  using assms
proof (induction ls arbitrary: s rule: rev_induct)
  case (snoc l ls)
  then show ?case by (cases l) (simp_all add: layer_parts invalid_def deciding_def)
qed (simp add: deciding_def)

lemma in_memory_log:
  "in_memory_dispatch type_name answers m e (s\<lparr>bus_log := xs\<rparr>) =
     map_prod id (\<lambda>t. t\<lparr>bus_log := xs\<rparr>) (in_memory_dispatch type_name answers m e s)"
  by (auto simp: in_memory_dispatch_def split: option.splits prod.splits sum.splits)

lemma pipeline_fresh:
  assumes "message_id e \<notin> seen s" "validate (payload e) = []" "bus = in_memory_dispatch type_name answers m"
  shows "fst (pipeline validate bus ls e s) = fst (bus e s)
    \<and> service_state (snd (pipeline validate bus ls e s)) = service_state (snd (bus e s))
    \<and> seen (snd (pipeline validate bus ls e s)) =
        (if IdempotencyLayer \<in> set ls \<and> fst (bus e s) = Inr () then insert (message_id e) (seen s) else seen s)"
  using assms(1,2)
proof (induction ls arbitrary: s rule: rev_induct)
  case Nil
  then show ?case using seen_registry [of type_name answers m e s] by (simp add: assms(3))
next
  case (snoc l ls)
  have same: "fst (bus e (s\<lparr>bus_log := xs\<rparr>)) = fst (bus e s)"
    "service_state (snd (bus e (s\<lparr>bus_log := xs\<rparr>))) = service_state (snd (bus e s))" for xs
    by (simp_all add: assms(3) in_memory_log)
  show ?case using snoc by (cases l) (simp_all add: layer_parts same)
qed

section \<open>Properties\<close>

definition note_handler :: "(string, unit, string list) command_handler" where
  "note_handler e s = (Inr (), s @ [payload e])"

definition note_bus :: "(string, unit, string list) command_bus" where
  "note_bus = in_memory_dispatch (\<lambda>_. ''Note'') (\<lambda>_. validation_answers) [''Note'' \<mapsto> note_handler]"

definition note_envelope :: "uuid \<Rightarrow> string \<Rightarrow> string envelope" where
  "note_envelope i t = envelope_new i 0 0 t"

text \<open>
  C35. What a pipeline of validation, idempotency and logging layers over the registry does with a
  dispatch, for every list of layers in the order they were added.
  A new, valid command is answered as the registry answers it, with its effect on the service, and its
  id is marked exactly if it succeeded and there is an idempotency layer.
  A repeated valid command is answered \<open>Ok\<close> if there is an idempotency layer, and a new invalid one is
  rejected with its violations if there is a validation layer; neither reaches a handler or marks an id.
  For a repeated invalid command the two layers disagree, and the one added last decides (\<open>Ok\<close> for the
  idempotency layer, a rejection for the validation layer), where the documented order lets the one
  added first decide.
\<close>

theorem pipeline_order:
  assumes "bus = in_memory_dispatch type_name answers m" "pipeline validate bus ls e s = (r, s')"
  shows "(message_id e \<notin> seen s \<and> validate (payload e) = [] \<longrightarrow>
      r = fst (bus e s) \<and> service_state s' = service_state (snd (bus e s)) \<and>
      seen s' = (if IdempotencyLayer \<in> set ls \<and> r = Inr () then insert (message_id e) (seen s) else seen s)) \<and>
    (message_id e \<in> seen s \<and> validate (payload e) = [] \<and> IdempotencyLayer \<in> set ls \<longrightarrow>
      r = Inr () \<and> nothing_ran s s') \<and>
    (message_id e \<notin> seen s \<and> validate (payload e) \<noteq> [] \<and> ValidationLayer \<in> set ls \<longrightarrow>
      r = invalid validate e \<and> nothing_ran s s') \<and>
    (message_id e \<in> seen s \<and> validate (payload e) \<noteq> [] \<and> deciding ls \<noteq> [] \<longrightarrow>
      r = (if last (deciding ls) = IdempotencyLayer then Inr () else invalid validate e) \<and> nothing_ran s s' \<and>
      fst (documented_pipeline validate bus ls e s) =
        (if hd (deciding ls) = IdempotencyLayer then Inr () else invalid validate e))"
proof (intro conjI impI; (elim conjE)?)
  have r: "r = fst (pipeline validate bus ls e s)" "s' = snd (pipeline validate bus ls e s)"
    using assms(2) by simp_all
  show "r = fst (bus e s)" "service_state s' = service_state (snd (bus e s))"
    "seen s' = (if IdempotencyLayer \<in> set ls \<and> r = Inr () then insert (message_id e) (seen s) else seen s)"
    if "message_id e \<notin> seen s" "validate (payload e) = []"
    using pipeline_fresh [of e s validate bus, OF that assms(1), of ls] unfolding r by simp_all
  show "r = Inr ()" "nothing_ran s s'"
    if "message_id e \<in> seen s" "validate (payload e) = []" "IdempotencyLayer \<in> set ls"
    using pipeline_replay [of ls e s validate bus] that unfolding r by simp_all
  show "r = invalid validate e" "nothing_ran s s'"
    if "message_id e \<notin> seen s" "validate (payload e) \<noteq> []" "ValidationLayer \<in> set ls"
    using pipeline_invalid [of ls e s validate bus] that unfolding r by simp_all
  show "r = (if last (deciding ls) = IdempotencyLayer then Inr () else invalid validate e)" "nothing_ran s s'"
    "fst (documented_pipeline validate bus ls e s) =
        (if hd (deciding ls) = IdempotencyLayer then Inr () else invalid validate e)"
    if "message_id e \<in> seen s" "validate (payload e) \<noteq> []" "deciding ls \<noteq> []"
    using pipeline_outermost [of ls e s validate bus] pipeline_outermost [of "rev ls" e s validate bus]
      pipeline_rev [of validate bus "rev ls"] that unfolding r
    by (simp_all add: deciding_def last_rev flip: rev_filter)
qed

definition no_blank_note :: "string \<Rightarrow> field_violation list" where
  "no_blank_note t = (if t = [] then [\<lparr>fv_field = ''text'', fv_code = ''V1'', fv_message = ''blank''\<rparr>] else [])"

theorem pipeline_order_witness:
  "fst (pipeline no_blank_note note_bus [ValidationLayer, LoggingLayer, IdempotencyLayer, LoggingLayer]
      (note_envelope 7 []) \<lparr>service_state = [''x''], seen = {7}, bus_log = []\<rparr>) = Inr () \<and>
   fst (documented_pipeline no_blank_note note_bus [ValidationLayer, LoggingLayer, IdempotencyLayer, LoggingLayer]
      (note_envelope 7 []) \<lparr>service_state = [''x''], seen = {7}, bus_log = []\<rparr>)
     = invalid no_blank_note (note_envelope 7 []) \<and>
   service_state (snd (pipeline no_blank_note note_bus [ValidationLayer, LoggingLayer, IdempotencyLayer, LoggingLayer]
      (note_envelope 8 ''y'') \<lparr>service_state = [''x''], seen = {7}, bus_log = []\<rparr>)) = [''x'', ''y'']"
proof -
  let ?ls = "[ValidationLayer, LoggingLayer, IdempotencyLayer, LoggingLayer]"
  let ?s = "\<lparr>service_state = [''x''], seen = {7}, bus_log = []\<rparr>"
  have split: "pipeline no_blank_note note_bus ?ls e ?s =
      (fst (pipeline no_blank_note note_bus ?ls e ?s), snd (pipeline no_blank_note note_bus ?ls e ?s))" for e
    by simp
  have "service_state (snd (note_bus (note_envelope 8 ''y'') ?s)) = [''x'', ''y'']"
    by (simp add: note_bus_def in_memory_dispatch_def note_handler_def note_envelope_def envelope_new_def)
  then show ?thesis
    using pipeline_order [OF note_bus_def split, of "note_envelope 7 []"]
      pipeline_order [OF note_bus_def split, of "note_envelope 8 ''y''"]
    by (simp add: no_blank_note_def note_envelope_def envelope_new_def deciding_def del: pipeline.simps)
qed

text \<open>
  C34. Idempotent dispatch.  In a pipeline over the registry whose last layer is \<open>IdempotencyLayer\<close>, once
  a message was answered \<open>Ok\<close>, dispatching a message with the same id again, after any other
  dispatches and whatever its payload, answers \<open>Ok\<close> and changes nothing: no handler runs.  A message
  that failed is not marked, so a retry reaches the layers below again.
\<close>

theorem idempotent_dispatch:
  assumes "pipeline validate (in_memory_dispatch type_name answers m) (ls @ [IdempotencyLayer]) e s = (r, s1)"
    and "message_id e' = message_id e" and "IdempotencyLayer \<notin> set ls"
    and "s2 = dispatch_all (pipeline validate (in_memory_dispatch type_name answers m) (ls @ [IdempotencyLayer])) es s1"
  shows "(r = Inr () \<longrightarrow>
      pipeline validate (in_memory_dispatch type_name answers m) (ls @ [IdempotencyLayer]) e' s2 = (Inr (), s2)) \<and>
    (r \<noteq> Inr () \<longrightarrow> message_id e' \<notin> seen s1)"
proof (intro conjI impI)
  let ?inner = "pipeline validate (in_memory_dispatch type_name answers m) ls"
  have keep: "keeps_seen (idempotency_dispatch ?inner)"
    using keeps_seen_layer [of ?inner validate IdempotencyLayer, OF keeps_seen_pipeline, OF keeps_seen_registry] by simp
  have step: "idempotency_dispatch ?inner e s = (r, s1)" using assms(1) by (simp add: pipeline_snoc)
  {
    assume "r = Inr ()"
    then have "message_id e \<in> seen s1" using idempotency_marks step by blast
    then have "message_id e' \<in> seen s2" using dispatch_all_seen [OF keep] assms(2,4) by (simp add: pipeline_snoc)
    then show "pipeline validate (in_memory_dispatch type_name answers m) (ls @ [IdempotencyLayer]) e' s2 = (Inr (), s2)"
      by (simp add: pipeline_snoc idempotency_dispatch_def)
  }
  assume "r \<noteq> Inr ()"
  moreover have "seen (snd (?inner e s)) = seen s" using assms(3) seen_registry by (rule seen_below)
  ultimately show "message_id e' \<notin> seen s1"
    using step assms(2) by (auto simp: idempotency_dispatch_def split: if_splits prod.splits sum.splits)
qed

theorem idempotent_dispatch_witness:
  "pipeline no_blank_note note_bus [ValidationLayer, IdempotencyLayer] (note_envelope 7 ''b'')
     (dispatch_all (pipeline no_blank_note note_bus [ValidationLayer, IdempotencyLayer]) [note_envelope 8 ''c'']
       \<lparr>service_state = [''a''], seen = {7}, bus_log = []\<rparr>) =
   (Inr (), \<lparr>service_state = [''a'', ''c''], seen = {8, 7}, bus_log = []\<rparr>)"
proof -
  let ?bus = "pipeline no_blank_note note_bus ([ValidationLayer] @ [IdempotencyLayer])"
  let ?s1 = "\<lparr>service_state = [''a''], seen = {7}, bus_log = []\<rparr>"
  have first: "?bus (note_envelope 7 ''a'') \<lparr>service_state = [], seen = {}, bus_log = []\<rparr> = (Inr (), ?s1)"
    by (simp add: note_bus_def in_memory_dispatch_def note_handler_def note_envelope_def envelope_new_def
        idempotency_dispatch_def validation_dispatch_def no_blank_note_def)
  have later: "dispatch_all ?bus [note_envelope 8 ''c''] ?s1 = \<lparr>service_state = [''a'', ''c''], seen = {8, 7}, bus_log = []\<rparr>"
    by (simp add: note_bus_def in_memory_dispatch_def note_handler_def note_envelope_def envelope_new_def
        idempotency_dispatch_def validation_dispatch_def no_blank_note_def)
  show ?thesis
    using idempotent_dispatch [OF first [unfolded note_bus_def] _ _ refl,
        of "note_envelope 7 ''b''" "[note_envelope 8 ''c'']"] later
    by (simp add: note_bus_def note_envelope_def envelope_new_def)
qed

end
