(* ===== verification/OptimisticStore.thy ===== *)
theory OptimisticStore
  imports Prelude
begin

text \<open>
  Handlers over a versioned store.  A command handler loads an aggregate, applies a command to its
  copy and saves the copy; the save compares the stored version with the version of the copy.  Many
  handlers run at once, so loads and saves of different handlers interleave.

  The theory states the contract of such a store as a locale and proves, once for all stores, that
  every interleaving has the effect of running the handlers that won one at a time.
\<close>

section \<open>Interleaved and atomic handlers\<close>

datatype ('k, 'c) occ_step = Begin nat 'k | Commit nat 'c datetime

record ('db, 'a) occ_state =
  occ_db :: 'db
  occ_copy :: "nat \<Rightarrow> 'a option"

type_synonym ('a, 'c, 'e) occ_exec = "'a \<Rightarrow> 'c \<Rightarrow> 'e + 'a"

text \<open>
  \<open>Begin n k\<close>: handler \<open>n\<close> loads the aggregate \<open>k\<close>.  \<open>Commit n c t\<close>: it applies \<open>c\<close> to its copy, saves the
  result and ends; a refused command or a refused save leaves the store alone.
\<close>

definition occ_commit ::
  "('a, 'c, 'e) occ_exec \<Rightarrow> (datetime \<Rightarrow> 'a \<Rightarrow> 'db \<Rightarrow> ('e + unit) \<times> 'db) \<Rightarrow> 'a \<Rightarrow> 'c \<Rightarrow> datetime \<Rightarrow> 'db \<Rightarrow> 'db" where
  "occ_commit exec save a c t db = (case exec a c of Inl _ \<Rightarrow> db | Inr a' \<Rightarrow> snd (save t a' db))"

primrec occ_do ::
  "('db \<Rightarrow> 'k \<Rightarrow> 'a option) \<Rightarrow> ('a, 'c, 'e) occ_exec \<Rightarrow> (datetime \<Rightarrow> 'a \<Rightarrow> 'db \<Rightarrow> ('e + unit) \<times> 'db) \<Rightarrow>
   ('k, 'c) occ_step \<Rightarrow> ('db, 'a) occ_state \<Rightarrow> ('db, 'a) occ_state" where
  "occ_do load exec save (Begin n k) s = s\<lparr>occ_copy := (occ_copy s)(n := load (occ_db s) k)\<rparr>"
| "occ_do load exec save (Commit n c t) s =
     (case occ_copy s n of
        None \<Rightarrow> s
      | Some a \<Rightarrow> \<lparr>occ_db = occ_commit exec save a c t (occ_db s), occ_copy = (occ_copy s)(n := None)\<rparr>)"

text \<open>The abstract machine: a map of aggregates, one whole handler per step.\<close>

definition atomic_do ::
  "('a, 'c, 'e) occ_exec \<Rightarrow> (datetime \<Rightarrow> 'a \<Rightarrow> 'a) \<Rightarrow> 'k \<times> 'c \<times> datetime \<Rightarrow> ('k \<Rightarrow> 'a option) \<Rightarrow> 'k \<Rightarrow> 'a option" where
  "atomic_do exec settle = (\<lambda>(k, c, t) m.
     case m k of
       None \<Rightarrow> m
     | Some a \<Rightarrow> (case exec a c of Inl _ \<Rightarrow> m | Inr a' \<Rightarrow> m(k \<mapsto> settle t a')))"

text \<open>The handlers that won: their copy was still current when they committed.\<close>

primrec occ_won ::
  "('db \<Rightarrow> 'k \<Rightarrow> 'a option) \<Rightarrow> ('a \<Rightarrow> 'k) \<Rightarrow> ('a \<Rightarrow> int) \<Rightarrow> ('k, 'c) occ_step \<Rightarrow> ('db, 'a) occ_state \<Rightarrow> ('k \<times> 'c \<times> datetime) list" where
  "occ_won load key ver (Begin n k) s = []"
| "occ_won load key ver (Commit n c t) s =
     (case occ_copy s n of
        None \<Rightarrow> []
      | Some a \<Rightarrow> if map_option ver (load (occ_db s) (key a)) = Some (ver a) then [(key a, c, t)] else [])"

primrec occ_log ::
  "('db \<Rightarrow> 'k \<Rightarrow> 'a option) \<Rightarrow> ('a \<Rightarrow> 'k) \<Rightarrow> ('a \<Rightarrow> int) \<Rightarrow> ('a, 'c, 'e) occ_exec \<Rightarrow>
   (datetime \<Rightarrow> 'a \<Rightarrow> 'db \<Rightarrow> ('e + unit) \<times> 'db) \<Rightarrow>
   ('k, 'c) occ_step list \<Rightarrow> ('db, 'a) occ_state \<Rightarrow> ('k \<times> 'c \<times> datetime) list" where
  "occ_log load key ver exec save [] s = []"
| "occ_log load key ver exec save (x # xs) s =
     occ_won load key ver x s @ occ_log load key ver exec save xs (occ_do load exec save x s)"

primrec step_cmds :: "('k, 'c) occ_step \<Rightarrow> 'c set" where
  "step_cmds (Begin n k) = {}"
| "step_cmds (Commit n c t) = {c}"

section \<open>The contract\<close>

text \<open>
  The laws of the store, for the aggregates its commands produce: a stored aggregate is found under
  its key; saving the successor of the stored version replaces exactly that aggregate, whatever the
  save answers; saving anything else changes nothing.
\<close>

locale occ_store =
  fixes load :: "'db \<Rightarrow> 'k \<Rightarrow> 'a option"
    and exec :: "('a, 'c, 'e) occ_exec"
    and save :: "datetime \<Rightarrow> 'a \<Rightarrow> 'db \<Rightarrow> ('e + unit) \<times> 'db"
    and settle :: "datetime \<Rightarrow> 'a \<Rightarrow> 'a"
    and key :: "'a \<Rightarrow> 'k"
    and ver :: "'a \<Rightarrow> int"
    and inv :: "'db \<Rightarrow> bool"
    and fit :: "'a \<Rightarrow> bool"
    and allowed :: "'c \<Rightarrow> bool"
  assumes load_key: "inv db \<Longrightarrow> load db k = Some a \<Longrightarrow> key a = k \<and> fit a"
    and exec_next: "allowed c \<Longrightarrow> fit a \<Longrightarrow> exec a c = Inr a' \<Longrightarrow> key a' = key a \<and> ver a' = ver a + 1"
    and settle_same: "key (settle t a) = key a" "ver (settle t a) = ver a"
    and save_hit: "inv db \<Longrightarrow> load db (key a) = Some a \<Longrightarrow> allowed c \<Longrightarrow> exec a c = Inr a' \<Longrightarrow>
      inv (snd (save t a' db)) \<and> load (snd (save t a' db)) = (load db)(key a \<mapsto> settle t a')"
    and save_miss: "inv db \<Longrightarrow> load db (key a) = Some b \<Longrightarrow> ver b \<noteq> ver a \<Longrightarrow> fit a \<Longrightarrow>
      allowed c \<Longrightarrow> exec a c = Inr a' \<Longrightarrow> snd (save t a' db) = db"
begin

text \<open>A copy is the stored aggregate, or an older version of it.\<close>

definition copies_ok :: "('db, 'a) occ_state \<Rightarrow> bool" where
  "copies_ok s \<longleftrightarrow> inv (occ_db s) \<and>
     (\<forall>n a. occ_copy s n = Some a \<longrightarrow> fit a \<and>
        (\<exists>b. load (occ_db s) (key a) = Some b \<and> (b = a \<or> ver a < ver b)))"

lemma copies_ok_init: "inv db \<Longrightarrow> copies_ok \<lparr>occ_db = db, occ_copy = (\<lambda>_. None)\<rparr>"
  by (simp add: copies_ok_def)

lemma commit_effect:
  assumes "copies_ok s" "occ_copy s n = Some a" "allowed c"
  shows "if map_option ver (load (occ_db s) (key a)) = Some (ver a)
    then inv (occ_commit exec save a c t (occ_db s)) \<and>
      load (occ_commit exec save a c t (occ_db s)) = atomic_do exec settle (key a, c, t) (load (occ_db s)) \<and>
      load (occ_db s) (key a) = Some a
    else occ_commit exec save a c t (occ_db s) = occ_db s"
proof -
  obtain b where b: "load (occ_db s) (key a) = Some b" "b = a \<or> ver a < ver b" and a: "fit a" "inv (occ_db s)"
    using assms(1,2) unfolding copies_ok_def by blast
  show ?thesis
  proof (cases "exec a c")
    case (Inl e)
    then show ?thesis using b a by (auto simp: occ_commit_def atomic_do_def)
  next
    case (Inr a')
    show ?thesis
    proof (cases "b = a")
      case True
      then show ?thesis
        using save_hit [OF a(2) _ assms(3) Inr, of t] b by (simp add: occ_commit_def atomic_do_def Inr)
    next
      case False
      then have "ver b \<noteq> ver a" using b(2) by auto
      then show ?thesis
        using save_miss [OF a(2) b(1) _ a(1) assms(3) Inr, of t] b by (simp add: occ_commit_def Inr)
    qed
  qed
qed

lemma atomic_do_grows:
  assumes "m k = Some b" "\<And>j a. m j = Some a \<Longrightarrow> fit a \<and> key a = j" "allowed c"
  shows "\<exists>b'. atomic_do exec settle (j, c, t) m k = Some b' \<and> (b' = b \<or> ver b < ver b')"
proof (cases "k = j")
  case True
  have "fit b" using assms(1,2) by blast
  then show ?thesis
    using assms(1,3) True exec_next [of c b] by (auto simp: atomic_do_def settle_same split: sum.splits)
next
  case False
  then show ?thesis using assms(1) by (auto simp: atomic_do_def split: option.splits sum.splits)
qed

lemma occ_do_ok:
  assumes ok: "copies_ok s" and al: "\<forall>c \<in> step_cmds x. allowed c"
  shows "copies_ok (occ_do load exec save x s) \<and>
    load (occ_db (occ_do load exec save x s)) = fold (atomic_do exec settle) (occ_won load key ver x s) (load (occ_db s))"
proof (cases x)
  case (Begin n k)
  then show ?thesis using ok load_key unfolding copies_ok_def by (auto split: if_splits)
next
  case (Commit n c t)
  show ?thesis
  proof (cases "occ_copy s n")
    case None
    then show ?thesis using ok Commit by simp
  next
    case (Some a)
    have c: "allowed c" using al Commit by simp
    note eff = commit_effect [OF ok Some c, of t]
    show ?thesis
    proof (cases "map_option ver (load (occ_db s) (key a)) = Some (ver a)")
      case True
      let ?db' = "occ_commit exec save a c t (occ_db s)"
      have eq: "inv ?db'" "load ?db' = atomic_do exec settle (key a, c, t) (load (occ_db s))"
        using eff True by auto
      have "\<exists>b'. load ?db' (key a2) = Some b' \<and> (b' = a2 \<or> ver a2 < ver b')"
        if a2: "occ_copy s n2 = Some a2" for n2 a2
      proof -
        obtain b where b: "load (occ_db s) (key a2) = Some b" "b = a2 \<or> ver a2 < ver b"
          using ok a2 unfolding copies_ok_def by blast
        have "load (occ_db s) j = Some x \<Longrightarrow> fit x \<and> key x = j" for j x
          using load_key ok unfolding copies_ok_def by blast
        from atomic_do_grows [where m = "load (occ_db s)" and j = "key a" and t = t, OF b(1) this c]
        show ?thesis using b(2) unfolding eq(2) by auto
      qed
      then show ?thesis using ok Commit Some True eq unfolding copies_ok_def by auto
    next
      case False
      then show ?thesis using ok Commit Some eff unfolding copies_ok_def by auto
    qed
  qed
qed

lemma interleaving_serialises:
  assumes "copies_ok s" "\<forall>x \<in> set xs. \<forall>c \<in> step_cmds x. allowed c"
  shows "load (occ_db (fold (occ_do load exec save) xs s)) =
    fold (atomic_do exec settle) (occ_log load key ver exec save xs s) (load (occ_db s))"
  using assms
proof (induction xs arbitrary: s)
  case Nil
  then show ?case by simp
next
  case (Cons x xs)
  then have "copies_ok (occ_do load exec save x s)"
    "load (occ_db (occ_do load exec save x s)) = fold (atomic_do exec settle) (occ_won load key ver x s) (load (occ_db s))"
    using occ_do_ok [of s x] by auto
  then show ?case using Cons by simp
qed

end

end
