(* ===== verification/AccountService.thy ===== *)
theory AccountService
  imports AccountStore Cqrs OptimisticStore
begin

text \<open>
  The account service over its table: the command handlers
  (\<open>crates/services/account/src/application/command\<close>), the validation of the commands, the bus
  \<open>AccountApp::build\<close> wires (\<open>app.rs\<close>) and the gRPC entry points that fill in commands
  (\<open>infrastructure/grpc/handler\<close>).
\<close>

section \<open>The answers of an account error\<close>

fun account_error_code :: "account_error \<Rightarrow> string" where
  "account_error_code (AccStorage e) = storage_error_code e"
| "account_error_code (AccValidation e) = error_code validation_answers"
| "account_error_code (AccountNotFound _) = ''ACC-1001''"
| "account_error_code (IdentityAlreadyRegistered _) = ''ACC-1002''"
| "account_error_code (EmailAlreadyRegistered _) = ''ACC-1003''"
| "account_error_code (AccNotActive _) = ''ACC-2001''"
| "account_error_code (InvalidStatusTransition _ _) = ''ACC-2002''"
| "account_error_code EmailAlreadyVerified = ''ACC-2003''"
| "account_error_code AccConcurrentModification = ''ACC-4001''"
| "account_error_code MfaAlreadyEnrolled = ''ACC-5001''"
| "account_error_code MfaNotEnrolled = ''ACC-5002''"
| "account_error_code (InvalidKycTransition _ _) = ''ACC-6001''"
| "account_error_code GdprDeletionAlreadyRequested = ''ACC-7001''"
| "account_error_code AccountAlreadyAnonymized = ''ACC-7002''"
| "account_error_code (RoleAlreadyAssigned _) = ''ACC-8001''"
| "account_error_code (RoleNotAssigned _) = ''ACC-8002''"
| "account_error_code (AccDomainViolation _ _) = ''ACC-9001''"
| "account_error_code (AccInvalidAccountId _) = ''ACC-9002''"
| "account_error_code (InvalidIdentityId _) = ''ACC-9003''"
| "account_error_code (InvalidEmail _) = ''ACC-9004''"
| "account_error_code (InvalidPhone _) = ''ACC-9005''"
| "account_error_code (InvalidCountryCode _) = ''ACC-9006''"
| "account_error_code (InvalidAccountStatus _) = ''ACC-9007''"
| "account_error_code (InvalidKycStatus _) = ''ACC-9008''"
| "account_error_code (InvalidAccountRole _) = ''ACC-9009''"
| "account_error_code (AccEventPublishFailed _) = ''ACC-9010''"

fun account_http_status :: "account_error \<Rightarrow> nat" where
  "account_http_status (AccStorage e) = storage_http_status e"
| "account_http_status (AccValidation e) = http_status validation_answers"
| "account_http_status (AccountNotFound _) = 404"
| "account_http_status (IdentityAlreadyRegistered _) = 409"
| "account_http_status (EmailAlreadyRegistered _) = 409"
| "account_http_status EmailAlreadyVerified = 409"
| "account_http_status AccConcurrentModification = 409"
| "account_http_status MfaAlreadyEnrolled = 409"
| "account_http_status GdprDeletionAlreadyRequested = 409"
| "account_http_status (RoleAlreadyAssigned _) = 409"
| "account_http_status (AccEventPublishFailed _) = 500"
| "account_http_status _ = 422"

fun account_severity :: "account_error \<Rightarrow> severity" where
  "account_severity (AccStorage e) = storage_severity e"
| "account_severity (AccValidation e) = severity validation_answers"
| "account_severity AccConcurrentModification = High"
| "account_severity (AccNotActive _) = Medium"
| "account_severity (InvalidStatusTransition _ _) = Medium"
| "account_severity (InvalidKycTransition _ _) = Medium"
| "account_severity (AccDomainViolation _ _) = Medium"
| "account_severity _ = Low"

fun account_is_retryable :: "account_error \<Rightarrow> bool" where
  "account_is_retryable (AccStorage e) = storage_is_retryable e"
| "account_is_retryable AccConcurrentModification = True"
| "account_is_retryable _ = False"

fun account_category :: "account_error \<Rightarrow> string" where
  "account_category (AccStorage e) = err_category (storage_answers e)"
| "account_category (AccValidation e) = err_category validation_answers"
| "account_category _ = ''ACC''"

fun account_user_message :: "account_error \<Rightarrow> string" where
  "account_user_message (AccStorage e) = storage_user_facing_message e"
| "account_user_message (AccValidation e) = user_facing_message validation_answers"
| "account_user_message (AccountNotFound _) = ''The requested account does not exist.''"
| "account_user_message (IdentityAlreadyRegistered _) = ''This identity is already associated with an account.''"
| "account_user_message (EmailAlreadyRegistered _) = ''This email address is already registered.''"
| "account_user_message (AccNotActive _) =
     ''This operation is not permitted for the account'' @ [CHR 39] @ ''s current status.''"
| "account_user_message (InvalidStatusTransition _ _) = ''This status transition is not permitted.''"
| "account_user_message EmailAlreadyVerified = ''The email address for this account is already verified.''"
| "account_user_message AccConcurrentModification = ''The account was modified concurrently. Please retry.''"
| "account_user_message MfaAlreadyEnrolled = ''Multi-factor authentication is already set up.''"
| "account_user_message MfaNotEnrolled = ''Multi-factor authentication is not configured.''"
| "account_user_message (InvalidKycTransition _ _) = ''This KYC status transition is not permitted.''"
| "account_user_message GdprDeletionAlreadyRequested = ''A deletion request has already been submitted.''"
| "account_user_message AccountAlreadyAnonymized = ''This account has already been anonymized.''"
| "account_user_message (RoleAlreadyAssigned _) = ''This role is already assigned to the account.''"
| "account_user_message (RoleNotAssigned _) = ''This role is not assigned to the account.''"
| "account_user_message _ = ''A domain constraint was violated.''"

definition account_answers :: "account_error \<Rightarrow> app_answers" where
  "account_answers e =
     \<lparr>error_code = account_error_code e, http_status = account_http_status e, severity = account_severity e,
      retryable = account_is_retryable e, err_category = account_category e,
      user_facing_message = account_user_message e\<rparr>"

section \<open>Commands\<close>

record create_account_command =
  cc_identity_id :: string
  cc_email :: string
  cc_phone :: "string option"
  cc_password_hash :: "string option"
  cc_country :: "string option"
  cc_role :: "string option"
  cc_created_by :: "string option"

datatype account_command =
    CreateAccountCommand create_account_command
  | VerifyEmailCommand string
  | VerifyPhoneCommand string
  | ChangePasswordCommand string string
  | EnrollMfaCommand string bytes "string list"
  | RevokeMfaCommand string
  | UpdateKycStatusCommand string string string
  | SuspendAccountCommand string string
  | ReactivateAccountCommand string
  | DeactivateAccountCommand string
  | RecordLoginCommand string
  | RecordFailedLoginCommand string u16 u64
  | RequestGdprDeletionCommand string u32
  | AnonymizeAccountCommand string
  | RequestDataExportCommand string
  | AssignRoleCommand string string
  | RevokeRoleCommand string string

definition violation :: "string \<Rightarrow> string \<Rightarrow> string \<Rightarrow> field_violation" where
  "violation f c m = \<lparr>fv_field = f, fv_code = c, fv_message = m\<rparr>"

definition create_validate :: "create_account_command \<Rightarrow> field_violation list" where
  "create_validate c =
     (if is_blank (cc_identity_id c)
      then [violation ''identity_id'' ''VAL-2001'' ''identity_id must not be empty''] else []) @
     (let email = str_trim (cc_email c) in
      if email = [] then [violation ''email'' ''VAL-2002'' ''email must not be empty'']
      else if CHR ''@'' \<notin> set email \<or> 254 < length email
      then [violation ''email'' ''VAL-2003'' ''email format is invalid''] else []) @
     (case cc_phone c of
        None \<Rightarrow> []
      | Some p \<Rightarrow> if p = [] \<or> hd p \<noteq> CHR ''+'' \<or> length p < 7
                  then [violation ''phone'' ''VAL-2004'' ''phone must be in E.164 format (e.g. +12025551234)''] else []) @
     (case cc_country c of
        None \<Rightarrow> []
      | Some k \<Rightarrow> if length k \<noteq> 2 \<or> \<not> list_all is_ascii_alphabetic k
                  then [violation ''country_of_residence'' ''VAL-2005''
                          ''country_of_residence must be an ISO 3166-1 alpha-2 code''] else [])"

definition change_password_validate :: "string \<Rightarrow> field_violation list" where
  "change_password_validate h =
     (if is_blank h then [violation ''new_password_hash'' ''VAL-2010'' ''new_password_hash must not be empty''] else [])"

definition enroll_mfa_validate :: "bytes \<Rightarrow> string list \<Rightarrow> field_violation list" where
  "enroll_mfa_validate secret codes =
     (if secret = []
      then [violation ''totp_secret_ciphertext'' ''VAL-2020'' ''TOTP secret ciphertext must not be empty''] else []) @
     (if length codes < 6
      then [violation ''recovery_code_hashes'' ''VAL-2021'' ''at least 6 recovery code hashes are required''] else [])"

definition update_kyc_validate :: "string \<Rightarrow> string \<Rightarrow> field_violation list" where
  "update_kyc_validate status reviewer =
     (if is_blank status then [violation ''new_status'' ''VAL-2030'' ''new_status must not be empty''] else []) @
     (if is_blank reviewer then [violation ''reviewer_id'' ''VAL-2031'' ''reviewer_id must not be empty''] else [])"

definition suspend_validate :: "string \<Rightarrow> field_violation list" where
  "suspend_validate reason =
     (if is_blank reason then [violation ''reason'' ''VAL-2040'' ''suspension reason must not be empty''] else [])"

definition assign_role_validate :: "string \<Rightarrow> field_violation list" where
  "assign_role_validate role =
     (if is_blank role then [violation ''role'' ''VAL-2060'' ''role must not be empty''] else [])"

definition revoke_role_validate :: "string \<Rightarrow> field_violation list" where
  "revoke_role_validate role =
     (if is_blank role then [violation ''role'' ''VAL-2070'' ''role must not be empty''] else [])"

text \<open>The other commands keep the default \<open>validate\<close>, which accepts everything.\<close>

fun account_validate :: "account_command \<Rightarrow> field_violation list" where
  "account_validate (CreateAccountCommand c) = create_validate c"
| "account_validate (ChangePasswordCommand _ h) = change_password_validate h"
| "account_validate (EnrollMfaCommand _ secret codes) = enroll_mfa_validate secret codes"
| "account_validate (UpdateKycStatusCommand _ s r) = update_kyc_validate s r"
| "account_validate (SuspendAccountCommand _ r) = suspend_validate r"
| "account_validate (AssignRoleCommand _ r) = assign_role_validate r"
| "account_validate (RevokeRoleCommand _ r) = revoke_role_validate r"
| "account_validate _ = []"

section \<open>Handlers\<close>

text \<open>What a handler takes from the clock and the UUID source: \<open>Utc::now()\<close> in the aggregate, \<open>NOW()\<close> in
  the statement, a fresh identifier.\<close>

record request_ctx =
  rq_now :: datetime
  rq_db_now :: datetime
  rq_fresh :: uuid
  rq_corr :: uuid

definition load_account :: "account_env \<Rightarrow> string \<Rightarrow> account account_step" where
  "load_account env id_str =
     st_bind (st_lift (ok_or (AccDomainViolation ''account_id'' ''invalid UUID format'') (acc_parse_uuid env id_str))) (\<lambda>i.
     st_bind (\<lambda>db. (account_find_by_id env db i, db)) (\<lambda>found.
     st_lift (ok_or (AccountNotFound id_str) found)))"

definition with_account ::
  "account_env \<Rightarrow> request_ctx \<Rightarrow> string \<Rightarrow> (account \<Rightarrow> account_error + account) \<Rightarrow> unit account_step" where
  "with_account env rq id_str f =
     st_bind (load_account env id_str) (\<lambda>a.
     st_bind (st_lift (f a)) (\<lambda>a'.
     account_save env (rq_db_now rq) a'))"

definition parse_role :: "string \<Rightarrow> account_error + account_role" where
  "parse_role raw = err_const (InvalidAccountRole raw) (account_role_try_from (str_trim raw))"

definition verify_email_handle :: "account_env \<Rightarrow> request_ctx \<Rightarrow> string \<Rightarrow> unit account_step" where
  "verify_email_handle env rq i = with_account env rq i (\<lambda>a. verify_email a (rq_now rq) (rq_corr rq))"

definition verify_phone_handle :: "account_env \<Rightarrow> request_ctx \<Rightarrow> string \<Rightarrow> unit account_step" where
  "verify_phone_handle env rq i = with_account env rq i (\<lambda>a. verify_phone a (rq_now rq) (rq_corr rq))"

definition change_password_handle :: "account_env \<Rightarrow> request_ctx \<Rightarrow> string \<Rightarrow> string \<Rightarrow> unit account_step" where
  "change_password_handle env rq i h = with_account env rq i (\<lambda>a. change_password a h (rq_now rq) (rq_corr rq))"

definition enroll_mfa_handle ::
  "account_env \<Rightarrow> request_ctx \<Rightarrow> string \<Rightarrow> bytes \<Rightarrow> string list \<Rightarrow> unit account_step" where
  "enroll_mfa_handle env rq i secret codes =
     with_account env rq i (\<lambda>a. enroll_mfa a secret codes (rq_now rq) (rq_now rq) (rq_corr rq))"

definition revoke_mfa_handle :: "account_env \<Rightarrow> request_ctx \<Rightarrow> string \<Rightarrow> unit account_step" where
  "revoke_mfa_handle env rq i = with_account env rq i (\<lambda>a. revoke_mfa a (rq_now rq) (rq_corr rq))"

definition update_kyc_handle :: "account_env \<Rightarrow> request_ctx \<Rightarrow> string \<Rightarrow> string \<Rightarrow> string \<Rightarrow> unit account_step" where
  "update_kyc_handle env rq i status reviewer =
     st_bind (st_lift (err_const (InvalidKycStatus status) (kyc_status_try_from (str_trim status)))) (\<lambda>k.
     st_bind (st_lift (ok_or (AccDomainViolation ''reviewer_id'' ''reviewer_id must be a valid UUID'')
                        (acc_parse_uuid env (str_trim reviewer)))) (\<lambda>r.
     with_account env rq i (\<lambda>a. update_kyc_status a k r (rq_now rq) (rq_corr rq))))"

definition suspend_handle :: "account_env \<Rightarrow> request_ctx \<Rightarrow> string \<Rightarrow> string \<Rightarrow> unit account_step" where
  "suspend_handle env rq i reason = with_account env rq i (\<lambda>a. suspend a reason (rq_now rq) (rq_corr rq))"

definition reactivate_handle :: "account_env \<Rightarrow> request_ctx \<Rightarrow> string \<Rightarrow> unit account_step" where
  "reactivate_handle env rq i = with_account env rq i (\<lambda>a. activate a (rq_now rq) (rq_corr rq))"

definition deactivate_handle :: "account_env \<Rightarrow> request_ctx \<Rightarrow> string \<Rightarrow> unit account_step" where
  "deactivate_handle env rq i = with_account env rq i (\<lambda>a. deactivate a (rq_now rq) (rq_corr rq))"

definition record_login_handle :: "account_env \<Rightarrow> request_ctx \<Rightarrow> string \<Rightarrow> unit account_step" where
  "record_login_handle env rq i = with_account env rq i (\<lambda>a. Inr (record_login a (rq_now rq)))"

definition record_failed_login_handle ::
  "account_env \<Rightarrow> request_ctx \<Rightarrow> string \<Rightarrow> u16 \<Rightarrow> u64 \<Rightarrow> unit account_step" where
  "record_failed_login_handle env rq i m l =
     with_account env rq i (\<lambda>a. Inr (record_failed_login a m l (rq_now rq) (rq_now rq)))"

definition request_gdpr_deletion_handle :: "account_env \<Rightarrow> request_ctx \<Rightarrow> string \<Rightarrow> u32 \<Rightarrow> unit account_step" where
  "request_gdpr_deletion_handle env rq i days =
     with_account env rq i (\<lambda>a. request_gdpr_deletion a days (rq_now rq) (rq_now rq) (rq_corr rq))"

definition anonymize_handle :: "account_env \<Rightarrow> request_ctx \<Rightarrow> string \<Rightarrow> unit account_step" where
  "anonymize_handle env rq i = with_account env rq i (\<lambda>a. anonymize a (rq_now rq) (rq_corr rq))"

definition request_data_export_handle :: "account_env \<Rightarrow> request_ctx \<Rightarrow> string \<Rightarrow> unit account_step" where
  "request_data_export_handle env rq i =
     with_account env rq i (\<lambda>a. request_gdpr_data_export a (rq_now rq) (rq_corr rq))"

definition assign_role_handle :: "account_env \<Rightarrow> request_ctx \<Rightarrow> string \<Rightarrow> string \<Rightarrow> unit account_step" where
  "assign_role_handle env rq i role =
     st_bind (st_lift (parse_role role)) (\<lambda>r.
     with_account env rq i (\<lambda>a. assign_role a r (rq_now rq) (rq_corr rq)))"

definition revoke_role_handle :: "account_env \<Rightarrow> request_ctx \<Rightarrow> string \<Rightarrow> string \<Rightarrow> unit account_step" where
  "revoke_role_handle env rq i role =
     st_bind (st_lift (parse_role role)) (\<lambda>r.
     with_account env rq i (\<lambda>a. revoke_role a r (rq_now rq) (rq_corr rq)))"

definition create_account_handle ::
  "account_env \<Rightarrow> request_ctx \<Rightarrow> create_account_command \<Rightarrow> unit account_step" where
  "create_account_handle env rq cmd =
     st_bind (st_lift (identity_id_new (str_trim (cc_identity_id cmd)))) (\<lambda>ident.
     st_bind (st_lift (email_new (to_lowercase env) (str_trim (cc_email cmd)))) (\<lambda>email.
     st_bind (st_read (\<lambda>db. exists_by_identity_id db ident)) (\<lambda>taken.
     st_bind (st_lift (guard_res (\<not> taken) (IdentityAlreadyRegistered (cc_identity_id cmd)))) (\<lambda>_.
     st_bind (st_read (\<lambda>db. exists_by_email db email)) (\<lambda>used.
     st_bind (st_lift (guard_res (\<not> used) (EmailAlreadyRegistered (cc_email cmd)))) (\<lambda>_.
     st_bind (st_lift (opt_res phone_new (cc_phone cmd))) (\<lambda>phone.
     st_bind (st_lift (opt_res (country_code_new env) (cc_country cmd))) (\<lambda>country.
     st_bind (st_lift (case cc_role cmd of
                         None \<Rightarrow> Inr User
                       | Some s \<Rightarrow> if is_blank s then Inr User
                                   else err_const (InvalidAccountRole s) (account_role_try_from s))) (\<lambda>role.
     st_bind (st_lift (opt_res (\<lambda>s. ok_or (AccDomainViolation ''created_by'' ''invalid UUID format'')
                                      (acc_parse_uuid env s)) (cc_created_by cmd))) (\<lambda>created_by.
     account_save env (rq_db_now rq)
       (account_create (rq_fresh rq) (rq_now rq)
          \<lparr>cp_identity = ident, cp_email = email, cp_password = cc_password_hash cmd, cp_phone = phone,
           cp_role = role, cp_country = country, cp_created_by = created_by,
           cp_correlation = rq_corr rq\<rparr>)))))))))))"

section \<open>The bus of the service\<close>

primrec account_command_type :: "account_command \<Rightarrow> string" where
  "account_command_type (CreateAccountCommand c) = ''CreateAccountCommand''"
| "account_command_type (VerifyEmailCommand i) = ''VerifyEmailCommand''"
| "account_command_type (VerifyPhoneCommand i) = ''VerifyPhoneCommand''"
| "account_command_type (ChangePasswordCommand i h) = ''ChangePasswordCommand''"
| "account_command_type (EnrollMfaCommand i s cs) = ''EnrollMfaCommand''"
| "account_command_type (RevokeMfaCommand i) = ''RevokeMfaCommand''"
| "account_command_type (UpdateKycStatusCommand i s r) = ''UpdateKycStatusCommand''"
| "account_command_type (SuspendAccountCommand i r) = ''SuspendAccountCommand''"
| "account_command_type (ReactivateAccountCommand i) = ''ReactivateAccountCommand''"
| "account_command_type (DeactivateAccountCommand i) = ''DeactivateAccountCommand''"
| "account_command_type (RecordLoginCommand i) = ''RecordLoginCommand''"
| "account_command_type (RecordFailedLoginCommand i m l) = ''RecordFailedLoginCommand''"
| "account_command_type (RequestGdprDeletionCommand i d) = ''RequestGdprDeletionCommand''"
| "account_command_type (AnonymizeAccountCommand i) = ''AnonymizeAccountCommand''"
| "account_command_type (RequestDataExportCommand i) = ''RequestDataExportCommand''"
| "account_command_type (AssignRoleCommand i r) = ''AssignRoleCommand''"
| "account_command_type (RevokeRoleCommand i r) = ''RevokeRoleCommand''"

text \<open>The handler of each command type; a handler is only given envelopes of its own type.\<close>

primrec account_handle :: "account_env \<Rightarrow> request_ctx \<Rightarrow> account_command \<Rightarrow> unit account_step" where
  "account_handle env rq (CreateAccountCommand c) = create_account_handle env rq c"
| "account_handle env rq (VerifyEmailCommand i) = verify_email_handle env rq i"
| "account_handle env rq (VerifyPhoneCommand i) = verify_phone_handle env rq i"
| "account_handle env rq (ChangePasswordCommand i h) = change_password_handle env rq i h"
| "account_handle env rq (EnrollMfaCommand i s cs) = enroll_mfa_handle env rq i s cs"
| "account_handle env rq (RevokeMfaCommand i) = revoke_mfa_handle env rq i"
| "account_handle env rq (UpdateKycStatusCommand i s r) = update_kyc_handle env rq i s r"
| "account_handle env rq (SuspendAccountCommand i r) = suspend_handle env rq i r"
| "account_handle env rq (ReactivateAccountCommand i) = reactivate_handle env rq i"
| "account_handle env rq (DeactivateAccountCommand i) = deactivate_handle env rq i"
| "account_handle env rq (RecordLoginCommand i) = record_login_handle env rq i"
| "account_handle env rq (RecordFailedLoginCommand i m l) = record_failed_login_handle env rq i m l"
| "account_handle env rq (RequestGdprDeletionCommand i d) = request_gdpr_deletion_handle env rq i d"
| "account_handle env rq (AnonymizeAccountCommand i) = anonymize_handle env rq i"
| "account_handle env rq (RequestDataExportCommand i) = request_data_export_handle env rq i"
| "account_handle env rq (AssignRoleCommand i r) = assign_role_handle env rq i r"
| "account_handle env rq (RevokeRoleCommand i r) = revoke_role_handle env rq i r"

text \<open>The handler takes the correlation id from the envelope.\<close>

definition account_handler ::
  "account_env \<Rightarrow> request_ctx \<Rightarrow> (account_command, account_error, account_db) command_handler" where
  "account_handler env rq e = account_handle env (rq\<lparr>rq_corr := correlation_id e\<rparr>) (payload e)"

definition account_command_types :: "string list" where
  "account_command_types =
     [''CreateAccountCommand'', ''VerifyEmailCommand'', ''VerifyPhoneCommand'', ''ChangePasswordCommand'',
      ''EnrollMfaCommand'', ''RevokeMfaCommand'', ''UpdateKycStatusCommand'', ''SuspendAccountCommand'',
      ''ReactivateAccountCommand'', ''DeactivateAccountCommand'', ''RecordLoginCommand'',
      ''RecordFailedLoginCommand'', ''RequestGdprDeletionCommand'', ''AnonymizeAccountCommand'',
      ''RequestDataExportCommand'', ''AssignRoleCommand'', ''RevokeRoleCommand'']"

text \<open>\<open>AccountApp::build\<close>: one registration per command type, and no layer around the registry.\<close>

definition account_registry ::
  "account_env \<Rightarrow> request_ctx \<Rightarrow>
   account_error cqrs_error + (account_command, account_error, account_db) registry" where
  "account_registry env rq = bus_build (map (\<lambda>n. (n, account_handler env rq)) account_command_types) Map.empty"

definition account_bus ::
  "account_env \<Rightarrow> request_ctx \<Rightarrow> (account_command, account_error, account_db) command_bus" where
  "account_bus env rq =
     (case account_registry env rq of
        Inr m \<Rightarrow> in_memory_dispatch account_command_type account_answers m
      | Inl e \<Rightarrow> (\<lambda>_ s. (Inl e, s)))"

text \<open>The gRPC entry point for enrolment: no recovery codes are passed on.\<close>

definition grpc_enroll_mfa :: "uuid \<Rightarrow> uuid \<Rightarrow> datetime \<Rightarrow> string \<Rightarrow> bytes \<Rightarrow> account_command envelope" where
  "grpc_enroll_mfa msg corr now i secret = envelope_new msg now corr (EnrollMfaCommand i secret [])"

section \<open>Every command type is registered\<close>

lemma account_registry_ok:
  "\<exists>m. account_registry env rq = Inr m \<and> (\<forall>c. m (account_command_type c) = Some (account_handler env rq))"
proof -
  have "account_command_type c \<in> set account_command_types" for c
    by (cases c) (simp_all add: account_command_types_def)
  moreover have "distinct account_command_types" by code_simp
  ultimately show ?thesis unfolding account_registry_def by (simp add: bus_build_distinct)
qed

lemma account_bus_dispatch:
  "account_bus env rq e s =
     (case account_handler env rq e (service_state s) of
        (Inl err, t) \<Rightarrow> (Inl (from_handler account_answers err), s\<lparr>service_state := t\<rparr>)
      | (Inr _, t) \<Rightarrow> (Inr (), s\<lparr>service_state := t\<rparr>))"
proof -
  obtain m where "account_registry env rq = Inr m" "m (account_command_type (payload e)) = Some (account_handler env rq)"
    using account_registry_ok by blast
  then show ?thesis by (simp add: account_bus_def in_memory_dispatch_def)
qed

section \<open>The commands the service runs\<close>

text \<open>No handler of the service calls \<open>change_email\<close> or \<open>change_phone\<close>.\<close>

primrec service_cmd :: "account_cmd \<Rightarrow> bool" where
  "service_cmd (VerifyEmail now corr) = True"
| "service_cmd (VerifyPhone now corr) = True"
| "service_cmd (ChangePassword h now corr) = True"
| "service_cmd (ChangeEmail e now corr) = False"
| "service_cmd (ChangePhone p now corr) = False"
| "service_cmd (EnrollMfa s cs t1 now corr) = True"
| "service_cmd (RevokeMfa now corr) = True"
| "service_cmd (AssignRole r now corr) = True"
| "service_cmd (RevokeRole r now corr) = True"
| "service_cmd (Suspend reason now corr) = True"
| "service_cmd (Activate now corr) = True"
| "service_cmd (Deactivate now corr) = True"
| "service_cmd (DeleteAccount b now corr) = True"
| "service_cmd (UpdateKyc k r now corr) = True"
| "service_cmd (RequestGdprDeletion d t1 now corr) = True"
| "service_cmd (RequestDataExport now corr) = True"
| "service_cmd (Anonymize now corr) = True"
| "service_cmd (RecordLogin now) = True"
| "service_cmd (RecordFailedLogin m l t1 now) = True"

definition fixed_columns :: "account \<Rightarrow> string \<times> string \<times> datetime \<times> uuid option \<times> string option" where
  "fixed_columns a = (identity_id a, acc_email a, created_at a, created_by a, country_of_residence a)"

lemma touch_push_fixed [simp]:
  "fixed_columns (acc_touch now a) = fixed_columns a" "fixed_columns (acc_push e a) = fixed_columns a"
  by (simp_all add: fixed_columns_def acc_touch_def acc_push_def)

lemma service_cmd_fixed:
  assumes "service_cmd c" "account_exec a c = Inr a'"
  shows "fixed_columns a' = fixed_columns a \<and> (acc_phone a' = acc_phone a \<or> acc_phone a' = None)"
proof (cases c)
  case (Anonymize now corr)
  then show ?thesis using assms
    by (cases "acc_status a";
        clarsimp simp: anonymize_def transition_status_def account_can_transition_to_def Let_def split: if_splits;
        simp add: fixed_columns_def)
qed (insert assms, (clarsimp simp: account_cmd_defs split: if_splits;
       simp add: fixed_columns_def acc_touch_def acc_push_def)+)

lemma service_cmd_succeeds:
  assumes "service_cmd c" "account_wf a" "acc_valid env a" "account_exec a c = Inr a'"
  shows "succeeds env a a'"
  using service_cmd_fixed [OF assms(1,4)] account_exec_step [OF assms(4)] account_exec_wf [OF assms(2,4)] assms(3)
  by (auto simp: succeeds_def acc_valid_def fixed_columns_def)

definition account_load :: "account_env \<Rightarrow> account_db \<Rightarrow> uuid \<Rightarrow> account option" where
  "account_load env db i = (case account_find_by_id env db i of Inr found \<Rightarrow> found | Inl _ \<Rightarrow> None)"

definition account_settle :: "account_env \<Rightarrow> datetime \<Rightarrow> account \<Rightarrow> account" where
  "account_settle env t a = settled env (acc_version a) t a"

lemma account_load_Some:
  assumes "accounts_ok env db" "account_load env db i = Some a"
  shows "account_find_by_id env db i = Inr (Some a)" "acc_id a = i" "account_wf a" "acc_valid env a" "1 \<le> acc_version a"
proof -
  show f: "account_find_by_id env db i = Inr (Some a)"
    using assms(2) by (auto simp: account_load_def split: sum.splits)
  obtain r where r: "r \<in> set (acc_rows db)" "row_id r = i" "account_of_row env r = Inr a"
    using f by (rule find_by_id_row)
  then show "acc_id a = i" "account_wf a" "acc_valid env a" "1 \<le> acc_version a"
    using assms(1) account_of_row_fields(1,2) [OF r(3)] by (auto simp: accounts_ok_def row_ok_def)
qed

lemma account_save_hit:
  assumes ok: "accounts_ok env db" and a: "account_load env db (acc_id a) = Some a"
    and c: "service_cmd c" "account_exec a c = Inr a'"
  shows "accounts_ok env (snd (account_save env t a' db)) \<and>
    account_load env (snd (account_save env t a' db)) = (account_load env db)(acc_id a \<mapsto> account_settle env t a')"
proof -
  note load = account_load_Some [OF ok a]
  obtain res db' where save: "account_save env t a' db = (res, db')" by (cases "account_save env t a' db")
  have s: "succeeds env a a'" using c load by (intro service_cmd_succeeds)
  show ?thesis
    using save_update [OF ok load(1) s save] save by (auto simp: account_load_def account_settle_def fun_eq_iff)
qed

lemma account_save_stale:
  assumes ok: "accounts_ok env db" and b: "account_load env db (acc_id a) = Some b" "acc_version b \<noteq> acc_version a"
    and a: "1 \<le> acc_version a" and c: "account_exec a c = Inr a'"
  shows "account_save env t a' db = (Inl AccConcurrentModification, db)"
proof -
  note step = account_exec_step [OF c]
  obtain r where r: "r \<in> set (acc_rows db)" "row_id r = acc_id a" "account_of_row env r = Inr b"
    using account_load_Some(1) [OF ok b(1)] by (rule find_by_id_row)
  have "\<not> row_matches a' x" if "x \<in> set (acc_rows db)" for x
  proof
    assume m: "row_matches a' x"
    then have "row_id x = row_id r" using r(2) step by (simp add: row_matches_def)
    then have "x = r" using ok that r(1) unfolding accounts_ok_def by (metis distinct_map inj_onD)
    then show False using m b(2) account_of_row_fields(2) [OF r(3)] step by (simp add: row_matches_def)
  qed
  then have "pg_account_update env t a' db = Inl AccConcurrentModification"
    by (simp add: pg_account_update_def list_ex_iff)
  then show ?thesis using a step by (simp add: account_save_def st_bind_def st_try_def)
qed

interpretation acct_store: occ_store "account_load env" account_exec "account_save env" "account_settle env" acc_id acc_version
  "accounts_ok env" "\<lambda>a. 1 \<le> acc_version a" service_cmd for env
proof
  show "account_load env db k = Some a \<Longrightarrow> acc_id a = k \<and> 1 \<le> acc_version a" if "accounts_ok env db" for db k a
    using account_load_Some(2,5) [OF that] by blast
  show "account_exec a c = Inr a' \<Longrightarrow> acc_id a' = acc_id a \<and> acc_version a' = acc_version a + 1" for a c a'
    using account_exec_step by blast
  show "acc_id (account_settle env t a) = acc_id a" "acc_version (account_settle env t a) = acc_version a" for t a
    by (simp_all add: account_settle_def)
qed (use account_save_hit account_save_stale in \<open>simp_all\<close>)

section \<open>What a handler does to the table\<close>

text \<open>The aggregate command a request stands for, if its arguments parse.\<close>

primrec account_op :: "account_env \<Rightarrow> request_ctx \<Rightarrow> account_command \<Rightarrow> (uuid \<times> account_cmd \<times> datetime) option" where
  "account_op env rq (CreateAccountCommand c) = None"
| "account_op env rq (VerifyEmailCommand i) =
     map_option (\<lambda>u. (u, VerifyEmail (rq_now rq) (rq_corr rq), rq_db_now rq)) (acc_parse_uuid env i)"
| "account_op env rq (VerifyPhoneCommand i) =
     map_option (\<lambda>u. (u, VerifyPhone (rq_now rq) (rq_corr rq), rq_db_now rq)) (acc_parse_uuid env i)"
| "account_op env rq (ChangePasswordCommand i h) =
     map_option (\<lambda>u. (u, ChangePassword h (rq_now rq) (rq_corr rq), rq_db_now rq)) (acc_parse_uuid env i)"
| "account_op env rq (EnrollMfaCommand i s cs) =
     map_option (\<lambda>u. (u, EnrollMfa s cs (rq_now rq) (rq_now rq) (rq_corr rq), rq_db_now rq)) (acc_parse_uuid env i)"
| "account_op env rq (RevokeMfaCommand i) =
     map_option (\<lambda>u. (u, RevokeMfa (rq_now rq) (rq_corr rq), rq_db_now rq)) (acc_parse_uuid env i)"
| "account_op env rq (UpdateKycStatusCommand i s r) =
     (case (kyc_status_try_from (str_trim s), acc_parse_uuid env (str_trim r)) of
        (Inr k, Some v) \<Rightarrow> map_option (\<lambda>u. (u, UpdateKyc k v (rq_now rq) (rq_corr rq), rq_db_now rq)) (acc_parse_uuid env i)
      | _ \<Rightarrow> None)"
| "account_op env rq (SuspendAccountCommand i reason) =
     map_option (\<lambda>u. (u, Suspend reason (rq_now rq) (rq_corr rq), rq_db_now rq)) (acc_parse_uuid env i)"
| "account_op env rq (ReactivateAccountCommand i) =
     map_option (\<lambda>u. (u, Activate (rq_now rq) (rq_corr rq), rq_db_now rq)) (acc_parse_uuid env i)"
| "account_op env rq (DeactivateAccountCommand i) =
     map_option (\<lambda>u. (u, Deactivate (rq_now rq) (rq_corr rq), rq_db_now rq)) (acc_parse_uuid env i)"
| "account_op env rq (RecordLoginCommand i) =
     map_option (\<lambda>u. (u, RecordLogin (rq_now rq), rq_db_now rq)) (acc_parse_uuid env i)"
| "account_op env rq (RecordFailedLoginCommand i m l) =
     map_option (\<lambda>u. (u, RecordFailedLogin m l (rq_now rq) (rq_now rq), rq_db_now rq)) (acc_parse_uuid env i)"
| "account_op env rq (RequestGdprDeletionCommand i d) =
     map_option (\<lambda>u. (u, RequestGdprDeletion d (rq_now rq) (rq_now rq) (rq_corr rq), rq_db_now rq)) (acc_parse_uuid env i)"
| "account_op env rq (AnonymizeAccountCommand i) =
     map_option (\<lambda>u. (u, Anonymize (rq_now rq) (rq_corr rq), rq_db_now rq)) (acc_parse_uuid env i)"
| "account_op env rq (RequestDataExportCommand i) =
     map_option (\<lambda>u. (u, RequestDataExport (rq_now rq) (rq_corr rq), rq_db_now rq)) (acc_parse_uuid env i)"
| "account_op env rq (AssignRoleCommand i r) =
     (case parse_role r of
        Inr role \<Rightarrow> map_option (\<lambda>u. (u, AssignRole role (rq_now rq) (rq_corr rq), rq_db_now rq)) (acc_parse_uuid env i)
      | Inl _ \<Rightarrow> None)"
| "account_op env rq (RevokeRoleCommand i r) =
     (case parse_role r of
        Inr role \<Rightarrow> map_option (\<lambda>u. (u, RevokeRole role (rq_now rq) (rq_corr rq), rq_db_now rq)) (acc_parse_uuid env i)
      | Inl _ \<Rightarrow> None)"

definition apply_op :: "account_env \<Rightarrow> (uuid \<times> account_cmd \<times> datetime) option \<Rightarrow> (uuid \<Rightarrow> account option) \<Rightarrow> uuid \<Rightarrow> account option" where
  "apply_op env op m = (case op of None \<Rightarrow> m | Some x \<Rightarrow> atomic_do account_exec (account_settle env) x m)"

lemma find_ok:
  assumes "accounts_ok env db"
  shows "account_find_by_id env db i = Inr (account_load env db i)"
proof (cases "find (\<lambda>r. row_id r = i) (acc_rows db)")
  case None
  then show ?thesis by (simp add: account_find_by_id_def account_load_def)
next
  case (Some r)
  then obtain a where "account_of_row env r = Inr a"
    using assms find_key_Some [OF Some] by (auto simp: accounts_ok_def row_ok_def)
  then show ?thesis using Some by (simp add: account_find_by_id_def account_load_def)
qed

lemma with_account_refines:
  assumes ok: "accounts_ok env db" and c: "service_cmd c"
    and run: "with_account env rq s (\<lambda>a. account_exec a c) db = (r, db')"
  shows "accounts_ok env db' \<and> account_load env db' =
    apply_op env (map_option (\<lambda>u. (u, c, rq_db_now rq)) (acc_parse_uuid env s)) (account_load env db)"
proof (cases "acc_parse_uuid env s")
  case None
  then show ?thesis
    using run ok by (simp add: with_account_def load_account_def state_defs ok_or_def apply_op_def)
next
  case (Some i)
  note found = find_ok [OF ok, of i]
  show ?thesis
  proof (cases "account_load env db i")
    case None
    then show ?thesis
      using run ok Some found
      by (auto simp: with_account_def load_account_def state_defs ok_or_def apply_op_def atomic_do_def)
  next
    case load: (Some a)
    have id: "acc_id a = i" using account_load_Some(2) [OF ok load] .
    show ?thesis
    proof (cases "account_exec a c")
      case (Inl e)
      then show ?thesis
        using run ok Some found load
        by (auto simp: with_account_def load_account_def state_defs ok_or_def apply_op_def atomic_do_def)
    next
      case (Inr a')
      have "account_save env (rq_db_now rq) a' db = (r, db')"
        using run Some found load Inr by (simp add: with_account_def load_account_def state_defs ok_or_def)
      then show ?thesis
        using account_save_hit [OF ok load [folded id] c Inr, of "rq_db_now rq"] id Some load Inr
        by (simp add: apply_op_def atomic_do_def)
    qed
  qed
qed

lemma simple_handler_refines:
  assumes "accounts_ok env db" "account_handle env rq cmd db = (r, db')"
    and "account_handle env rq cmd = with_account env rq i (\<lambda>a. account_exec a c)" "service_cmd c"
    and "account_op env rq cmd = map_option (\<lambda>u. (u, c, rq_db_now rq)) (acc_parse_uuid env i)"
  shows "accounts_ok env db' \<and> account_load env db' = apply_op env (account_op env rq cmd) (account_load env db)"
  using assms with_account_refines [of env db c rq i r db'] by simp

lemma role_handler_refines:
  assumes ok: "accounts_ok env db" and s: "\<And>x. service_cmd (k x)"
    and run: "st_bind (st_lift p) (\<lambda>x. with_account env rq i (\<lambda>a. account_exec a (k x))) db = (r, db')"
  shows "accounts_ok env db' \<and> account_load env db' =
    apply_op env (case p of Inr x \<Rightarrow> map_option (\<lambda>u. (u, k x, rq_db_now rq)) (acc_parse_uuid env i) | Inl _ \<Rightarrow> None)
      (account_load env db)"
proof (cases p)
  case (Inl e)
  then show ?thesis using run ok by (simp add: state_defs apply_op_def)
next
  case (Inr x)
  then show ?thesis using run with_account_refines [OF ok s, of rq i x r db'] by (simp add: state_defs)
qed

lemma account_handle_refines:
  assumes ok: "accounts_ok env db" and run: "account_handle env rq cmd db = (r, db')"
    and old: "\<And>c. cmd \<noteq> CreateAccountCommand c"
  shows "accounts_ok env db' \<and> account_load env db' = apply_op env (account_op env rq cmd) (account_load env db)"
proof (cases cmd)
  case (CreateAccountCommand c)
  then show ?thesis using old by blast
next
  case (VerifyEmailCommand i)
  then show ?thesis
    by (intro simple_handler_refines [OF ok run, of i "VerifyEmail (rq_now rq) (rq_corr rq)"]) (simp_all add: verify_email_handle_def)
next
  case (VerifyPhoneCommand i)
  then show ?thesis
    by (intro simple_handler_refines [OF ok run, of i "VerifyPhone (rq_now rq) (rq_corr rq)"]) (simp_all add: verify_phone_handle_def)
next
  case (ChangePasswordCommand i h)
  then show ?thesis
    by (intro simple_handler_refines [OF ok run, of i "ChangePassword h (rq_now rq) (rq_corr rq)"]) (simp_all add: change_password_handle_def)
next
  case (EnrollMfaCommand i s cs)
  then show ?thesis
    by (intro simple_handler_refines [OF ok run, of i "EnrollMfa s cs (rq_now rq) (rq_now rq) (rq_corr rq)"]) (simp_all add: enroll_mfa_handle_def)
next
  case (RevokeMfaCommand i)
  then show ?thesis
    by (intro simple_handler_refines [OF ok run, of i "RevokeMfa (rq_now rq) (rq_corr rq)"]) (simp_all add: revoke_mfa_handle_def)
next
  case (SuspendAccountCommand i reason)
  then show ?thesis
    by (intro simple_handler_refines [OF ok run, of i "Suspend reason (rq_now rq) (rq_corr rq)"]) (simp_all add: suspend_handle_def)
next
  case (ReactivateAccountCommand i)
  then show ?thesis
    by (intro simple_handler_refines [OF ok run, of i "Activate (rq_now rq) (rq_corr rq)"]) (simp_all add: reactivate_handle_def)
next
  case (DeactivateAccountCommand i)
  then show ?thesis
    by (intro simple_handler_refines [OF ok run, of i "Deactivate (rq_now rq) (rq_corr rq)"]) (simp_all add: deactivate_handle_def)
next
  case (RecordLoginCommand i)
  then show ?thesis
    by (intro simple_handler_refines [OF ok run, of i "RecordLogin (rq_now rq)"]) (simp_all add: record_login_handle_def)
next
  case (RecordFailedLoginCommand i m l)
  then show ?thesis
    by (intro simple_handler_refines [OF ok run, of i "RecordFailedLogin m l (rq_now rq) (rq_now rq)"]) (simp_all add: record_failed_login_handle_def)
next
  case (RequestGdprDeletionCommand i d)
  then show ?thesis
    by (intro simple_handler_refines [OF ok run, of i "RequestGdprDeletion d (rq_now rq) (rq_now rq) (rq_corr rq)"]) (simp_all add: request_gdpr_deletion_handle_def)
next
  case (AnonymizeAccountCommand i)
  then show ?thesis
    by (intro simple_handler_refines [OF ok run, of i "Anonymize (rq_now rq) (rq_corr rq)"]) (simp_all add: anonymize_handle_def)
next
  case (RequestDataExportCommand i)
  then show ?thesis
    by (intro simple_handler_refines [OF ok run, of i "RequestDataExport (rq_now rq) (rq_corr rq)"]) (simp_all add: request_data_export_handle_def)
next
  case (AssignRoleCommand i role)
  then show ?thesis
    using role_handler_refines [OF ok, of "\<lambda>x. AssignRole x (rq_now rq) (rq_corr rq)" "parse_role role" rq i r db'] run
    by (simp add: assign_role_handle_def)
next
  case (RevokeRoleCommand i role)
  then show ?thesis
    using role_handler_refines [OF ok, of "\<lambda>x. RevokeRole x (rq_now rq) (rq_corr rq)" "parse_role role" rq i r db'] run
    by (simp add: revoke_role_handle_def)
next
  case (UpdateKycStatusCommand i s v)
  let ?p = "bind_res (err_const (InvalidKycStatus s) (kyc_status_try_from (str_trim s))) (\<lambda>k.
    bind_res (ok_or (AccDomainViolation ''reviewer_id'' ''reviewer_id must be a valid UUID'')
      (acc_parse_uuid env (str_trim v))) (\<lambda>u. Inr (k, u)))"
  have "st_bind (st_lift ?p) (\<lambda>x. with_account env rq i (\<lambda>a. account_exec a
      (UpdateKyc (fst x) (snd x) (rq_now rq) (rq_corr rq)))) db = (r, db')"
    using run UpdateKycStatusCommand
    by (auto simp: update_kyc_handle_def state_defs ok_or_def err_const_def split: sum.splits option.splits)
  then show ?thesis
    using role_handler_refines [OF ok, of "\<lambda>x. UpdateKyc (fst x) (snd x) (rq_now rq) (rq_corr rq)" ?p rq i r db']
      UpdateKycStatusCommand
    by (auto simp: ok_or_def err_const_def split: sum.splits option.splits)
qed

text \<open>A create request stops before the table is touched, or saves an aggregate of parsed values.\<close>

lemma st_lift_bind_cases:
  assumes "st_bind (st_lift m) f db = (r, db')"
  shows "db' = db \<or> (\<exists>x. m = Inr x \<and> f x db = (r, db'))"
  using assms by (cases m) (auto simp: state_defs)

lemma st_read_bind: "st_bind (st_read g) f db = f (g db) db"
  by (simp add: state_defs)

lemma create_handle_cases:
  assumes run: "create_account_handle env rq cmd db = (r, db')" and "db' \<noteq> db"
  shows "\<exists>p. identity_id_new (str_trim (cc_identity_id cmd)) = Inr (cp_identity p) \<and>
    email_new (to_lowercase env) (str_trim (cc_email cmd)) = Inr (cp_email p) \<and>
    opt_res phone_new (cc_phone cmd) = Inr (cp_phone p) \<and>
    opt_res (country_code_new env) (cc_country cmd) = Inr (cp_country p) \<and>
    account_save env (rq_db_now rq) (account_create (rq_fresh rq) (rq_now rq) p) db = (r, db')"
proof -
  from run [unfolded create_account_handle_def st_read_bind]
  obtain ident email phone country role cb where
    "identity_id_new (str_trim (cc_identity_id cmd)) = Inr ident"
    "email_new (to_lowercase env) (str_trim (cc_email cmd)) = Inr email"
    "opt_res phone_new (cc_phone cmd) = Inr phone"
    "opt_res (country_code_new env) (cc_country cmd) = Inr country"
    "account_save env (rq_db_now rq) (account_create (rq_fresh rq) (rq_now rq)
       \<lparr>cp_identity = ident, cp_email = email, cp_password = cc_password_hash cmd, cp_phone = phone,
        cp_role = role, cp_country = country, cp_created_by = cb, cp_correlation = rq_corr rq\<rparr>) db = (r, db')"
    using assms(2) by (blast dest!: st_lift_bind_cases)
  then show ?thesis
    by (intro exI [of _ "\<lparr>cp_identity = ident, cp_email = email, cp_password = cc_password_hash cmd, cp_phone = phone,
        cp_role = role, cp_country = country, cp_created_by = cb, cp_correlation = rq_corr rq\<rparr>"]) simp
qed

lemma create_handler_ok:
  assumes ok: "accounts_ok env db" and maps: "case_maps_idempotent env"
    and run: "create_account_handle env rq cmd db = (r, db')"
  shows "accounts_ok env db' \<and> (acc_rows db' = acc_rows db \<or>
    (\<exists>p. account_load env db (rq_fresh rq) = None \<and>
      account_load env db' = (account_load env db)(rq_fresh rq \<mapsto>
        inserted env (account_create (rq_fresh rq) (rq_now rq) p))))"
proof (cases "db' = db")
  case True
  then show ?thesis using ok by simp
next
  case False
  from create_handle_cases [OF run this] obtain p where
    p: "identity_id_new (str_trim (cc_identity_id cmd)) = Inr (cp_identity p)"
    "email_new (to_lowercase env) (str_trim (cc_email cmd)) = Inr (cp_email p)"
    "opt_res phone_new (cc_phone cmd) = Inr (cp_phone p)"
    "opt_res (country_code_new env) (cc_country cmd) = Inr (cp_country p)"
    and save: "account_save env (rq_db_now rq) (account_create (rq_fresh rq) (rq_now rq) p) db = (r, db')"
    by blast
  let ?a = "account_create (rq_fresh rq) (rq_now rq) p"
  have "opt_res phone_new (cp_phone p) = Inr (cp_phone p)"
    using p(3) by (auto simp: opt_res_def bind_res_Inr_iff dest: phone_again split: option.splits)
  moreover have "opt_res (country_code_new env) (cp_country p) = Inr (cp_country p)"
    using p(4) by (auto simp: opt_res_def bind_res_Inr_iff dest: country_code_again [OF maps] split: option.splits)
  ultimately have valid: "acc_valid env ?a"
    using p(1) identity_id_again [OF p(1)] email_new_again [OF maps p(2)]
    by (simp add: acc_valid_def account_create_def)
  have new: "acc_version ?a = 0" "acc_id ?a = rq_fresh rq" "updated_at ?a = rq_now rq"
    by (simp_all add: account_create_def)
  show ?thesis
    using save_insert [OF ok new(1) account_create_wf valid save] new
    by (auto simp: account_load_def fun_eq_iff)
qed

section \<open>Properties\<close>

definition serve :: "account_env \<Rightarrow> request_ctx \<times> account_command \<Rightarrow> account_db \<Rightarrow> account_db" where
  "serve env x db = snd (account_handle env (fst x) (snd x) db)"

lemma serve_ok: "case_maps_idempotent env \<Longrightarrow> accounts_ok env db \<Longrightarrow> accounts_ok env (serve env x db)"
proof (cases "\<exists>c. snd x = CreateAccountCommand c")
  case True
  assume *: "case_maps_idempotent env" "accounts_ok env db"
  then show ?thesis
    using True create_handler_ok [OF *(2,1)] unfolding serve_def by (metis account_handle.simps(1) prod.collapse)
next
  case False
  assume "accounts_ok env db"
  then show ?thesis
    using False account_handle_refines unfolding serve_def by (metis prod.collapse)
qed

lemma serve_all_ok:
  assumes "case_maps_idempotent env"
  shows "accounts_ok env (fold (serve env) xs \<lparr>acc_rows = [], acc_published = []\<rparr>)"
proof -
  have "accounts_ok env db \<Longrightarrow> accounts_ok env (fold (serve env) xs db)" for db
    by (induction xs arbitrary: db) (simp_all add: serve_ok [OF assms])
  moreover have "accounts_ok env \<lparr>acc_rows = [], acc_published = []\<rparr>" by (simp add: accounts_ok_def)
  ultimately show ?thesis by blast
qed

text \<open>
  C28. The accounts table stays well typed.  Whatever requests the service handles, starting from an
  empty table and whatever they answer, every row decodes into an aggregate: its status, KYC status
  and roles are known names, its e-mail, phone, identity and country pass the validation of their
  value objects again and come back unchanged, and the aggregate satisfies the domain invariant.  No
  two rows share an id, an identity or an e-mail address.
\<close>

theorem accounts_table_typed:
  assumes "case_maps_idempotent env"
    and "db = fold (serve env) xs \<lparr>acc_rows = [], acc_published = []\<rparr>"
  shows "distinct (map row_id (acc_rows db)) \<and> distinct (map row_identity_id (acc_rows db)) \<and>
    distinct (map row_email (acc_rows db)) \<and>
    (\<forall>r \<in> set (acc_rows db). \<exists>a. account_of_row env r = Inr a \<and> account_wf a \<and> acc_valid env a \<and>
       acc_email a = row_email r \<and> acc_version a = row_version r)"
  using serve_all_ok [OF assms(1), of xs] account_of_row_fields(2) unfolding assms(2) accounts_ok_def row_ok_def by blast

definition ascii_env :: account_env where
  "ascii_env = \<lparr>to_lowercase = id, to_uppercase = id, debug_str = id, column_time = (\<lambda>t. t div 1000 * 1000),
     acc_parse_uuid = (\<lambda>s. if s = ''u1'' then Some 1 else None), acc_publish_fault = (\<lambda>_. None)\<rparr>"

definition sample_ctx :: "datetime \<Rightarrow> request_ctx" where
  "sample_ctx t = \<lparr>rq_now = t, rq_db_now = t, rq_fresh = 1, rq_corr = 9\<rparr>"

definition sample_create :: create_account_command where
  "sample_create = \<lparr>cc_identity_id = ''kc-1'', cc_email = ''a@b.io'', cc_phone = Some ''+33612345678'',
     cc_password_hash = Some ''h'', cc_country = Some ''FR'', cc_role = None, cc_created_by = None\<rparr>"

definition sample_requests :: "(request_ctx \<times> account_command) list" where
  "sample_requests =
     [(sample_ctx 1000, CreateAccountCommand sample_create), (sample_ctx 2000, VerifyEmailCommand ''u1''),
      (sample_ctx 3000, AssignRoleCommand ''u1'' ''admin''), (sample_ctx 4000, SuspendAccountCommand ''u1'' ''spam'')]"

definition sample_db :: account_db where
  "sample_db = fold (serve ascii_env) sample_requests \<lparr>acc_rows = [], acc_published = []\<rparr>"

lemma ascii_case_maps: "case_maps_idempotent ascii_env"
  by (simp add: case_maps_idempotent_def ascii_env_def)

theorem accounts_table_typed_witness:
  "\<exists>r a. acc_rows sample_db = [r] \<and> row_status r = ''suspended'' \<and> row_version r = 4 \<and>
     account_of_row ascii_env r = Inr a \<and> account_wf a"
proof -
  have "map row_status (acc_rows sample_db) = [''suspended''] \<and> map row_version (acc_rows sample_db) = [4]"
    by code_simp
  then obtain r where r: "acc_rows sample_db = [r]" "row_status r = ''suspended''" "row_version r = 4"
    by auto
  then show ?thesis
    using accounts_table_typed [OF ascii_case_maps sample_db_def] by auto
qed

text \<open>
  C27. A handler is its domain command.  On a well-typed table, a handler of an existing account has on
  the stored accounts exactly the effect of applying the aggregate command the request stands for to
  the account it names, and saving the result: nothing happens when an argument does not parse, the
  account does not exist or the command is refused; no other account changes; and the effect is the
  same whether or not publishing the events fails afterwards.
\<close>

theorem account_handlers_refine:
  assumes "accounts_ok env db" "\<And>c. cmd \<noteq> CreateAccountCommand c" "account_handle env rq cmd db = (r, db')"
  shows "account_load env db' = apply_op env (account_op env rq cmd) (account_load env db)"
  using account_handle_refines [OF assms(1,3,2)] by blast

lemma sample_db_ok: "accounts_ok ascii_env sample_db"
  unfolding sample_db_def by (intro serve_all_ok ascii_case_maps)

theorem account_handlers_refine_witness:
  "account_load ascii_env
     (snd (account_handle ascii_env (sample_ctx 5000) (ReactivateAccountCommand ''u1'') sample_db)) =
   apply_op ascii_env (account_op ascii_env (sample_ctx 5000) (ReactivateAccountCommand ''u1'')) (account_load ascii_env sample_db) \<and>
   map_option acc_status (account_load ascii_env sample_db 1) = Some Suspended"
proof -
  have "map_option acc_status (account_load ascii_env sample_db 1) = Some Suspended" by code_simp
  then show ?thesis
    using account_handlers_refine [OF sample_db_ok, of "ReactivateAccountCommand ''u1''" "sample_ctx 5000"]
    by (metis account_command.distinct(15) prod.collapse)
qed

text \<open>
  C26. Concurrent handlers serialise.  Take any interleaving of the loads and the saves of any number of
  handlers over one table, and keep the handlers whose copy was still current at their save.  The
  accounts the interleaving leaves are the ones left by running exactly those handlers one after the
  other, each as one atomic step, in the order of their saves: no update is lost and no handler
  commits a decision taken on an outdated account.
\<close>

theorem account_handlers_serialise:
  assumes "accounts_ok env db" "\<forall>x \<in> set xs. \<forall>c \<in> step_cmds x. service_cmd c"
  shows "account_load env (occ_db (fold (occ_do (account_load env) account_exec (account_save env)) xs
             \<lparr>occ_db = db, occ_copy = (\<lambda>_. None)\<rparr>)) =
    fold (atomic_do account_exec (account_settle env))
      (occ_log (account_load env) acc_id acc_version account_exec (account_save env) xs
         \<lparr>occ_db = db, occ_copy = (\<lambda>_. None)\<rparr>)
      (account_load env db)"
  using acct_store.interleaving_serialises [OF acct_store.copies_ok_init [OF assms(1)] assms(2)] by simp

theorem account_handlers_serialise_witness:
  "occ_log (account_load ascii_env) acc_id acc_version account_exec (account_save ascii_env)
     [Begin 0 1, Begin 1 1, Commit 1 (Activate 5000 9) 5000, Commit 0 (AssignRole SuperAdmin 6000 9) 6000]
     \<lparr>occ_db = sample_db, occ_copy = (\<lambda>_. None)\<rparr> = [(1, Activate 5000 9, 5000)] \<and>
   account_load ascii_env (occ_db (fold (occ_do (account_load ascii_env) account_exec (account_save ascii_env))
     [Begin 0 1, Begin 1 1, Commit 1 (Activate 5000 9) 5000, Commit 0 (AssignRole SuperAdmin 6000 9) 6000]
     \<lparr>occ_db = sample_db, occ_copy = (\<lambda>_. None)\<rparr>)) =
   atomic_do account_exec (account_settle ascii_env) (1, Activate 5000 9, 5000) (account_load ascii_env sample_db)"
proof -
  let ?xs = "[Begin 0 1, Begin 1 1, Commit 1 (Activate 5000 9) 5000, Commit 0 (AssignRole SuperAdmin 6000 9) 6000]"
  let ?s = "\<lparr>occ_db = sample_db, occ_copy = (\<lambda>_. None)\<rparr>"
  have "occ_log (account_load ascii_env) acc_id acc_version account_exec (account_save ascii_env) ?xs ?s =
      [(1, Activate 5000 9, 5000)]"
    by code_simp
  then show ?thesis
    using account_handlers_serialise [OF sample_db_ok, of ?xs] by simp
qed

text \<open>
  A \<open>TIMESTAMPTZ\<close> column has a resolution of a microsecond, and a time it holds is stored as it is.
\<close>

definition column_of_micros :: "account_env \<Rightarrow> bool" where
  "column_of_micros env \<longleftrightarrow>
     (\<forall>t. column_time env (column_time env t) = column_time env t \<and> \<bar>t - column_time env t\<bar> < 1000)"

lemma stored_times_again:
  assumes "\<forall>t. column_time env (column_time env t) = column_time env t"
  shows "stored_times env (stored_times env a) = stored_times env a"
proof -
  have "map_option (column_time env) (map_option (column_time env) x) = map_option (column_time env) x" for x
    using assms by (cases x) simp_all
  then show ?thesis by (simp add: stored_times_def Let_def)
qed

text \<open>
  C32. Save and load.  What \<open>TryFrom<AccountRow>\<close> reads from the row an insert or an update writes is
  the aggregate that was saved, with no pending events, the version and the time of the statement, and
  two losses.  Every timestamp is cut to what the column keeps, \<open>created_at\<close> by the insert only: with
  columns of whole microseconds a lock, for one, moves by less than a microsecond, and a copy that was read
  back and is saved again loses nothing more.  The login failure counter is cut to sixteen bits: a
  counter of 32768 failures comes back negative.
\<close>

theorem account_row_roundtrip:
  assumes "acc_valid env a" "column_of_micros env"
  shows "account_of_row env (row_insert env a) =
      Inr ((settled env 1 (column_time env (updated_at a)) a)\<lparr>created_at := column_time env (created_at a)\<rparr>) \<and>
    (row_id r = acc_id a \<and> row_identity_id r = identity_id a \<and> row_created_at r = created_at a \<and>
       row_created_by r = created_by a \<longrightarrow>
     account_of_row env (row_update env t a r) = Inr (settled env (row_version r + 1) t a)) \<and>
    (failed_login_attempts a = 32768 \<longrightarrow> failed_login_attempts (settled env v t a) = -32768) \<and>
    (0 \<le> failed_login_attempts a \<and> failed_login_attempts a < 32768 \<longrightarrow>
     settled env v t a = (stored_times env a)\<lparr>acc_version := v, updated_at := t, acc_pending := []\<rparr>) \<and>
    stored_times env (stored_times env a) = stored_times env a \<and>
    (\<forall>u. locked_until a = Some u \<longrightarrow>
       (\<exists>u'. locked_until (settled env v t a) = Some u' \<and> \<bar>u - u'\<bar> < 1000))"
proof -
  have "wrap_i16 n = n" if "0 \<le> n" "n < 32768" for n
    using that by (simp add: wrap_i16_def signed_of_int signed_take_bit_int_eq_self)
  moreover have "wrap_i16 32768 = -32768" by code_simp
  moreover have "locked_until (settled env v t a) = map_option (column_time env) (locked_until a)"
    by (simp add: settled_def stored_times_def Let_def)
  moreover have "failed_login_attempts (stored_times env a) = failed_login_attempts a"
    by (simp add: stored_times_def Let_def)
  ultimately show ?thesis
    using read_insert [OF assms(1)] read_update [OF assms(1)] assms(2) stored_times_again [of env a]
    by (auto simp: inserted_def settled_def column_of_micros_def)
qed

lemma ascii_columns: "column_of_micros ascii_env"
proof -
  have "\<bar>t - t div 1000 * 1000\<bar> < 1000" for t :: int
    using pos_mod_bound [of 1000 t] pos_mod_sign [of 1000 t] by (simp add: minus_div_mult_eq_mod)
  then show ?thesis by (simp add: column_of_micros_def ascii_env_def)
qed

theorem account_row_roundtrip_witness:
  "acc_valid ascii_env (account_create 1 1234 sample_account_params) \<and> column_of_micros ascii_env \<and>
   (\<exists>b. account_of_row ascii_env (row_insert ascii_env (account_create 1 1234 sample_account_params)) = Inr b \<and>
     created_at b = 1000 \<and> updated_at b = 1000 \<and> acc_version b = 1 \<and> acc_pending b = [])"
proof -
  let ?a = "account_create 1 1234 sample_account_params"
  have v: "acc_valid ascii_env ?a" by code_simp
  have "created_at ?a = 1234" "updated_at ?a = 1234" by (simp_all add: account_create_def)
  moreover have "column_time ascii_env 1234 = 1000" by (simp add: ascii_env_def)
  ultimately show ?thesis
    using v ascii_columns account_row_roundtrip [OF v ascii_columns, of "row_insert ascii_env ?a" 0 1]
    by (auto simp: settled_def)
qed

text \<open>
  C33. Enrolling a second factor over gRPC.  \<open>EnrollMfaCommand\<close> must carry at least six recovery codes,
  and the gRPC entry point passes none.  The bus the service builds has no validation layer, so for
  every active account without a second factor the request takes effect: the stored account is then
  enrolled with no recovery code at all.  On a bus with the validation layer every enrolment request
  is rejected and nothing changes.
\<close>

theorem enroll_mfa_over_grpc:
  assumes ok: "accounts_ok env (service_state s)" and i: "acc_parse_uuid env i = Some u"
    and a: "account_load env (service_state s) u = Some a" "acc_status a = Active" "\<not> mfa_is_enrolled (acc_mfa a)"
  shows "(\<exists>a'. account_load env (service_state (snd (account_bus env rq (grpc_enroll_mfa msg corr now i secret) s))) u = Some a' \<and>
      mfa_is_enrolled (acc_mfa a') \<and> recovery_codes (acc_mfa a') = []) \<and>
    (\<exists>vs. pipeline account_validate (account_bus env rq) [ValidationLayer] (grpc_enroll_mfa msg corr now i secret) s =
      (Inl (Handler validation_answers (DynValidation (ValidationError vs))), s))"
proof
  let ?rq = "rq\<lparr>rq_corr := corr\<rparr>"
  let ?cmd = "EnrollMfaCommand i secret []"
  obtain r db' where h: "account_handle env ?rq ?cmd (service_state s) = (r, db')"
    by (cases "account_handle env ?rq ?cmd (service_state s)")
  then have st: "service_state (snd (account_bus env rq (grpc_enroll_mfa msg corr now i secret) s)) = db'"
    by (cases r) (simp_all add: account_bus_dispatch account_handler_def grpc_enroll_mfa_def envelope_new_def)
  have "account_load env db' = apply_op env (account_op env ?rq ?cmd) (account_load env (service_state s))"
    using account_handle_refines [OF ok h] by simp
  then have "account_load env db' u = Some (account_settle env (rq_db_now rq)
      (acc_push (EvMfaEnrolled (acc_id a) (length ([] :: string list)) (rq_now rq) corr)
        (acc_touch (rq_now rq) (a\<lparr>acc_mfa := mfa_enroll (acc_mfa a) secret [] (rq_now rq)\<rparr>))))"
    using i a by (simp add: apply_op_def atomic_do_def enroll_mfa_def bind_require_active)
  then show "\<exists>a'. account_load env (service_state (snd (account_bus env rq (grpc_enroll_mfa msg corr now i secret) s))) u = Some a' \<and>
      mfa_is_enrolled (acc_mfa a') \<and> recovery_codes (acc_mfa a') = []"
    unfolding st by (simp add: account_settle_def settled_def stored_times_def Let_def acc_touch_def acc_push_def mfa_enroll_def mfa_is_enrolled_def)
  show "\<exists>vs. pipeline account_validate (account_bus env rq) [ValidationLayer] (grpc_enroll_mfa msg corr now i secret) s =
      (Inl (Handler validation_answers (DynValidation (ValidationError vs))), s)"
    by (simp add: validation_dispatch_def grpc_enroll_mfa_def envelope_new_def enroll_mfa_validate_def)
qed

definition sample_active :: account_db where
  "sample_active = fold (serve ascii_env) (take 2 sample_requests) \<lparr>acc_rows = [], acc_published = []\<rparr>"

lemma sample_active_ok: "accounts_ok ascii_env sample_active"
  unfolding sample_active_def by (intro serve_all_ok ascii_case_maps)

theorem enroll_mfa_over_grpc_witness:
  "\<exists>a'. account_load ascii_env (service_state (snd (account_bus ascii_env (sample_ctx 5000)
       (grpc_enroll_mfa 3 4 5000 ''u1'' [1, 2]) \<lparr>service_state = sample_active, seen = {}, bus_log = []\<rparr>))) 1 = Some a' \<and>
     mfa_is_enrolled (acc_mfa a') \<and> recovery_codes (acc_mfa a') = []"
proof -
  let ?s = "\<lparr>service_state = sample_active, seen = {}, bus_log = []\<rparr>"
  let ?a = "the (account_load ascii_env sample_active 1)"
  have "account_load ascii_env sample_active 1 \<noteq> None" by code_simp
  then have "account_load ascii_env (service_state ?s) 1 = Some ?a" by auto
  moreover have "acc_status ?a = Active" "\<not> mfa_is_enrolled (acc_mfa ?a)" by code_simp+
  moreover have "acc_parse_uuid ascii_env ''u1'' = Some 1" by code_simp
  moreover have "accounts_ok ascii_env (service_state ?s)" using sample_active_ok by simp
  ultimately show ?thesis
    using enroll_mfa_over_grpc [of ascii_env ?s "''u1''" 1 ?a "sample_ctx 5000" 3 4 5000 "[1, 2]"] by blast
qed

end
