(* ===== verification/SignIn.thy ===== *)
theory SignIn
  imports AuthSafety AccountService
begin

text \<open>
  The call from auth to account: the two queries of the account service that auth reads, their gRPC
  entries and conversions, the directory adapter of auth over them, and the auth environment wired to
  an accounts table.  The lemmas carry facts of the account aggregate through the call: which accounts
  may sign in, and what their tokens grant.

  The generated protobuf types are written out from the message definitions.  Of a gRPC status only the
  code is kept; a call that fails in transport has the code the transport gives it.
\<close>

section \<open>The account queries\<close>

record account_view =
  av_id :: string
  av_identity_id :: string
  av_status :: string
  av_suspension_reason :: "string option"
  av_deactivated_at :: "datetime option"
  av_email :: string
  av_email_verified :: bool
  av_email_verified_at :: "datetime option"
  av_phone :: "string option"
  av_phone_verified :: bool
  av_kyc_status :: string
  av_roles :: "string list"
  av_permission_overrides :: "string list"
  av_permissions :: "string list"
  av_country :: "string option"
  av_last_login_at :: "datetime option"
  av_is_locked :: bool
  av_mfa_enforced :: bool
  av_version :: i64
  av_created_at :: datetime
  av_updated_at :: datetime
  av_created_by :: "string option"

definition account_view_from :: "(uuid \<Rightarrow> string) \<Rightarrow> datetime \<Rightarrow> account \<Rightarrow> account_view" where
  "account_view_from show_uuid now a =
     \<lparr>av_id = show_uuid (acc_id a), av_identity_id = identity_id a,
      av_status = account_status_as_str (acc_status a), av_suspension_reason = suspension_reason a,
      av_deactivated_at = deactivated_at a, av_email = acc_email a, av_email_verified = email_verified a,
      av_email_verified_at = email_verified_at a, av_phone = acc_phone a,
      av_phone_verified = phone_verified a, av_kyc_status = kyc_status_as_str (acc_kyc a),
      av_roles = map account_role_as_str (acc_roles a), av_permission_overrides = permission_overrides a,
      av_permissions = effective_permissions a, av_country = country_of_residence a,
      av_last_login_at = last_login_at a, av_is_locked = is_locked a now,
      av_mfa_enforced = mfa_enforced (acc_mfa a), av_version = acc_version a,
      av_created_at = created_at a, av_updated_at = updated_at a,
      av_created_by = map_option show_uuid (created_by a)\<rparr>"

definition get_account_by_id_handle ::
  "account_env \<Rightarrow> (uuid \<Rightarrow> string) \<Rightarrow> datetime \<Rightarrow> account_db \<Rightarrow> string \<Rightarrow> account_error + account_view" where
  "get_account_by_id_handle env show_uuid now db id_str =
     bind_res (ok_or (AccDomainViolation ''account_id'' ''invalid UUID format'') (acc_parse_uuid env id_str)) (\<lambda>i.
     bind_res (account_find_by_id env db i) (\<lambda>found.
     bind_res (ok_or (AccountNotFound id_str) found) (\<lambda>a. Inr (account_view_from show_uuid now a))))"

definition get_account_by_identity_id_handle ::
  "account_env \<Rightarrow> (uuid \<Rightarrow> string) \<Rightarrow> datetime \<Rightarrow> account_db \<Rightarrow> string \<Rightarrow> account_error + account_view" where
  "get_account_by_identity_id_handle env show_uuid now db s =
     bind_res (identity_id_new s) (\<lambda>ident.
     bind_res (account_find_by_identity_id env db ident) (\<lambda>found.
     bind_res (ok_or (AccountNotFound s) found) (\<lambda>a. Inr (account_view_from show_uuid now a))))"

section \<open>The gRPC entries of the account service\<close>

datatype grpc_code =
    CodeUnimplemented
  | CodeInternal
  | CodeNotFound
  | CodeAborted
  | CodeAlreadyExists
  | CodeFailedPrecondition
  | CodeUnavailable
  | CodeOther nat

fun cqrs_error_to_code :: "'e cqrs_error \<Rightarrow> grpc_code" where
  "cqrs_error_to_code (HandlerNotFound _) = CodeUnimplemented"
| "cqrs_error_to_code (DuplicateRegistration _) = CodeInternal"
| "cqrs_error_to_code (Handler boxed _) =
     (let st = http_status boxed in
      if st = 404 then CodeNotFound
      else if st = 409 \<and> retryable boxed then CodeAborted
      else if st = 409 then CodeAlreadyExists
      else if st = 400 \<or> st = 422 then CodeFailedPrecondition
      else if st = 503 \<or> st = 502 then CodeUnavailable
      else CodeInternal)"

definition account_status_str_to_i32 :: "string \<Rightarrow> int" where
  "account_status_str_to_i32 s =
     (if s = ''pending_verification'' then 1 else if s = ''active'' then 2 else if s = ''suspended'' then 3
      else if s = ''deactivated'' then 4 else if s = ''deleted'' then 5 else 0)"

definition kyc_status_str_to_i32 :: "string \<Rightarrow> int" where
  "kyc_status_str_to_i32 s =
     (if s = ''not_started'' then 1 else if s = ''submitted'' then 2 else if s = ''in_review'' then 3
      else if s = ''approved'' then 4 else if s = ''rejected'' then 5 else 0)"

definition dt_to_ts :: "datetime \<Rightarrow> i64 \<times> int" where
  "dt_to_ts t = (timestamp_secs t, t mod nanos_per_sec)"

record proto_account_view =
  pv_id :: string
  pv_identity_id :: string
  pv_status :: int
  pv_suspension_reason :: string
  pv_email :: string
  pv_email_verified :: bool
  pv_phone :: string
  pv_phone_verified :: bool
  pv_kyc_status :: int
  pv_country :: string
  pv_roles :: "string list"
  pv_permissions :: "string list"
  pv_version :: i64
  pv_created_at :: "i64 \<times> int"
  pv_updated_at :: "i64 \<times> int"

definition or_default :: "string option \<Rightarrow> string" where
  "or_default s = (case s of Some x \<Rightarrow> x | None \<Rightarrow> [])"

definition account_view_to_proto :: "account_view \<Rightarrow> proto_account_view" where
  "account_view_to_proto v =
     \<lparr>pv_id = av_id v, pv_identity_id = av_identity_id v, pv_status = account_status_str_to_i32 (av_status v),
      pv_suspension_reason = or_default (av_suspension_reason v), pv_email = av_email v,
      pv_email_verified = av_email_verified v, pv_phone = or_default (av_phone v),
      pv_phone_verified = av_phone_verified v, pv_kyc_status = kyc_status_str_to_i32 (av_kyc_status v),
      pv_country = or_default (av_country v), pv_roles = av_roles v, pv_permissions = av_permissions v,
      pv_version = av_version v, pv_created_at = dt_to_ts (av_created_at v),
      pv_updated_at = dt_to_ts (av_updated_at v)\<rparr>"

definition grpc_answer :: "account_error + account_view \<Rightarrow> grpc_code + proto_account_view" where
  "grpc_answer r =
     (case r of
        Inl e \<Rightarrow> Inl (cqrs_error_to_code (from_handler account_answers e))
      | Inr v \<Rightarrow> Inr (account_view_to_proto v))"

definition grpc_get_account_by_id ::
  "account_env \<Rightarrow> (uuid \<Rightarrow> string) \<Rightarrow> datetime \<Rightarrow> account_db \<Rightarrow> string \<Rightarrow> grpc_code + proto_account_view" where
  "grpc_get_account_by_id env show_uuid now db s = grpc_answer (get_account_by_id_handle env show_uuid now db s)"

definition grpc_get_account_by_identity_id ::
  "account_env \<Rightarrow> (uuid \<Rightarrow> string) \<Rightarrow> datetime \<Rightarrow> account_db \<Rightarrow> string \<Rightarrow> grpc_code + proto_account_view" where
  "grpc_get_account_by_identity_id env show_uuid now db s =
     grpc_answer (get_account_by_identity_id_handle env show_uuid now db s)"

section \<open>The directory adapter of auth\<close>

datatype proto_status = PUnspecified | PPendingVerification | PActive | PSuspended | PDeactivated | PDeleted

definition proto_status_of_i32 :: "int \<Rightarrow> proto_status" where
  "proto_status_of_i32 n =
     (if n = 1 then PPendingVerification else if n = 2 then PActive else if n = 3 then PSuspended
      else if n = 4 then PDeactivated else if n = 5 then PDeleted else PUnspecified)"

primrec status_name :: "proto_status \<Rightarrow> string" where
  "status_name PUnspecified = ''unspecified''"
| "status_name PPendingVerification = ''pending_verification''"
| "status_name PActive = ''active''"
| "status_name PSuspended = ''suspended''"
| "status_name PDeactivated = ''deactivated''"
| "status_name PDeleted = ''deleted''"

text \<open>\<open>call\<close> is the client side of the RPC: the answer of the service, or a code of the transport.\<close>

definition directory_resolve ::
  "(string \<Rightarrow> uuid option) \<Rightarrow> (string \<Rightarrow> grpc_code + proto_account_view) \<Rightarrow> idp_subject \<Rightarrow> auth_error + uuid" where
  "directory_resolve parse call subj =
     (case call (idp_issuer subj @ ''#'' @ idp_sub subj) of
        Inr view \<Rightarrow> ok_or (InvalidAccountId (pv_id view)) (parse (pv_id view))
      | Inl c \<Rightarrow> if c = CodeNotFound then Inl (AccountNotActive ''account_not_provisioned'')
                else Inl AccountDirectoryUnavailable)"

definition directory_lookup ::
  "(uuid \<Rightarrow> string) \<Rightarrow> (string \<Rightarrow> grpc_code + proto_account_view) \<Rightarrow> uuid \<Rightarrow> auth_error + account_snapshot" where
  "directory_lookup show_uuid call i =
     (case call (show_uuid i) of
        Inl c \<Rightarrow> if c = CodeNotFound then Inl (AccountNotActive ''not_found'') else Inl AccountDirectoryUnavailable
      | Inr view \<Rightarrow>
          Inr \<lparr>activation = (case proto_status_of_i32 (pv_status view) of
                               PActive \<Rightarrow> AccActive | other \<Rightarrow> AccInactive (status_name other)),
               acc_permissions = remdups_adj (sort (pv_roles view @ pv_permissions view))\<rparr>)"

text \<open>An auth environment whose directory is the account service over the table \<open>db\<close>.\<close>

record directory_link =
  dl_env :: account_env
  dl_now :: datetime
  dl_fault :: "string \<Rightarrow> grpc_code option"

definition over_wire :: "directory_link \<Rightarrow> (string \<Rightarrow> grpc_code + 'a) \<Rightarrow> string \<Rightarrow> grpc_code + 'a" where
  "over_wire l f s = (case dl_fault l s of Some c \<Rightarrow> Inl c | None \<Rightarrow> f s)"

definition wired :: "auth_env \<Rightarrow> directory_link \<Rightarrow> account_db \<Rightarrow> auth_env" where
  "wired env l db = env\<lparr>
     resolve_or_provision := directory_resolve (parse_uuid env)
       (over_wire l (grpc_get_account_by_identity_id (dl_env l) (uuid_str env) (dl_now l) db)),
     dir_lookup := directory_lookup (uuid_str env)
       (over_wire l (grpc_get_account_by_id (dl_env l) (uuid_str env) (dl_now l) db))\<rparr>"

section \<open>What the wire keeps\<close>

text \<open>What an account may do: its role names, the grants of its roles and its own overrides.\<close>

definition token_grants :: "account \<Rightarrow> string set" where
  "token_grants a = account_role_as_str ` set (acc_roles a) \<union> (\<Union>r \<in> set (acc_roles a). set (granted_permissions r)) \<union>
     set (permission_overrides a)"

definition snapshot_of :: "account \<Rightarrow> account_snapshot" where
  "snapshot_of a =
     \<lparr>activation = (if acc_status a = Active then AccActive else AccInactive (account_status_as_str (acc_status a))),
      acc_permissions = remdups_adj (sort (map account_role_as_str (acc_roles a) @ effective_permissions a))\<rparr>"

lemma snapshot_grants: "set (acc_permissions (snapshot_of a)) = token_grants a"
  by (auto simp: snapshot_of_def token_grants_def effective_permissions_def)

lemma lookup_wired:
  assumes ok: "accounts_ok (dl_env l) db" and id: "acc_parse_uuid (dl_env l) (uuid_str env i) = Some i"
    and run: "dir_lookup (wired env l db) i = Inr snap"
  shows "\<exists>a. account_load (dl_env l) db i = Some a \<and> snap = snapshot_of a"
proof (cases "account_load (dl_env l) db i")
  case None
  then show ?thesis
    using run id find_ok [OF ok, of i]
    by (auto simp: wired_def directory_lookup_def over_wire_def grpc_get_account_by_id_def grpc_answer_def
        get_account_by_id_handle_def ok_or_def split: option.splits if_splits)
next
  case (Some a)
  then have "snap = snapshot_of a"
    using run id find_ok [OF ok, of i]
    by (cases "acc_status a")
       (auto simp: wired_def directory_lookup_def over_wire_def grpc_get_account_by_id_def grpc_answer_def
        get_account_by_id_handle_def ok_or_def account_view_from_def account_view_to_proto_def
        account_status_str_to_i32_def proto_status_of_i32_def snapshot_of_def split: option.splits if_splits)
  then show ?thesis using Some by blast
qed

section \<open>A session that was handed out\<close>

lemma login_issue_Inr:
  assumes "login_issue env sub account device perms fl corr now s = (Inr x, s')"
  shows "is_account x = account \<and> (\<exists>c. mint_access env c = Inr (is_access_token x) \<and> cl_permissions c = perms)"
  using assms unfolding login_issue_def st_bind_Inr_iff st_step_Inr_iff
  by (auto simp: st_Inr_iffs dest!: mint_access_token_Inr)

lemma login_handle_Inr:
  assumes "login_handle env cmd corr now s = (Inr x, s')"
  shows "\<exists>snap c. dir_lookup env (is_account x) = Inr snap \<and> activation snap = AccActive \<and>
    mint_access env c = Inr (is_access_token x) \<and> cl_permissions c = acc_permissions snap"
proof -
  obtain sub account fl snap perms s1 where
    "dir_lookup env account = Inr snap" "gate_active snap = Inr perms"
    "login_issue env sub account (lc_device cmd) perms fl corr now s1 = (Inr x, s')"
    using assms unfolding login_handle_def by (auto simp: st_bind_Inr_iff st_step_Inr_iff split: prod.splits)
  then show ?thesis using login_issue_Inr gate_active_Inr_iff by metis
qed

lemma refresh_handle_grants:
  assumes "refresh_handle env cmd corr now s = (Inr x, s')"
  shows "\<exists>snap c. dir_lookup env (is_account x) = Inr snap \<and> activation snap = AccActive \<and>
    mint_access env c = Inr (is_access_token x) \<and> cl_permissions c = acc_permissions snap"
proof (rule refresh_handle_Inr [OF assms])
  fix h t g r u ses perms
  assume rot: "token_rotate (fresh_token_id env) t now (gen_hash g) (now + refresh_ttl (env_policy env)) = Inr (r, u)"
    and checks: "refresh_checks env cmd (tok_account t) (tok_session t) now s = (Inr (ses, perms), s)"
    and commit: "refresh_commit env r u (gen_plaintext g) ses perms now s = (Inr x, s')"
  have "tok_account r = tok_account t" using token_rotate_Inr [OF rot] by simp
  then show ?thesis
    using refresh_checks_Inr [OF checks] refresh_commit_Inr [OF commit] mint_access_token_Inr by fastforce
qed

lemma sign_in_active:
  assumes ok: "accounts_ok (dl_env l) db" and id: "acc_parse_uuid (dl_env l) (uuid_str env (is_account x)) = Some (is_account x)"
    and run: "login_handle (wired env l db) cmd corr now s = (Inr x, s') \<or>
      refresh_handle (wired env l db) rcmd corr now s = (Inr x, s')"
  shows "\<exists>a c. account_load (dl_env l) db (is_account x) = Some a \<and> acc_status a = Active \<and>
    mint_access env c = Inr (is_access_token x) \<and> set (cl_permissions c) = token_grants a"
proof -
  obtain snap c where "dir_lookup (wired env l db) (is_account x) = Inr snap" "activation snap = AccActive"
    "mint_access (wired env l db) c = Inr (is_access_token x)" "cl_permissions c = acc_permissions snap"
    using run login_handle_Inr refresh_handle_grants by metis
  moreover from lookup_wired [OF ok id this(1)]
  obtain a where "account_load (dl_env l) db (is_account x) = Some a" "snap = snapshot_of a" by blast
  moreover have "mint_access (wired env l db) = mint_access env" by (simp add: wired_def)
  ultimately show ?thesis
    using snapshot_grants by (intro exI conjI) (auto simp: snapshot_of_def split: if_splits)
qed

section \<open>An account that is not active stays out\<close>

definition inactive :: "account_env \<Rightarrow> uuid \<Rightarrow> account_db \<Rightarrow> bool" where
  "inactive env i db \<longleftrightarrow> (\<exists>a. account_load env db i = Some a \<and> acc_status a \<noteq> Active)"

text \<open>The two requests that can make an account active: reactivation and e-mail verification.\<close>

fun reinstates :: "account_env \<Rightarrow> uuid \<Rightarrow> account_command \<Rightarrow> bool" where
  "reinstates env i (ReactivateAccountCommand s) = (acc_parse_uuid env s = Some i)"
| "reinstates env i (VerifyEmailCommand s) = (acc_parse_uuid env s = Some i)"
| "reinstates env i _ = False"

primrec activating :: "account_cmd \<Rightarrow> bool" where
  "activating (VerifyEmail now corr) = True"
| "activating (VerifyPhone now corr) = False"
| "activating (ChangePassword h now corr) = False"
| "activating (ChangeEmail e now corr) = False"
| "activating (ChangePhone p now corr) = False"
| "activating (EnrollMfa s cs t1 now corr) = False"
| "activating (RevokeMfa now corr) = False"
| "activating (AssignRole r now corr) = False"
| "activating (RevokeRole r now corr) = False"
| "activating (Suspend reason now corr) = False"
| "activating (Activate now corr) = True"
| "activating (Deactivate now corr) = False"
| "activating (DeleteAccount b now corr) = False"
| "activating (UpdateKyc k r now corr) = False"
| "activating (RequestGdprDeletion d t1 now corr) = False"
| "activating (RequestDataExport now corr) = False"
| "activating (Anonymize now corr) = False"
| "activating (RecordLogin now) = False"
| "activating (RecordFailedLogin m l t1 now) = False"

lemma exec_stays_inactive:
  assumes "account_exec a c = Inr a'" "acc_status a \<noteq> Active" "\<not> activating c"
  shows "acc_status a' \<noteq> Active"
proof (cases c)
  case (Anonymize now corr)
  then show ?thesis using assms(1,2)
    by (cases "acc_status a")
       (clarsimp simp: anonymize_def transition_status_def account_can_transition_to_def Let_def acc_touch_def acc_push_def
         split: if_splits)+
qed (insert assms, (clarsimp simp: account_cmd_defs acc_touch_def acc_push_def split: if_splits)+)

lemma op_reinstates:
  "account_op env rq cmd = Some (i, c, t) \<Longrightarrow> activating c \<Longrightarrow> reinstates env i cmd"
  by (cases cmd) (auto split: sum.splits option.splits)

lemma apply_stays_inactive:
  assumes "m i = Some a" "acc_status a \<noteq> Active" "\<And>c t. op = Some (i, c, t) \<Longrightarrow> \<not> activating c"
  shows "\<exists>b. apply_op env op m i = Some b \<and> acc_status b \<noteq> Active"
proof (cases op)
  case (Some x)
  obtain j c t where x: "x = (j, c, t)" by (cases x)
  show ?thesis
  proof (cases "j = i")
    case True
    then have "\<not> activating c" using assms(3) Some x by simp
    then show ?thesis
      using exec_stays_inactive [of a c] assms(1,2) Some x True
      by (cases "account_exec a c") (auto simp: apply_op_def atomic_do_def account_settle_def settled_def)
  next
    case False
    then show ?thesis
      using assms(1,2) Some x by (auto simp: apply_op_def atomic_do_def split: option.splits sum.splits)
  qed
qed (use assms in \<open>simp add: apply_op_def\<close>)

lemma serve_stays_inactive:
  assumes maps: "case_maps_idempotent env" and ok: "accounts_ok env db" and i: "inactive env i db"
    and x: "\<not> reinstates env i (snd x)"
  shows "inactive env i (serve env x db)"
proof -
  obtain a where a: "account_load env db i = Some a" "acc_status a \<noteq> Active" using i by (auto simp: inactive_def)
  obtain r db' where run: "account_handle env (fst x) (snd x) db = (r, db')" by (cases "account_handle env (fst x) (snd x) db")
  show ?thesis
  proof (cases "\<exists>c. snd x = CreateAccountCommand c")
    case True
    then obtain c where "create_account_handle env (fst x) c db = (r, db')" using run by auto
    moreover have "acc_rows db' = acc_rows db \<Longrightarrow> account_load env db' i = account_load env db i"
      by (simp add: account_load_def account_find_by_id_def)
    ultimately have "account_load env db' i = Some a"
      using create_handler_ok [OF ok maps] a(1) by fastforce
    then show ?thesis using a(2) run by (simp add: inactive_def serve_def)
  next
    case False
    then have "account_load env db' = apply_op env (account_op env (fst x) (snd x)) (account_load env db)"
      using account_handle_refines [OF ok run] by blast
    moreover have "\<not> activating c" if "account_op env (fst x) (snd x) = Some (i, c, t)" for c t
      using op_reinstates [OF that] x by blast
    ultimately show ?thesis
      using apply_stays_inactive [of "account_load env db" i a "account_op env (fst x) (snd x)"] a run
      by (simp add: inactive_def serve_def)
  qed
qed

lemma run_stays_inactive:
  assumes maps: "case_maps_idempotent env" and "accounts_ok env db" "inactive env i db"
    and "list_all (\<lambda>x. \<not> reinstates env i (snd x)) xs"
  shows "accounts_ok env (fold (serve env) xs db) \<and> inactive env i (fold (serve env) xs db)"
  using assms(2-) by (induction xs arbitrary: db) (simp_all add: serve_ok [OF maps] serve_stays_inactive [OF maps])

text \<open>The requests that take an account out of service.\<close>

fun retires :: "account_env \<Rightarrow> uuid \<Rightarrow> account_command \<Rightarrow> bool" where
  "retires env i (SuspendAccountCommand s reason) = (acc_parse_uuid env s = Some i)"
| "retires env i (DeactivateAccountCommand s) = (acc_parse_uuid env s = Some i)"
| "retires env i (AnonymizeAccountCommand s) = (acc_parse_uuid env s = Some i)"
| "retires env i _ = False"

lemma with_account_Inr:
  assumes "with_account env rq s f db = (Inr (), db')"
  shows "\<exists>i a a'. acc_parse_uuid env s = Some i \<and> account_find_by_id env db i = Inr (Some a) \<and> f a = Inr a'"
  using assms by (auto simp: with_account_def load_account_def state_defs ok_or_def split: option.splits sum.splits prod.splits)

lemma retiring_exec:
  assumes "account_exec a c = Inr a'" "c = Suspend reason now corr \<or> c = Deactivate now corr \<or> c = Anonymize now corr"
  shows "acc_status a' \<noteq> Active"
  using assms
  by (cases "acc_status a")
     (auto simp: suspend_def deactivate_def anonymize_def transition_status_def account_can_transition_to_def Let_def
       acc_touch_def acc_push_def split: if_splits)

lemma retire_deactivates:
  assumes ok: "accounts_ok env db" and cmd: "retires env i cmd" and run: "account_handle env rq cmd db = (Inr (), db')"
  shows "accounts_ok env db' \<and> inactive env i db'"
proof -
  obtain s c where s: "acc_parse_uuid env s = Some i" "account_op env rq cmd = Some (i, c, rq_db_now rq)"
      "account_handle env rq cmd = with_account env rq s (\<lambda>a. account_exec a c)"
      "\<exists>reason. c = Suspend reason (rq_now rq) (rq_corr rq) \<or> c = Deactivate (rq_now rq) (rq_corr rq) \<or> c = Anonymize (rq_now rq) (rq_corr rq)"
    using cmd by (cases cmd) (auto simp: suspend_handle_def deactivate_handle_def anonymize_handle_def)
  obtain a a' where a: "account_load env db i = Some a" "account_exec a c = Inr a'"
    using with_account_Inr [OF run [unfolded s(3)]] s(1) find_ok [OF ok, of i] by auto
  have "\<And>x. cmd \<noteq> CreateAccountCommand x" using cmd by auto
  with account_handle_refines [OF ok run] have "accounts_ok env db'"
    "account_load env db' = apply_op env (account_op env rq cmd) (account_load env db)" by blast+
  then show ?thesis
    using a s(2,4) retiring_exec [OF a(2)]
    by (auto simp: inactive_def apply_op_def atomic_do_def account_settle_def settled_def)
qed

section \<open>A sample sign-in\<close>

text \<open>One account, created, verified and made administrator; its identity is what the provider answers.\<close>

definition sample_link :: directory_link where
  "sample_link = \<lparr>dl_env = ascii_env, dl_now = 6000, dl_fault = (\<lambda>_. None)\<rparr>"

definition sample_provider :: auth_env where
  "sample_provider = sample_env\<lparr>authenticate := (\<lambda>_. Inr (''kc'', ''1'')), uuid_str := (\<lambda>_. ''u1''),
     parse_uuid := (\<lambda>s. if s = ''u1'' then Some 1 else None), mint_access := (\<lambda>c. Inr (concat (cl_permissions c)))\<rparr>"

definition sample_members :: "(request_ctx \<times> account_command) list" where
  "sample_members =
     [(sample_ctx 1000, CreateAccountCommand (sample_create\<lparr>cc_identity_id := ''kc#1''\<rparr>)),
      (sample_ctx 2000, VerifyEmailCommand ''u1''), (sample_ctx 3000, AssignRoleCommand ''u1'' ''admin'')]"

definition sample_login :: login_command where
  "sample_login = \<lparr>lc_grant = Password ''ann'' ''pw'', lc_device = sample_device\<rparr>"

definition no_sessions :: auth_state where
  "no_sessions = \<lparr>sessions = [], refresh_tokens = [], subject_links = [], generations = Map.empty,
     blacklist = Map.empty, published = []\<rparr>"

definition sample_sign_in :: "account_db \<Rightarrow> auth_error + issued_session" where
  "sample_sign_in db = fst (login_handle (wired sample_provider sample_link db) sample_login 5 1000000000 no_sessions)"

end
