(* ===== verification/Traffic.thy ===== *)
theory Traffic
  imports Prelude
begin

text \<open>
  Ingress rate limiting: the profiles (\<open>crates/foundation/traffic/src\<close>), their validation and catalog
  (\<open>crates/foundation/infra-config/src\<close>), the fleet-wide lease of request budgets over Redis
  (\<open>crates/platform/traffic-redis/src\<close>) and the gRPC layer that asks for a decision
  (\<open>crates/platform/transport/src/grpc/layer/traffic.rs\<close>).

  An \<open>u32\<close> or \<open>u64\<close> is a natural number below its bound; the two operations that can exceed it are
  written with their wrap-around.  A \<open>Duration\<close> is a count of nanoseconds.  The \<open>governor\<close> limiter is the
  parameter \<open>'l\<close> with its constructor and its check.  A request of one replica takes its window from the
  clock it read before it waited for the lease; the Lua script runs at the time of the Redis server.
\<close>

section \<open>Profiles\<close>

datatype scope = PerMethod | PerCaller

datatype traffic_mode = Local | Distributed

datatype backend_error = FailOpen | FailClosed

record traffic_config =
  tc_rps :: nat
  tc_burst :: nat
  tc_scope :: scope
  tc_mode :: traffic_mode
  tc_enforce :: bool
  tc_lease_ms :: "nat option"
  tc_on_backend_error :: "backend_error option"

datatype traffic_decision = Allow | Throttle (retry_after: nat)

record quota =
  q_rps :: nat
  q_burst :: nat
  q_lease_ms :: nat

definition default_lease_ms :: nat where
  "default_lease_ms = 1000"

record 'l traffic_profile =
  tp_config :: traffic_config
  tp_limiter :: 'l

definition nz :: "nat \<Rightarrow> nat" where
  "nz v = (if v = 0 then 1 else v)"

definition build_limiter :: "(nat \<Rightarrow> nat \<Rightarrow> 'l) \<Rightarrow> traffic_config \<Rightarrow> 'l" where
  "build_limiter keyed c = keyed (nz (tc_rps c)) (nz (tc_burst c))"

text \<open>\<open>TrafficProfileSpec\<close> has the fields of \<open>TrafficConfig\<close>, so \<open>to_config\<close> is the identity.\<close>

definition resolve_spec :: "(nat \<Rightarrow> nat \<Rightarrow> 'l) \<Rightarrow> traffic_config \<Rightarrow> 'l traffic_profile" where
  "resolve_spec keyed spec = \<lparr>tp_config = spec, tp_limiter = build_limiter keyed spec\<rparr>"

definition profile_apply :: "(nat \<Rightarrow> nat \<Rightarrow> 'l) \<Rightarrow> 'l traffic_profile \<Rightarrow> traffic_config \<Rightarrow> 'l traffic_profile" where
  "profile_apply keyed p nxt =
     (let quota_changed = tc_rps nxt \<noteq> tc_rps (tp_config p) \<or> tc_burst nxt \<noteq> tc_burst (tp_config p)
      in p\<lparr>tp_limiter := (if quota_changed then build_limiter keyed nxt else tp_limiter p), tp_config := nxt\<rparr>)"

text \<open>\<open>check_key\<close> of the limiter answers the time to wait, or nothing, and its next state.\<close>

definition profile_check ::
  "('l \<Rightarrow> string \<Rightarrow> nat option \<times> 'l) \<Rightarrow> 'l traffic_profile \<Rightarrow> string \<Rightarrow> traffic_decision \<times> 'l traffic_profile" where
  "profile_check check_key p key =
     (case check_key (tp_limiter p) key of
        (None, l) \<Rightarrow> (Allow, p\<lparr>tp_limiter := l\<rparr>)
      | (Some wait, l) \<Rightarrow> (Throttle wait, p\<lparr>tp_limiter := l\<rparr>))"

definition profile_quota :: "'l traffic_profile \<Rightarrow> quota" where
  "profile_quota p =
     \<lparr>q_rps = tc_rps (tp_config p), q_burst = tc_burst (tp_config p),
      q_lease_ms = (case tc_lease_ms (tp_config p) of Some ms \<Rightarrow> ms | None \<Rightarrow> default_lease_ms)\<rparr>"

section \<open>The catalog\<close>

datatype config_error = ConfigValidation string

text \<open>Hash maps are iterated in any order; \<open>profiles\<close> and \<open>bindings\<close> are the entries in that order.\<close>

definition quoted :: "string \<Rightarrow> string" where
  "quoted s = [CHR 39] @ s @ [CHR 39]"

definition validate_bindings ::
  "string \<Rightarrow> (string \<times> 'p) list \<Rightarrow> (string \<times> string) list \<Rightarrow> string \<Rightarrow> config_error + unit" where
  "validate_bindings section profiles bindings dflt =
     (if map_of profiles dflt = None
      then Inl (ConfigValidation (''['' @ section @ ''] default_profile '' @ quoted dflt @
             '' is not defined under ['' @ section @ ''.profiles]''))
      else case find (\<lambda>(_, p). map_of profiles p = None) bindings of
             Some (d, p) \<Rightarrow> Inl (ConfigValidation (''['' @ section @ ''] binding '' @ quoted d @
                              '' references unknown profile '' @ quoted p))
           | None \<Rightarrow> Inr ())"

definition validate_spec :: "string \<times> traffic_config \<Rightarrow> config_error + unit" where
  "validate_spec = (\<lambda>(name, s).
     if tc_rps s = 0 then Inl (ConfigValidation (''[traffic] profile '' @ quoted name @ '': rps must be > 0''))
     else if tc_burst s = 0 then Inl (ConfigValidation (''[traffic] profile '' @ quoted name @ '': burst must be >= 1''))
     else if tc_mode s = Distributed \<and> \<not> (case tc_lease_ms s of Some ms \<Rightarrow> 0 < ms | None \<Rightarrow> False)
     then Inl (ConfigValidation (''[traffic] profile '' @ quoted name @
            '': mode = \"distributed\" requires lease_ms > 0''))
     else Inr ())"

record traffic_section =
  ts_profiles :: "(string \<times> traffic_config) list"
  ts_bindings :: "(string \<times> string) list"
  ts_default :: string

definition section_validate :: "traffic_section \<Rightarrow> config_error + unit" where
  "section_validate s =
     bind_res (validate_bindings ''traffic'' (ts_profiles s) (ts_bindings s) (ts_default s)) (\<lambda>_.
     bind_res (collect_res validate_spec (ts_profiles s)) (\<lambda>_. Inr ()))"

record 'p catalog =
  cat_profiles :: "(string \<times> 'p) list"
  cat_bindings :: "(string \<times> string) list"
  cat_default :: string

definition registry_from_section :: "(nat \<Rightarrow> nat \<Rightarrow> 'l) \<Rightarrow> traffic_section \<Rightarrow> config_error + 'l traffic_profile catalog" where
  "registry_from_section keyed s =
     bind_res (section_validate s) (\<lambda>_.
       Inr \<lparr>cat_profiles = map (\<lambda>(n, spec). (n, resolve_spec keyed spec)) (ts_profiles s),
            cat_bindings = ts_bindings s, cat_default = ts_default s\<rparr>)"

text \<open>\<open>None\<close> is the panic of \<open>expect\<close>.\<close>

definition catalog_resolve :: "'p catalog \<Rightarrow> string \<Rightarrow> (string \<times> bool \<times> 'p) option" where
  "catalog_resolve c dep =
     (case map_of (cat_bindings c) dep of
        Some name \<Rightarrow> map_option (\<lambda>p. (name, True, p)) (map_of (cat_profiles c) name)
      | None \<Rightarrow> map_option (\<lambda>p. (cat_default c, False, p)) (map_of (cat_profiles c) (cat_default c)))"

definition registry_apply ::
  "(nat \<Rightarrow> nat \<Rightarrow> 'l) \<Rightarrow> 'l traffic_profile catalog \<Rightarrow> traffic_section \<Rightarrow> config_error + 'l traffic_profile catalog" where
  "registry_apply keyed c s =
     bind_res (section_validate s) (\<lambda>_.
       Inr (c\<lparr>cat_profiles := map (\<lambda>(n, p).
              (n, case map_of (ts_profiles s) n of Some spec \<Rightarrow> profile_apply keyed p spec | None \<Rightarrow> p)) (cat_profiles c)\<rparr>))"

section \<open>Leases\<close>

definition wrap_u64 :: "nat \<Rightarrow> nat" where
  "wrap_u64 n = n mod 2 ^ 64"

definition div_ceil :: "nat \<Rightarrow> nat \<Rightarrow> nat" where
  "div_ceil n d = n div d + (if n mod d > 0 then 1 else 0)"

definition window_budget :: "nat \<Rightarrow> nat \<Rightarrow> nat" where
  "window_budget rps lease_ms = max 1 (div_ceil (wrap_u64 (rps * lease_ms)) 1000)"

definition chunk :: "nat \<Rightarrow> nat \<Rightarrow> nat" where
  "chunk burst budget = min (max burst 1) budget"

definition until_next_window :: "nat \<Rightarrow> nat \<Rightarrow> nat" where
  "until_next_window now_ms lease_ms = (lease_ms - now_ms mod lease_ms) * 1000000"

record lease =
  l_window :: nat
  l_remaining :: nat
  l_exhausted :: bool

type_synonym lease_book = "string \<Rightarrow> lease option"

text \<open>A Redis value with the time at which it expires.\<close>

type_synonym redis_store = "string \<Rightarrow> (nat \<times> nat) option"

definition window_counter_key :: "string \<Rightarrow> nat \<Rightarrow> string" where
  "window_counter_key key window = ''traffic:lease:{'' @ key @ ''}:'' @ dec_string window"

definition claim_script :: "nat \<Rightarrow> string \<Rightarrow> nat \<Rightarrow> nat \<Rightarrow> nat \<Rightarrow> redis_store \<Rightarrow> nat \<times> redis_store" where
  "claim_script redis_now k budget want ttl_ms store =
     (let current = (case store k of Some (v, expires) \<Rightarrow> if redis_now < expires then v else 0 | None \<Rightarrow> 0) in
      if budget \<le> current then (0, store)
      else let grant = (if want < budget - current then want else budget - current)
           in (grant, store(k \<mapsto> (current + grant, redis_now + ttl_ms))))"

text \<open>A call that fails on the network may have run the script, so the tokens it granted are lost.\<close>

definition redis_claim ::
  "net_fault option \<Rightarrow> nat \<Rightarrow> string \<Rightarrow> nat \<Rightarrow> nat \<Rightarrow> nat \<Rightarrow> nat \<Rightarrow> redis_store \<Rightarrow> (string + nat) \<times> redis_store" where
  "redis_claim fault redis_now key window budget want ttl_ms store =
     remote_call fault (\<lambda>reason. reason)
       (\<lambda>st. case claim_script redis_now (window_counter_key key window) budget want ttl_ms st of
               (g, st') \<Rightarrow> (Inr g, st')) store"

definition lease_ttl :: "nat \<Rightarrow> nat" where
  "lease_ttl lease_ms = max (min (lease_ms * 2) (2 ^ 64 - 1)) (wrap_u64 (lease_ms + 1000))"

text \<open>The lease a request works on: the entry of the key, made if missing, moved to the window of the request.\<close>

definition current_lease :: "lease_book \<Rightarrow> string \<Rightarrow> nat \<Rightarrow> lease" where
  "current_lease book key window =
     (case book key of
        Some l \<Rightarrow> if l_window l \<noteq> window then \<lparr>l_window = window, l_remaining = 0, l_exhausted = False\<rparr> else l
      | None \<Rightarrow> \<lparr>l_window = window, l_remaining = 0, l_exhausted = False\<rparr>)"

definition lease_check ::
  "net_fault option \<Rightarrow> nat \<Rightarrow> string \<Rightarrow> quota \<Rightarrow> nat \<Rightarrow> lease_book \<Rightarrow> redis_store \<Rightarrow>
   (string + traffic_decision) \<times> lease_book \<times> redis_store" where
  "lease_check fault redis_now key q now_ms book store =
     (let lease_ms = max (q_lease_ms q) 1;
          window = now_ms div lease_ms;
          budget = window_budget (q_rps q) lease_ms;
          want = chunk (q_burst q) budget;
          l = current_lease book key window
      in if 0 < l_remaining l
         then (Inr Allow, book(key \<mapsto> l\<lparr>l_remaining := l_remaining l - 1\<rparr>), store)
         else if l_exhausted l
         then (Inr (Throttle (until_next_window now_ms lease_ms)), book(key \<mapsto> l), store)
         else case redis_claim fault redis_now key window budget want (lease_ttl lease_ms) store of
                (Inl e, store') \<Rightarrow> (Inl e, book(key \<mapsto> l), store')
              | (Inr granted, store') \<Rightarrow>
                  if granted = 0
                  then (Inr (Throttle (until_next_window now_ms lease_ms)), book(key \<mapsto> l\<lparr>l_exhausted := True\<rparr>), store')
                  else (Inr Allow, book(key \<mapsto> l\<lparr>l_remaining := granted - 1\<rparr>), store'))"

text \<open>\<open>prune\<close> keeps the entries that are locked at that moment.\<close>

definition lease_prune :: "string set \<Rightarrow> nat \<Rightarrow> nat \<Rightarrow> lease_book \<Rightarrow> lease_book" where
  "lease_prune locked now_ms lease_ms book =
     (\<lambda>k. case book k of
            Some l \<Rightarrow> if k \<in> locked \<or> now_ms div max lease_ms 1 \<le> l_window l then Some l else None
          | None \<Rightarrow> None)"

section \<open>The gRPC layer\<close>

definition extract_key :: "scope \<Rightarrow> string \<Rightarrow> string option \<Rightarrow> string" where
  "extract_key sc method identity =
     (case sc of
        PerMethod \<Rightarrow> method
      | PerCaller \<Rightarrow> (case identity of
                        Some i \<Rightarrow> if i \<noteq> [] then method @ ''|'' @ i else method
                      | None \<Rightarrow> method))"

text \<open>The answer of the backend is an argument; \<open>None\<close>: no backend is wired.\<close>

definition distributed_check ::
  "('l \<Rightarrow> string \<Rightarrow> nat option \<times> 'l) \<Rightarrow> 'l traffic_profile \<Rightarrow> string \<Rightarrow> (string + traffic_decision) option \<Rightarrow>
   traffic_decision \<times> 'l traffic_profile" where
  "distributed_check check_key p key backend =
     (case backend of
        None \<Rightarrow> profile_check check_key p key
      | Some (Inr d) \<Rightarrow> (d, p)
      | Some (Inl _) \<Rightarrow>
          (if tc_on_backend_error (tp_config p) = Some FailClosed
           then (Throttle (q_lease_ms (profile_quota p) * 1000000), p)
           else profile_check check_key p key))"

text \<open>The rejection, with its hint in milliseconds, or \<open>None\<close> to admit the request.\<close>

definition handle_decision :: "traffic_decision \<Rightarrow> bool \<Rightarrow> nat option" where
  "handle_decision d enforce =
     (case d of
        Allow \<Rightarrow> None
      | Throttle ns \<Rightarrow> if enforce then Some (min (ns div 1000000) (2 ^ 64 - 1)) else None)"

text \<open>
  The body of \<open>call\<close> for the profile and the key of a request: who is asked depends on the mode.  The
  answer of the backend, where it was asked, and the decision come with the verdict.
\<close>

definition traffic_call ::
  "('l \<Rightarrow> string \<Rightarrow> nat option \<times> 'l) \<Rightarrow> ('b \<Rightarrow> (string + traffic_decision) \<times> 'b) \<Rightarrow> string
   \<Rightarrow> 'l traffic_profile \<Rightarrow> 'b
   \<Rightarrow> ((string + traffic_decision) option \<times> traffic_decision \<times> nat option) \<times> 'l traffic_profile \<times> 'b" where
  "traffic_call check_key backend_check key p b =
     (if tc_mode (tp_config p) = Distributed
      then case backend_check b of (answer, b') \<Rightarrow>
           (case distributed_check check_key p key (Some answer) of (d, p') \<Rightarrow>
              ((Some answer, d, handle_decision d (tc_enforce (tp_config p'))), p', b'))
      else case profile_check check_key p key of (d, p') \<Rightarrow>
             ((None, d, handle_decision d (tc_enforce (tp_config p'))), p', b))"

section \<open>The keys of windows\<close>

lemma dec_string_digits: "set (dec_string n) \<subseteq> set ''0123456789''"
proof (induction n rule: dec_string.induct)
  case (1 n)
  have digit: "digit_char d \<in> set ''0123456789''" if "d < 10" for d
    using that by (auto simp: digit_char_def less_Suc_eq numeral_eq_Suc)
  show ?case using 1 digit [of n] digit [of "n mod 10"] by (subst dec_string.simps) auto
qed

lemma dec_string_last: "\<exists>ds. dec_string n = ds @ [digit_char (n mod 10)]"
  by (cases "n < 10") (simp_all add: dec_string.simps [of n])

lemma dec_string_inject: "dec_string m = dec_string n \<Longrightarrow> m = n"
proof (induction m arbitrary: n rule: dec_string.induct)
  case (1 m)
  have len: "dec_string k \<noteq> []" for k using dec_string_last [of k] by auto
  have "digit_char (m mod 10) = digit_char (n mod 10)"
    using 1(2) dec_string_last [of m] dec_string_last [of n] by auto
  then have mod: "m mod 10 = n mod 10" by (simp add: digit_char_inject)
  show ?case
  proof (cases "m < 10")
    case True
    then have "length (dec_string n) = 1" using 1(2) by (simp add: dec_string.simps [of m] flip: 1(2))
    then have "n < 10" using len [of "n div 10"] by (subst (asm) dec_string.simps) (auto split: if_splits)
    then show ?thesis using True mod by simp
  next
    case False
    then have "1 < length (dec_string m)" using len [of "m div 10"] by (subst dec_string.simps) simp
    then have "\<not> n < 10" using 1(2) by (auto simp: dec_string.simps [of n])
    then have "dec_string (m div 10) = dec_string (n div 10)"
      using 1(2) False by (simp add: dec_string.simps [of m] dec_string.simps [of n])
    then have "m div 10 = n div 10" using 1(1) [OF False] by simp
    then show ?thesis using mod by (metis div_mod_decomp)
  qed
qed

lemma append_sep_inject:
  assumes "as @ [x] @ bs = as' @ [x] @ bs'" "x \<notin> set bs" "x \<notin> set bs'"
  shows "as = as' \<and> bs = bs'"
  using assms by (auto simp: append_eq_append_conv2 append_eq_Cons_conv Cons_eq_append_conv)

lemma window_key_inject: "window_counter_key k w = window_counter_key k' w' \<longleftrightarrow> k = k' \<and> w = w'"
proof
  assume eq: "window_counter_key k w = window_counter_key k' w'"
  have colon: "CHR '':'' \<notin> set (dec_string n)" for n using dec_string_digits [of n] by auto
  have "(k @ ''}'') @ [CHR '':''] @ dec_string w = (k' @ ''}'') @ [CHR '':''] @ dec_string w'"
    using eq by (simp add: window_counter_key_def)
  from append_sep_inject [OF this colon colon]
  show "k = k' \<and> w = w'" by (auto dest: dec_string_inject)
qed simp

section \<open>The fleet\<close>

text \<open>
  Replicas \<open>0, 1, ...\<close> with their profiles and lease books share one Redis.  A request is one step: the
  replica holds the lease of the key across the claim, and the script is atomic.  \<open>prof\<close> gives the name of
  the profile of a key, \<open>conf\<close> the configuration of a profile, which stays fixed.  \<open>fl_admitted\<close> records
  every admitted request: its key, its window, what the backend answered and what was decided.
  \<open>FleetCheck r key now redis_now fault\<close> may use any replica clock \<open>now\<close> beside the time \<open>redis_now\<close> of the
  Redis server.
\<close>

datatype fleet_event =
    FleetCheck nat string nat nat "net_fault option"
  | FleetPrune nat "string set" nat nat

type_synonym admission = "(string \<times> nat) \<times> (string + traffic_decision) option \<times> traffic_decision"

record 'l fleet =
  fl_profiles :: "nat \<Rightarrow> string \<Rightarrow> 'l traffic_profile"
  fl_books :: "nat \<Rightarrow> lease_book"
  fl_store :: redis_store
  fl_admitted :: "admission list"

definition window_of :: "quota \<Rightarrow> nat \<Rightarrow> nat" where
  "window_of q now = now div max (q_lease_ms q) 1"

definition budget_of :: "quota \<Rightarrow> nat" where
  "budget_of q = window_budget (q_rps q) (max (q_lease_ms q) 1)"

primrec fleet_step ::
  "('l \<Rightarrow> string \<Rightarrow> nat option \<times> 'l) \<Rightarrow> (string \<Rightarrow> string) \<Rightarrow> fleet_event \<Rightarrow> 'l fleet \<Rightarrow> 'l fleet" where
  "fleet_step check_key prof (FleetCheck r key now redis_now fault) s =
     (let p = fl_profiles s r (prof key); q = profile_quota p in
      case traffic_call check_key (\<lambda>(book, store). lease_check fault redis_now key q now book store) key p
             (fl_books s r, fl_store s) of
        ((answer, d, rejection), p', book', store') \<Rightarrow>
          \<lparr>fl_profiles = (fl_profiles s)(r := (fl_profiles s r)(prof key := p')),
           fl_books = (fl_books s)(r := book'), fl_store = store',
           fl_admitted = (if rejection = None then ((key, window_of q now), answer, d) # fl_admitted s
                          else fl_admitted s)\<rparr>)"
| "fleet_step check_key prof (FleetPrune r locked now lease_ms) s =
     s\<lparr>fl_books := (fl_books s)(r := lease_prune locked now lease_ms (fl_books s r))\<rparr>"

definition fleet_init :: "(nat \<Rightarrow> nat \<Rightarrow> 'l) \<Rightarrow> (string \<Rightarrow> traffic_config) \<Rightarrow> 'l fleet" where
  "fleet_init keyed conf =
     \<lparr>fl_profiles = (\<lambda>_ n. resolve_spec keyed (conf n)), fl_books = (\<lambda>_ _. None), fl_store = (\<lambda>_. None),
      fl_admitted = []\<rparr>"

text \<open>The quota a configuration stands for.\<close>

definition config_quota :: "traffic_config \<Rightarrow> quota" where
  "config_quota c = profile_quota \<lparr>tp_config = c, tp_limiter = ()\<rparr>"

lemma profile_quota_config: "profile_quota p = config_quota (tp_config p)"
  by (simp add: config_quota_def profile_quota_def)

text \<open>Events of a fleet of \<open>n\<close> replicas whose clocks are within half a second of the clock of Redis.\<close>

primrec event_ok :: "nat \<Rightarrow> fleet_event \<Rightarrow> bool" where
  "event_ok n (FleetCheck r key now redis_now fault) \<longleftrightarrow> r < n \<and> now \<le> redis_now + 500 \<and> redis_now \<le> now + 500"
| "event_ok n (FleetPrune r locked now lease_ms) \<longleftrightarrow> r < n"

definition quotas_fit :: "(string \<Rightarrow> quota) \<Rightarrow> bool" where
  "quotas_fit qf \<longleftrightarrow> (\<forall>k. max (q_lease_ms (qf k)) 1 + 1000 < 2 ^ 64)"

text \<open>The failed calls to Redis for a key in a window.\<close>

primrec failed_call :: "(string \<Rightarrow> quota) \<Rightarrow> string \<Rightarrow> nat \<Rightarrow> fleet_event \<Rightarrow> bool" where
  "failed_call qf k w (FleetCheck r key now redis_now fault) \<longleftrightarrow> key = k \<and> window_of (qf k) now = w \<and> fault \<noteq> None"
| "failed_call qf k w (FleetPrune r locked now lease_ms) \<longleftrightarrow> False"

definition failed_calls :: "(string \<Rightarrow> quota) \<Rightarrow> string \<Rightarrow> nat \<Rightarrow> fleet_event list \<Rightarrow> nat" where
  "failed_calls qf k w es = length (filter (failed_call qf k w) es)"

text \<open>
  Admitted requests of a key and window: all, those the backend allowed, those the local limiter
  allowed after the backend had failed, and those admitted in shadow mode against the decision.
\<close>

definition admitted :: "'l fleet \<Rightarrow> string \<Rightarrow> nat \<Rightarrow> nat" where
  "admitted s k w = length (filter (\<lambda>a. fst a = (k, w)) (fl_admitted s))"

definition leased :: "'l fleet \<Rightarrow> string \<Rightarrow> nat \<Rightarrow> nat" where
  "leased s k w = length (filter (\<lambda>a. fst a = (k, w) \<and> fst (snd a) = Some (Inr Allow)) (fl_admitted s))"

definition fallback :: "'l fleet \<Rightarrow> string \<Rightarrow> nat \<Rightarrow> nat" where
  "fallback s k w = length (filter (\<lambda>a. fst a = (k, w) \<and> fst (snd a) \<noteq> Some (Inr Allow) \<and> snd (snd a) = Allow) (fl_admitted s))"

definition shadowed :: "'l fleet \<Rightarrow> string \<Rightarrow> nat \<Rightarrow> nat" where
  "shadowed s k w = length (filter (\<lambda>a. fst a = (k, w) \<and> fst (snd a) \<noteq> Some (Inr Allow) \<and> snd (snd a) \<noteq> Allow) (fl_admitted s))"

lemma admitted_split: "admitted s k w = leased s k w + fallback s k w + shadowed s k w"
proof -
  have "length (filter (\<lambda>a. fst a = (k, w)) xs) =
      length (filter (\<lambda>a. fst a = (k, w) \<and> fst (snd a) = Some (Inr Allow)) xs) +
      length (filter (\<lambda>a. fst a = (k, w) \<and> fst (snd a) \<noteq> Some (Inr Allow) \<and> snd (snd a) = Allow) xs) +
      length (filter (\<lambda>a. fst a = (k, w) \<and> fst (snd a) \<noteq> Some (Inr Allow) \<and> snd (snd a) \<noteq> Allow) xs)"
    for xs :: "admission list" by (induction xs) auto
  then show ?thesis by (simp add: admitted_def leased_def fallback_def shadowed_def)
qed

section \<open>Tokens are never created\<close>

text \<open>Tokens a lease entry holds for a window, and what Redis has given out for it.\<close>

definition tok :: "lease option \<Rightarrow> nat \<Rightarrow> nat" where
  "tok e w = (case e of Some l \<Rightarrow> if l_window l = w then l_remaining l else 0 | None \<Rightarrow> 0)"

definition spent_tokens :: "redis_store \<Rightarrow> string \<Rightarrow> nat \<Rightarrow> nat" where
  "spent_tokens store k w = (case store (window_counter_key k w) of Some (v, _) \<Rightarrow> v | None \<Rightarrow> 0)"

definition live :: "redis_store \<Rightarrow> nat \<Rightarrow> string \<Rightarrow> nat \<Rightarrow> bool" where
  "live store redis_now k w \<longleftrightarrow> (\<forall>v e. store (window_counter_key k w) = Some (v, e) \<longrightarrow> redis_now < e)"

lemma tok_current_lease: "tok (Some (current_lease book k win)) w \<le> tok (book k) w"
  by (auto simp: tok_def current_lease_def split: option.splits)

lemma current_lease_window: "l_window (current_lease book k win) = win"
  by (simp add: current_lease_def split: option.splits)

lemma claim_grants:
  assumes "claim_script t (window_counter_key k w) budget want ttl store = (g, store')" "live store t k w"
  shows "g = 0 \<and> store' = store \<or>
    store' = store(window_counter_key k w \<mapsto> (spent_tokens store k w + g, t + ttl)) \<and> spent_tokens store k w + g \<le> budget"
proof -
  have "(case store (window_counter_key k w) of Some (v, e) \<Rightarrow> if t < e then v else 0 | None \<Rightarrow> 0) = spent_tokens store k w"
    using assms(2) by (auto simp: live_def spent_tokens_def split: option.splits)
  then show ?thesis using assms(1) by (auto simp: claim_script_def Let_def split: if_splits)
qed

lemma lease_check_effect:
  assumes run: "lease_check fault t k q now book store = (res, book', store')"
    and live: "live store t k (window_of q now)"
  shows "\<exists>l' g. book' = book(k \<mapsto> l') \<and>
    (\<forall>w. tok (Some l') w + (if res = Inr Allow \<and> w = window_of q now then 1 else 0) \<le>
       tok (book k) w + (if w = window_of q now then g else 0)) \<and>
    (g = 0 \<and> store' = store \<or>
     store' = store(window_counter_key k (window_of q now) \<mapsto>
       (spent_tokens store k (window_of q now) + g, t + lease_ttl (max (q_lease_ms q) 1))) \<and>
     spent_tokens store k (window_of q now) + g \<le> budget_of q)"
proof -
  let ?W = "window_of q now"
  let ?l = "current_lease book k ?W"
  note le = tok_current_lease [of book k ?W]
  have win: "l_window ?l = ?W" by (rule current_lease_window)
  note run' = run [unfolded lease_check_def Let_def, folded window_of_def budget_of_def]
  consider (hit) "0 < l_remaining ?l" | (empty) "l_remaining ?l = 0" "l_exhausted ?l"
    | (claim) "l_remaining ?l = 0" "\<not> l_exhausted ?l" by blast
  then show ?thesis
  proof cases
    case hit
    then have "res = Inr Allow" "book' = book(k \<mapsto> ?l\<lparr>l_remaining := l_remaining ?l - 1\<rparr>)" "store' = store"
      using run' by auto
    moreover have "tok (Some (?l\<lparr>l_remaining := l_remaining ?l - 1\<rparr>)) w + (if w = ?W then 1 else 0) \<le> tok (book k) w" for w
      using le [of w] hit win by (auto simp: tok_def)
    ultimately show ?thesis by (intro exI [of _ "?l\<lparr>l_remaining := l_remaining ?l - 1\<rparr>"] exI [of _ 0]) simp
  next
    case empty
    then have "res \<noteq> Inr Allow" "book' = book(k \<mapsto> ?l)" "store' = store" using run' by auto
    then show ?thesis using le by (intro exI [of _ ?l] exI [of _ 0]) simp
  next
    case claim
    have l0: "tok (Some ?l) w = 0" for w using claim(1) by (simp add: tok_def)
    obtain g st where g: "claim_script t (window_counter_key k ?W) (budget_of q) (chunk (q_burst q) (budget_of q))
        (lease_ttl (max (q_lease_ms q) 1)) store = (g, st)"
      by (cases "claim_script t (window_counter_key k ?W) (budget_of q) (chunk (q_burst q) (budget_of q))
        (lease_ttl (max (q_lease_ms q) 1)) store")
    note grants = claim_grants [OF g live]
    consider (lost) reason where "fault = Some (NotRun reason)" | (ran) reason where "fault = Some (ReplyLost reason)"
      | (fine) "fault = None" by (metis net_fault.exhaust option.exhaust)
    then show ?thesis
    proof cases
      case lost
      then have "res \<noteq> Inr Allow" "book' = book(k \<mapsto> ?l)" "store' = store"
        using run' claim by (auto simp: redis_claim_def remote_call_def)
      then show ?thesis using l0 by (intro exI [of _ ?l] exI [of _ 0]) simp
    next
      case ran
      then have "res \<noteq> Inr Allow" "book' = book(k \<mapsto> ?l)" "store' = st"
        using run' claim g by (auto simp: redis_claim_def remote_call_def)
      then show ?thesis using l0 grants by (intro exI [of _ ?l] exI [of _ g]) simp
    next
      case fine
      show ?thesis
      proof (cases "g = 0")
        case True
        then have "res \<noteq> Inr Allow" "book' = book(k \<mapsto> ?l\<lparr>l_exhausted := True\<rparr>)" "store' = st"
          using run' claim fine g by (auto simp: redis_claim_def remote_call_def)
        then show ?thesis using grants True claim(1)
          by (intro exI [of _ "?l\<lparr>l_exhausted := True\<rparr>"] exI [of _ 0]) (auto simp: tok_def)
      next
        case False
        then have "res = Inr Allow" "book' = book(k \<mapsto> ?l\<lparr>l_remaining := g - 1\<rparr>)" "store' = st"
          using run' claim fine g by (auto simp: redis_claim_def remote_call_def)
        then show ?thesis using grants False win
          by (intro exI [of _ "?l\<lparr>l_remaining := g - 1\<rparr>"] exI [of _ g]) (auto simp: tok_def)
      qed
    qed
  qed
qed

text \<open>Only a failed call is an error of the check.\<close>

lemma lease_check_error:
  "lease_check fault t k q now book store = (Inl e, book', store') \<Longrightarrow> fault \<noteq> None"
  by (cases fault) (auto simp: lease_check_def Let_def redis_claim_def remote_call_def split: if_splits prod.splits)

definition held :: "nat \<Rightarrow> 'l fleet \<Rightarrow> string \<Rightarrow> nat \<Rightarrow> nat" where
  "held n s k w = (\<Sum>r<n. tok (fl_books s r k) w)"

text \<open>
  The invariant: the profiles have their configuration; what was admitted on a lease and what is still
  held in leases of a window was given out by Redis, Redis gave out at most the budget, and a counter
  outlives its window by half a second.
\<close>

definition fleet_inv :: "nat \<Rightarrow> (string \<Rightarrow> traffic_config) \<Rightarrow> (string \<Rightarrow> quota) \<Rightarrow> 'l fleet \<Rightarrow> bool" where
  "fleet_inv n conf qf s \<longleftrightarrow> (\<forall>r m. tp_config (fl_profiles s r m) = conf m) \<and> (\<forall>k w.
     leased s k w + held n s k w \<le> spent_tokens (fl_store s) k w \<and> spent_tokens (fl_store s) k w \<le> budget_of (qf k) \<and>
     (\<forall>v e. fl_store s (window_counter_key k w) = Some (v, e) \<longrightarrow> (w + 1) * max (q_lease_ms (qf k)) 1 + 500 \<le> e))"

lemma fleet_init_inv: "fleet_inv n conf qf (fleet_init keyed conf)"
  by (simp add: fleet_inv_def fleet_init_def leased_def held_def spent_tokens_def tok_def resolve_spec_def)

lemma sum_upd: "r < (n::nat) \<Longrightarrow> (\<Sum>i<n. if i = r then x else f i) + f r = (\<Sum>i<n. f i) + (x::nat)"
  by (subst (1 2) sum.remove [of _ r]) auto

lemma held_upd:
  assumes "r < n"
  shows "held n (s\<lparr>fl_books := (fl_books s)(r := b)\<rparr>) k w + tok (fl_books s r k) w = held n s k w + tok (b k) w"
proof -
  have "held n (s\<lparr>fl_books := (fl_books s)(r := b)\<rparr>) k w =
      (\<Sum>i<n. if i = r then tok (b k) w else tok (fl_books s i k) w)"
    by (auto simp: held_def intro: sum.cong)
  then show ?thesis using sum_upd [OF assms, of "tok (b k) w" "\<lambda>i. tok (fl_books s i k) w"] by (simp add: held_def)
qed

lemma window_bounds:
  "window_of q now * max (q_lease_ms q) 1 \<le> now" "now < (window_of q now + 1) * max (q_lease_ms q) 1"
  using div_times_less_eq_dividend [of now "max (q_lease_ms q) 1"]
    dividend_less_div_times [of "max (q_lease_ms q) 1" now]
  by (simp_all add: window_of_def)

lemma lease_ttl_bound: "l + 1000 < 2 ^ 64 \<Longrightarrow> l + 1000 \<le> lease_ttl l"
  by (simp add: lease_ttl_def wrap_u64_def)

lemma fleet_prune_inv:
  assumes "fleet_inv n conf qf s" "r < n"
  shows "fleet_inv n conf qf (fleet_step check_key prof (FleetPrune r locked now l) s)"
proof -
  have "tok (lease_prune locked now l (fl_books s r) k) w \<le> tok (fl_books s r k) w" for k w
    by (simp add: lease_prune_def tok_def split: option.splits)
  then have "held n (fleet_step check_key prof (FleetPrune r locked now l) s) k w \<le> held n s k w" for k w
    using held_upd [OF assms(2), of s "lease_prune locked now l (fl_books s r)" k w]
    by (metis add_le_cancel_left add_le_imp_le_right fleet_step.simps(2) nat_add_left_cancel_le)
  then show ?thesis
    using assms(1) unfolding fleet_inv_def leased_def by (simp, meson add_left_mono order_trans)
qed

text \<open>What a request does to the fleet, by the mode of its profile.\<close>

lemma distributed_check_config: "distributed_check check_key p key b = (d, p') \<Longrightarrow> tp_config p' = tp_config p"
  by (auto simp: distributed_check_def profile_check_def split: option.splits sum.splits prod.splits if_splits)

lemma profile_check_config: "profile_check check_key p key = (d, p') \<Longrightarrow> tp_config p' = tp_config p"
  by (auto simp: profile_check_def split: option.splits prod.splits)

lemma fleet_check_cases:
  fixes s :: "'l fleet"
  assumes c: "tp_config (fl_profiles s r (prof key)) = c"
    and s': "s' = fleet_step check_key prof (FleetCheck r key now t fault) s"
  obtains (local) d p' where "tc_mode c \<noteq> Distributed" "tp_config p' = c"
      "s' = s\<lparr>fl_profiles := (fl_profiles s)(r := (fl_profiles s r)(prof key := p')),
        fl_admitted := (if handle_decision d (tc_enforce c) = None
          then ((key, window_of (config_quota c) now), None, d) # fl_admitted s else fl_admitted s)\<rparr>"
  | (distributed) answer book' store' d p' where "tc_mode c = Distributed" "tp_config p' = c"
      "lease_check fault t key (config_quota c) now (fl_books s r) (fl_store s) = (answer, book', store')"
      "distributed_check check_key (fl_profiles s r (prof key)) key (Some answer) = (d, p')"
      "s' = \<lparr>fl_profiles = (fl_profiles s)(r := (fl_profiles s r)(prof key := p')),
        fl_books = (fl_books s)(r := book'), fl_store = store',
        fl_admitted = (if handle_decision d (tc_enforce c) = None
          then ((key, window_of (config_quota c) now), Some answer, d) # fl_admitted s else fl_admitted s)\<rparr>"
proof (cases "tc_mode c = Distributed")
  case True
  obtain answer book' store' where run:
    "lease_check fault t key (config_quota c) now (fl_books s r) (fl_store s) = (answer, book', store')"
    by (cases "lease_check fault t key (config_quota c) now (fl_books s r) (fl_store s)") auto
  obtain d p' where d: "distributed_check check_key (fl_profiles s r (prof key)) key (Some answer) = (d, p')"
    by (cases "distributed_check check_key (fl_profiles s r (prof key)) key (Some answer)")
  have p': "tp_config p' = c" using distributed_check_config [OF d] c by simp
  show thesis
    by (rule distributed [OF True p' run d])
       (simp add: s' traffic_call_def Let_def profile_quota_config c True run d p')
next
  case False
  obtain d p' where d: "profile_check check_key (fl_profiles s r (prof key)) key = (d, p')"
    by (cases "profile_check check_key (fl_profiles s r (prof key)) key")
  have p': "tp_config p' = c" using profile_check_config [OF d] c by simp
  show thesis
    by (rule local [of p' d, OF False p']) (simp add: s' traffic_call_def Let_def profile_quota_config c False d p')
qed

text \<open>The backend is obeyed: its answer is the decision, and an admission it allowed is counted as leased.\<close>

lemma distributed_check_answer:
  "distributed_check check_key p key (Some (Inr d')) = (d, p') \<Longrightarrow> d = d'"
  by (simp add: distributed_check_def)

lemma leased_admission:
  assumes "distributed_check check_key p key (Some answer) = (d, p')"
    and "fl_admitted s' = (if handle_decision d enf = None then ((key, W), Some answer, d) # fl_admitted s else fl_admitted s)"
  shows "leased s' k w = leased s k w + (if answer = Inr Allow \<and> k = key \<and> w = W then 1 else 0)"
proof -
  have "answer = Inr Allow \<Longrightarrow> handle_decision d enf = None"
    using assms(1) by (auto simp: distributed_check_def handle_decision_def)
  then show ?thesis using assms(2) by (auto simp: leased_def)
qed

lemma counter_live:
  assumes "fleet_inv n conf qf s" "t \<le> now + 500"
  shows "live (fl_store s) t key (window_of (qf key) now)"
proof -
  let ?W = "window_of (qf key) now"
  have "t < e" if "fl_store s (window_counter_key key ?W) = Some (v, e)" for v e
  proof -
    have "(?W + 1) * max (q_lease_ms (qf key)) 1 + 500 \<le> e" using assms(1) that unfolding fleet_inv_def by blast
    then show ?thesis using window_bounds(2) [of now "qf key"] assms(2) by linarith
  qed
  then show ?thesis by (simp add: live_def)
qed

lemma fleet_check_inv:
  assumes inv: "fleet_inv n conf qf s" and fit: "quotas_fit qf" and r: "r < n"
    and qf: "qf = (\<lambda>k. config_quota (conf (prof k)))" and clock: "now \<le> t + 500" "t \<le> now + 500"
  shows "fleet_inv n conf qf (fleet_step check_key prof (FleetCheck r key now t fault) s)"
proof -
  let ?s' = "fleet_step check_key prof (FleetCheck r key now t fault) s"
  let ?W = "window_of (qf key) now" and ?L = "max (q_lease_ms (qf key)) 1"
  let ?book = "fl_books s r" and ?store = "fl_store s"
  have conf: "tp_config (fl_profiles s r m) = conf m" for r m using inv by (simp add: fleet_inv_def)
  have q: "config_quota (conf (prof key)) = qf key" by (simp add: qf)
  show ?thesis
  proof (cases rule: fleet_check_cases [of s r prof key "conf (prof key)" ?s' check_key now t fault,
        OF conf refl, case_names local distributed])
    case (local d p')
    then show ?thesis using inv unfolding fleet_inv_def by (auto simp: held_def leased_def)
  next
    case (distributed answer book' store' d p')
    note run = distributed(3) [unfolded q]
    have live: "live ?store t key ?W" using inv clock(2) by (rule counter_live)
    obtain l' g where book: "book' = ?book(key \<mapsto> l')"
      and tok: "\<And>w. tok (Some l') w + (if answer = Inr Allow \<and> w = ?W then 1 else 0) \<le>
        tok (?book key) w + (if w = ?W then g else 0)"
      and store: "g = 0 \<and> store' = ?store \<or>
        store' = ?store(window_counter_key key ?W \<mapsto> (spent_tokens ?store key ?W + g, t + lease_ttl ?L)) \<and>
        spent_tokens ?store key ?W + g \<le> budget_of (qf key)"
      using lease_check_effect [OF run live] by blast
    have s': "fl_books ?s' = (fl_books s)(r := book')" "fl_store ?s' = store'"
      using arg_cong [OF distributed(5), of fl_books] arg_cong [OF distributed(5), of fl_store] by simp_all
    have adm: "leased ?s' k w = leased s k w + (if answer = Inr Allow \<and> k = key \<and> w = ?W then 1 else 0)" for k w
      unfolding distributed(5) by (rule leased_admission [OF distributed(4), where enf = "tc_enforce (conf (prof key))"]) (simp add: q)
    have held': "held n ?s' k w + tok (?book k) w = held n s k w + tok (book' k) w" for k w
      using held_upd [OF r, of s book' k w] s'(1) by (simp add: held_def)
    have spent': "spent_tokens store' k w = spent_tokens ?store k w + (if k = key \<and> w = ?W then g else 0)" for k w
      using store by (auto simp: spent_tokens_def window_key_inject)
    have expiry: "(?W + 1) * ?L + 500 \<le> t + lease_ttl ?L"
      using window_bounds(1) [of "qf key" now] clock(1) lease_ttl_bound [of ?L] fit
      unfolding quotas_fit_def by (simp add: algebra_simps)
    show ?thesis unfolding fleet_inv_def
    proof (intro allI conjI impI)
      fix k w
      have old: "leased s k w + held n s k w \<le> spent_tokens ?store k w" "spent_tokens ?store k w \<le> budget_of (qf k)"
        using inv unfolding fleet_inv_def by blast+
      show "leased ?s' k w + held n ?s' k w \<le> spent_tokens (fl_store ?s') k w"
        using old(1) held' [of k w] tok [of w] unfolding s'(2) spent' adm book
        by (cases "k = key") (auto split: if_splits)
      show "spent_tokens (fl_store ?s') k w \<le> budget_of (qf k)"
        using old(2) store unfolding s'(2) spent' by auto
      show "(w + 1) * max (q_lease_ms (qf k)) 1 + 500 \<le> e"
        if "fl_store ?s' (window_counter_key k w) = Some (v, e)" for v e
        using that store inv expiry unfolding s'(2) fleet_inv_def by (auto simp: window_key_inject split: if_splits)
      show "tp_config (fl_profiles ?s' i m) = conf m" for i m
        using arg_cong [OF distributed(5), of fl_profiles] distributed(2) conf by simp
    qed
  qed
qed

lemma fleet_step_inv:
  assumes "fleet_inv n conf qf s" "quotas_fit qf" "qf = (\<lambda>k. config_quota (conf (prof k)))" "event_ok n e"
  shows "fleet_inv n conf qf (fleet_step check_key prof e s)"
proof (cases e)
  case (FleetCheck r key now t fault)
  then show ?thesis using assms by (simp add: fleet_check_inv del: fleet_step.simps)
next
  case (FleetPrune r locked now l)
  then show ?thesis using assms by (simp add: fleet_prune_inv del: fleet_step.simps)
qed

text \<open>
  Under enforcement nothing is admitted against the decision, and the local limiter admits a request of a
  distributed profile only after a failed call, and not under \<open>FailClosed\<close>.
\<close>

definition fallback_inv ::
  "(string \<Rightarrow> string) \<Rightarrow> (string \<Rightarrow> traffic_config) \<Rightarrow> (string \<Rightarrow> quota) \<Rightarrow> string \<Rightarrow> nat \<Rightarrow> nat \<Rightarrow> 'l fleet \<Rightarrow> bool" where
  "fallback_inv prof conf qf k w m s \<longleftrightarrow> (\<forall>r x. tp_config (fl_profiles s r x) = conf x) \<and>
     (tc_mode (conf (prof k)) = Distributed \<and> tc_enforce (conf (prof k)) \<longrightarrow>
        shadowed s k w = 0 \<and>
        fallback s k w \<le> (if tc_on_backend_error (conf (prof k)) = Some FailClosed then 0 else m))"

lemma other_admissions:
  assumes "fl_admitted s' = (if b then (x, answer, d) # fl_admitted s else fl_admitted s)"
  shows "fallback s' k w = fallback s k w + (if b \<and> x = (k, w) \<and> answer \<noteq> Some (Inr Allow) \<and> d = Allow then 1 else 0)"
    and "shadowed s' k w = shadowed s k w + (if b \<and> x = (k, w) \<and> answer \<noteq> Some (Inr Allow) \<and> d \<noteq> Allow then 1 else 0)"
  using assms by (auto simp: fallback_def shadowed_def)

lemma fallback_inv_next:
  assumes "fallback_inv prof conf qf k w m s" "\<forall>r x. tp_config (fl_profiles s' r x) = conf x"
    and "tc_enforce (conf (prof k)) \<Longrightarrow> shadowed s' k w = shadowed s k w"
    and "fallback s' k w \<le> fallback s k w + (if b then 1 else 0)" "m \<le> m'"
    and "b \<Longrightarrow> tc_on_backend_error (conf (prof k)) \<noteq> Some FailClosed \<and> m < m'"
  shows "fallback_inv prof conf qf k w m' s'"
  using assms by (cases b) (auto simp: fallback_inv_def split: if_splits)

text \<open>The local limiter decides for a distributed profile only after a failed call.\<close>

lemma fallback_reason:
  assumes "lease_check fault t key q now book store = (answer, book', store')"
    and "distributed_check check_key p key (Some answer) = (d, p')" "answer \<noteq> Inr Allow" "d = Allow"
  shows "fault \<noteq> None \<and> tc_on_backend_error (tp_config p) \<noteq> Some FailClosed"
  using assms lease_check_error by (cases answer) (auto simp: distributed_check_def split: if_splits)

lemma fallback_step:
  assumes inv: "fallback_inv prof conf qf k w m s" and qf: "qf = (\<lambda>k. config_quota (conf (prof k)))"
  shows "fallback_inv prof conf qf k w (m + (if failed_call qf k w e then 1 else 0)) (fleet_step check_key prof e s)"
proof (cases e)
  case (FleetPrune r locked now l)
  then show ?thesis using inv by (simp add: fallback_inv_def fallback_def shadowed_def)
next
  case (FleetCheck r key now t fault)
  let ?s' = "fleet_step check_key prof (FleetCheck r key now t fault) s" and ?c = "conf (prof key)"
  have conf: "tp_config (fl_profiles s r x) = conf x" for r x using inv by (simp add: fallback_inv_def)
  show ?thesis
  proof (cases rule: fleet_check_cases [of s r prof key "conf (prof key)" ?s' check_key now t fault,
        OF conf refl, case_names local distributed])
    case (local d p')
    have a: "fl_admitted ?s' = (if handle_decision d (tc_enforce ?c) = None
        then ((key, window_of (config_quota ?c) now), None, d) # fl_admitted s else fl_admitted s)"
      "\<forall>r x. tp_config (fl_profiles ?s' r x) = conf x"
      unfolding local(3) using conf local(2) by simp_all
    show ?thesis unfolding FleetCheck
    proof (cases "key = k")
      case True
      then show "fallback_inv prof conf qf k w (m + (if failed_call qf k w (FleetCheck r key now t fault) then 1 else 0)) ?s'"
        using a(2) local(1) unfolding fallback_inv_def by blast
    next
      case False
      then have "fallback ?s' k w = fallback s k w" "shadowed ?s' k w = shadowed s k w"
        unfolding other_admissions [OF a(1), of k w] by auto
      then show "fallback_inv prof conf qf k w (m + (if failed_call qf k w (FleetCheck r key now t fault) then 1 else 0)) ?s'"
        by (intro fallback_inv_next [OF inv a(2), of False]) auto
    qed
  next
    case (distributed answer book' store' d p')
    have a: "fl_admitted ?s' = (if handle_decision d (tc_enforce ?c) = None
        then ((key, window_of (config_quota ?c) now), Some answer, d) # fl_admitted s else fl_admitted s)"
      "\<forall>r x. tp_config (fl_profiles ?s' r x) = conf x"
      unfolding distributed(5) using conf distributed(2) by simp_all
    note why = fallback_reason [OF distributed(3,4), unfolded conf]
    have refused: "d \<noteq> Allow \<Longrightarrow> handle_decision d True \<noteq> None"
      by (cases d) (simp_all add: handle_decision_def)
    show ?thesis unfolding FleetCheck
    proof (cases "(key, window_of (config_quota ?c) now) = (k, w)")
      case False
      then have "fallback ?s' k w = fallback s k w" "shadowed ?s' k w = shadowed s k w"
        unfolding other_admissions [OF a(1), of k w] by auto
      then show "fallback_inv prof conf qf k w (m + (if failed_call qf k w (FleetCheck r key now t fault) then 1 else 0)) ?s'"
        by (intro fallback_inv_next [OF inv a(2), of False]) auto
    next
      case True
      let ?fall = "answer \<noteq> Inr Allow \<and> d = Allow"
      have "shadowed ?s' k w = shadowed s k w" if "tc_enforce ?c"
        unfolding other_admissions(2) [OF a(1), of k w] using refused that by auto
      moreover have "fallback ?s' k w \<le> fallback s k w + (if ?fall then 1 else 0)"
        unfolding other_admissions(1) [OF a(1), of k w] by auto
      moreover have "fault \<noteq> None \<and> tc_on_backend_error ?c \<noteq> Some FailClosed" if ?fall
        using why that by blast
      moreover have "failed_call qf k w (FleetCheck r key now t fault) \<longleftrightarrow> fault \<noteq> None"
        using True by (auto simp: qf)
      ultimately show "fallback_inv prof conf qf k w (m + (if failed_call qf k w (FleetCheck r key now t fault) then 1 else 0)) ?s'"
        using True by (intro fallback_inv_next [OF inv a(2), of ?fall]) auto
    qed
  qed
qed

lemma fleet_run_inv:
  assumes "quotas_fit qf" "qf = (\<lambda>k. config_quota (conf (prof k)))"
  shows "\<forall>e \<in> set es. event_ok n e \<Longrightarrow> fleet_inv n conf qf s \<Longrightarrow> fallback_inv prof conf qf k w m s \<Longrightarrow>
    fleet_inv n conf qf (fold (fleet_step check_key prof) es s) \<and>
    fallback_inv prof conf qf k w (m + failed_calls qf k w es) (fold (fleet_step check_key prof) es s)"
proof (induction es arbitrary: s m)
  case Nil
  then show ?case by (simp add: failed_calls_def)
next
  case (Cons e es)
  let ?m = "m + (if failed_call qf k w e then 1 else 0)"
  have "m + failed_calls qf k w (e # es) = ?m + failed_calls qf k w es" by (simp add: failed_calls_def)
  moreover have "fleet_inv n conf qf (fleet_step check_key prof e s)"
    using Cons.prems assms by (intro fleet_step_inv) simp_all
  moreover have "fallback_inv prof conf qf k w ?m (fleet_step check_key prof e s)"
    using Cons.prems(3) assms(2) by (rule fallback_step)
  moreover have "\<forall>x\<in>set es. event_ok n x" using Cons.prems(1) by simp
  ultimately show ?case using Cons.IH [of "fleet_step check_key prof e s" ?m] by (simp only: fold_simps)
qed

section \<open>Properties\<close>

lemma div_ceil_bound: "0 < d \<Longrightarrow> d * div_ceil n d < n + d"
proof -
  assume d: "0 < d"
  have "d * (n div d) + n mod d = n" by (rule mult_div_mod_eq)
  then have "0 < n mod d \<Longrightarrow> d * (n div d) < n" "d * (n div d) < n + d" using d by linarith+
  then show ?thesis using d by (simp add: div_ceil_def)
qed

lemma budget_rate:
  assumes "rps * l < 2 ^ 64" "0 < rps * l"
  shows "1000 * window_budget rps l < rps * l + 1000"
  using assms div_ceil_bound [of 1000 "rps * l"] by (simp add: window_budget_def wrap_u64_def max_def)

text \<open>
  C36. What a fleet admits.  Whatever requests any number of replicas get, in whatever order, with lease
  books pruned and calls to Redis failing before or after Redis has executed them:
  the requests of a key that Redis' leases admit in a window number at most \<open>window_budget\<close>, in shadow
  mode too;
  under enforcement all admitted requests of a distributed profile number at most that budget under
  \<open>FailClosed\<close>, and otherwise at most the budget and one for each failed call, which the local limiter
  may let pass;
  so, unless the product overflows sixty-four bits, they stay below the configured rate plus one request
  per window, plus those calls.
  The replica clocks need to agree with the clock of Redis to half a second, which is what the
  time-to-live of a window's counter allows for; the configuration is the same on all replicas and is
  not reloaded.
\<close>

theorem fleet_admissions_within_budget:
  assumes "qf = (\<lambda>k. config_quota (conf (prof k)))" "quotas_fit qf" "\<forall>e \<in> set es. event_ok n e"
    and "s = fold (fleet_step check_key prof) es (fleet_init keyed conf)"
    and "L = max (q_lease_ms (qf k)) 1"
    and "extra = (if tc_on_backend_error (conf (prof k)) = Some FailClosed then 0 else failed_calls qf k w es)"
  shows "leased s k w \<le> window_budget (q_rps (qf k)) L \<and>
    (tc_mode (conf (prof k)) = Distributed \<and> tc_enforce (conf (prof k)) \<longrightarrow>
       admitted s k w \<le> window_budget (q_rps (qf k)) L + extra \<and>
       (0 < q_rps (qf k) * L \<and> q_rps (qf k) * L < 2 ^ 64 \<longrightarrow>
          1000 * admitted s k w < q_rps (qf k) * L + 1000 + 1000 * extra))"
proof -
  have "fallback_inv prof conf qf k w 0 (fleet_init keyed conf)"
    by (simp add: fallback_inv_def fleet_init_def resolve_spec_def fallback_def shadowed_def)
  from fleet_run_inv [OF assms(2,1,3) fleet_init_inv this]
  have inv: "fleet_inv n conf qf s" "fallback_inv prof conf qf k w (failed_calls qf k w es) s"
    by (simp_all add: assms(4))
  have l: "leased s k w \<le> window_budget (q_rps (qf k)) L"
    using inv(1) unfolding fleet_inv_def budget_of_def assms(5) by (meson add_leD1 order_trans)
  have a: "admitted s k w \<le> window_budget (q_rps (qf k)) L + extra"
    if "tc_mode (conf (prof k)) = Distributed" "tc_enforce (conf (prof k))"
    using inv(2) that l unfolding fallback_inv_def admitted_split assms(6) by simp
  show ?thesis
  proof (intro conjI impI l; elim conjE)
    show "1000 * admitted s k w < q_rps (qf k) * L + 1000 + 1000 * extra"
      if "tc_mode (conf (prof k)) = Distributed" "tc_enforce (conf (prof k))" "0 < q_rps (qf k) * L" "q_rps (qf k) * L < 2 ^ 64"
      using a [OF that(1,2)] budget_rate [OF that(4,3)] by linarith
  qed (rule a)
qed

text \<open>A profile of three requests per second in chunks of two, and a limiter that lets everything pass.\<close>

definition sample_conf :: "backend_error option \<Rightarrow> string \<Rightarrow> traffic_config" where
  "sample_conf policy name =
     \<lparr>tc_rps = 3, tc_burst = 2, tc_scope = PerMethod, tc_mode = Distributed, tc_enforce = True,
      tc_lease_ms = Some 1000, tc_on_backend_error = policy\<rparr>"

definition sample_events :: "fleet_event list" where
  "sample_events =
     [FleetCheck 0 ''m'' 5000 5000 None, FleetCheck 1 ''m'' 5010 5300 None, FleetCheck 0 ''m'' 5020 5020 None,
      FleetCheck 1 ''m'' 5400 5400 (Some (NotRun ''timeout'')), FleetCheck 1 ''m'' 5990 5700 None,
      FleetPrune 0 {} 6100 1000, FleetCheck 0 ''m'' 6200 6200 None]"

definition sample_fleet :: "backend_error option \<Rightarrow> unit fleet" where
  "sample_fleet policy = fold (fleet_step (\<lambda>l _. (None, l)) (\<lambda>_. ''p'')) sample_events
     (fleet_init (\<lambda>_ _. ()) (sample_conf policy))"

lemma sample_admissions:
  "map fst (fl_admitted (sample_fleet (Some FailClosed))) = [(''m'', 6), (''m'', 5), (''m'', 5), (''m'', 5)]"
  "map fst (fl_admitted (sample_fleet None)) = [(''m'', 6), (''m'', 5), (''m'', 5), (''m'', 5), (''m'', 5)]"
  by (simp_all add: sample_fleet_def sample_events_def fleet_init_def resolve_spec_def sample_conf_def
      traffic_call_def distributed_check_def profile_check_def handle_decision_def lease_check_def Let_def
      current_lease_def profile_quota_def redis_claim_def remote_call_def claim_script_def window_key_inject
      window_budget_def div_ceil_def wrap_u64_def chunk_def lease_ttl_def window_of_def lease_prune_def)

theorem fleet_admissions_within_budget_witness:
  "quotas_fit (\<lambda>_. config_quota (sample_conf None ''p'')) \<and> list_all (event_ok 2) sample_events \<and>
   admitted (sample_fleet (Some FailClosed)) ''m'' 5 \<le> 3 \<and>
   admitted (sample_fleet None) ''m'' 5 \<le> 3 + 1 \<and>
   map fst (fl_admitted (sample_fleet None)) = [(''m'', 6), (''m'', 5), (''m'', 5), (''m'', 5), (''m'', 5)]"
proof -
  have fit: "quotas_fit (\<lambda>_. config_quota (sample_conf policy ''p''))" for policy
    by (simp add: quotas_fit_def sample_conf_def config_quota_def profile_quota_def)
  have ev: "\<forall>e \<in> set sample_events. event_ok 2 e" by (simp add: sample_events_def)
  note bound =
    fleet_admissions_within_budget [of "\<lambda>_. config_quota (sample_conf None ''p'')" "sample_conf None"
      "\<lambda>_. ''p''", OF refl fit ev sample_fleet_def refl refl, of "''m''" 5]
    fleet_admissions_within_budget [of "\<lambda>_. config_quota (sample_conf (Some FailClosed) ''p'')"
      "sample_conf (Some FailClosed)" "\<lambda>_. ''p''", OF refl fit ev sample_fleet_def refl refl, of "''m''" 5]
  have "failed_calls (\<lambda>_. config_quota (sample_conf None ''p'')) ''m'' 5 sample_events = 1"
    by (simp add: failed_calls_def sample_events_def window_of_def sample_conf_def config_quota_def profile_quota_def)
  moreover have "window_budget (q_rps (config_quota (sample_conf policy ''p'')))
      (max (q_lease_ms (config_quota (sample_conf policy ''p''))) 1) = 3" for policy
    by (simp add: sample_conf_def config_quota_def profile_quota_def window_budget_def div_ceil_def wrap_u64_def)
  ultimately show ?thesis
    using fit ev bound sample_admissions(2)
    by (simp add: list_all_iff sample_conf_def)
qed

end
