(* ===== verification/MediaAsset.thy ===== *)
theory MediaAsset
  imports Prelude StorageErrors
begin

text \<open>
  The domain of the media service: the kinds of media with their upload policy, content-addressed
  storage keys, the error catalogue and the \<open>Asset\<close> aggregate with all its commands.  The last section
  shows the invariant of the aggregate.

  The newtypes over strings (\<open>MimeType\<close>, \<open>ContentHash\<close>, \<open>StorageKey\<close>, \<open>Blurhash\<close>) are the strings they
  wrap; the text an error prints for an id is the id itself.
\<close>

section \<open>Value objects\<close>

datatype media_kind = Avatar | PostImage | Video

definition path_segment :: "media_kind \<Rightarrow> string" where
  "path_segment k = (case k of Avatar \<Rightarrow> ''avatars'' | PostImage \<Rightarrow> ''post-images'' | Video \<Rightarrow> ''post-videos'')"

definition allowed_mime_types :: "media_kind \<Rightarrow> string list" where
  "allowed_mime_types k =
     (case k of Video \<Rightarrow> [''video/mp4'', ''video/quicktime'']
      | _ \<Rightarrow> [''image/jpeg'', ''image/png'', ''image/webp'', ''image/avif''])"

definition kind_max_bytes :: "media_kind \<Rightarrow> u64" where
  "kind_max_bytes k =
     (case k of Avatar \<Rightarrow> 10 * 1024 * 1024 | PostImage \<Rightarrow> 25 * 1024 * 1024 | Video \<Rightarrow> 200 * 1024 * 1024)"

datatype asset_state = Pending | Uploaded | Processing | Ready | Failed | Quarantined | Deleted

definition asset_state_as_str :: "asset_state \<Rightarrow> string" where
  "asset_state_as_str s =
     (case s of Pending \<Rightarrow> ''pending'' | Uploaded \<Rightarrow> ''uploaded'' | Processing \<Rightarrow> ''processing''
      | Ready \<Rightarrow> ''ready'' | Failed \<Rightarrow> ''failed'' | Quarantined \<Rightarrow> ''quarantined'' | Deleted \<Rightarrow> ''deleted'')"

text \<open>The documented forward path, which the aggregate is shown to follow.\<close>

definition asset_can_transition_to :: "asset_state \<Rightarrow> asset_state \<Rightarrow> bool" where
  "asset_can_transition_to a b \<longleftrightarrow>
     (a, b) \<in> {(Pending, Uploaded), (Uploaded, Processing), (Uploaded, Failed), (Processing, Ready), (Processing, Failed)}"

definition is_deliverable :: "asset_state \<Rightarrow> bool" where
  "is_deliverable s \<longleftrightarrow> s = Ready"

datatype rendition_kind = Original | Thumbnail | Small | Medium | Large | Manifest | Poster

definition rendition_slug :: "rendition_kind \<Rightarrow> string" where
  "rendition_slug r =
     (case r of Original \<Rightarrow> ''original'' | Thumbnail \<Rightarrow> ''thumbnail'' | Small \<Rightarrow> ''small'' | Medium \<Rightarrow> ''medium''
      | Large \<Rightarrow> ''large'' | Manifest \<Rightarrow> ''manifest'' | Poster \<Rightarrow> ''poster'')"

datatype media_error =
    MedStorage storage_error
  | MedCache redis_storage_error
  | MedValidation validation_error
  | InvalidMediaKind string
  | UnsupportedMimeType string
  | UploadSizeExceeded u64 u64
  | UploadTicketExpired
  | UploadNotFinalized
  | AssetNotFound uuid
  | InvalidStateTransition string string
  | MedConcurrentModification
  | AssetAlreadyExists uuid
  | TranscodeFailed string
  | UnsupportedCodec string
  | RenditionNotFound string
  | ProcessingFailed string
  | ObjectStoreUnavailable
  | ObjectStoreTimeout
  | PresignFailed string
  | ObjectNotFound string
  | DeliverySigningFailed string
  | CdnInvalidationFailed string
  | ManifestBuildFailed string
  | ContentTypeMismatch string string
  | CorruptMedia string
  | DimensionLimitExceeded
  | MalwareDetected
  | AssetQuarantinedError
  | ScreenUnavailable
  | LegalHoldActive
  | MedEventDecodeFailed string string
  | MedUnknownEventType string
  | UnmappedSource string
  | DomainViolation string string
  | MedInvalidIdentifier string
  | EventPublishFailed string
  | EventConsumeFailed string

definition single_quoted :: "string \<Rightarrow> string" where
  "single_quoted s = CHR 0x27 # s @ [CHR 0x27]"

record dimensions =
  dim_width :: u32
  dim_height :: u32

definition dimensions_new :: "u32 \<Rightarrow> u32 \<Rightarrow> media_error + dimensions" where
  "dimensions_new w h =
     (if w = 0 \<or> h = 0 then Inl (CorruptMedia ''image has a zero dimension'')
      else if (100000000 :: u64) < ucast w * ucast h then Inl DimensionLimitExceeded
      else Inr \<lparr>dim_width = w, dim_height = h\<rparr>)"

definition ascii_lower :: "char \<Rightarrow> char" where
  "ascii_lower c = (if 65 \<le> byte_val c \<and> byte_val c \<le> 90 then char_of (byte_val c + 32) else c)"

definition is_ascii_hexdigit :: "char \<Rightarrow> bool" where
  "is_ascii_hexdigit c \<longleftrightarrow>
     (48 \<le> byte_val c \<and> byte_val c \<le> 57) \<or> (65 \<le> byte_val c \<and> byte_val c \<le> 70) \<or> (97 \<le> byte_val c \<and> byte_val c \<le> 102)"

lemma is_ascii_hexdigit_code [code]:
  "is_ascii_hexdigit c \<longleftrightarrow> (let v = (of_char c :: int) in
     (48 \<le> v \<and> v \<le> 57) \<or> (65 \<le> v \<and> v \<le> 70) \<or> (97 \<le> v \<and> v \<le> 102))"
  unfolding is_ascii_hexdigit_def of_char_int Let_def by linarith

lemma ascii_lower_code [code]:
  "ascii_lower c = (let v = (of_char c :: int) in if 65 \<le> v \<and> v \<le> 90 then char_of (v + 32) else c)"
proof -
  have "char_of (int (byte_val c) + 32) = (char_of (byte_val c + 32) :: char)"
    using char_of_nat [of "byte_val c + 32"] by simp
  then show ?thesis unfolding ascii_lower_def of_char_int Let_def by simp
qed

definition content_hash_new :: "string \<Rightarrow> media_error + string" where
  "content_hash_new value =
     (let normalized = map ascii_lower (str_trim value)
      in if length normalized \<noteq> 64 \<or> \<not> list_all is_ascii_hexdigit normalized
         then Inl (DomainViolation ''content_hash'' ''expected a 64-character hex SHA-256 digest'')
         else Inr normalized)"

text \<open>\<open>splitn(2, '/')\<close>: a non-empty type, and a non-empty subtype without a further slash.\<close>

definition mime_type_new :: "string \<Rightarrow> media_error + string" where
  "mime_type_new value =
     (let normalized = map ascii_lower (str_trim value);
          t = takeWhile (\<lambda>c. c \<noteq> CHR ''/'') normalized;
          rest = dropWhile (\<lambda>c. c \<noteq> CHR ''/'') normalized
      in if rest \<noteq> [] \<and> t \<noteq> [] \<and> tl rest \<noteq> [] \<and> CHR ''/'' \<notin> set (tl rest)
         then Inr normalized else Inl (UnsupportedMimeType normalized))"

definition blurhash_new :: "string \<Rightarrow> media_error + string" where
  "blurhash_new value =
     (let trimmed = str_trim value
      in if trimmed = [] \<or> 128 < length trimmed
         then Inl (DomainViolation ''blurhash'' ''blurhash must be non-empty and reasonably short'')
         else Inr trimmed)"

definition staging_key :: "(uuid \<Rightarrow> string) \<Rightarrow> uuid \<Rightarrow> string" where
  "staging_key uuid_str i = ''uploads/'' @ uuid_str i"

definition rendition_key :: "media_kind \<Rightarrow> string \<Rightarrow> rendition_kind \<Rightarrow> string \<Rightarrow> string" where
  "rendition_key k hash r ext = path_segment k @ ''/'' @ hash @ ''/'' @ rendition_slug r @ ''.'' @ ext"

record upload_constraints =
  allowed_mimes :: "string list"
  max_bytes :: u64

definition constraints_for_kind :: "media_kind \<Rightarrow> upload_constraints" where
  "constraints_for_kind k = \<lparr>allowed_mimes = allowed_mime_types k, max_bytes = kind_max_bytes k\<rparr>"

definition constraints_validate :: "upload_constraints \<Rightarrow> string \<Rightarrow> u64 \<Rightarrow> media_error + unit" where
  "constraints_validate c mime size_bytes =
     (if \<not> list_ex (\<lambda>m. m = mime) (allowed_mimes c) then Inl (UnsupportedMimeType mime)
      else if max_bytes c < size_bytes then Inl (UploadSizeExceeded (max_bytes c) size_bytes)
      else Inr ())"

datatype media_event =
    AssetUploaded uuid uuid media_kind string u64 datetime
  | AssetVariantReady uuid uuid rendition_kind datetime
  | AssetReady uuid uuid datetime
  | AssetFailed uuid uuid string datetime
  | AssetQuarantined uuid uuid datetime
  | AssetRestored uuid uuid datetime
  | AssetDeleted uuid uuid datetime

section \<open>The aggregate\<close>

record rendition =
  rn_kind :: rendition_kind
  rn_mime :: string
  rn_key :: string
  rn_dimensions :: dimensions
  rn_byte_size :: u64

record asset =
  as_id :: uuid
  as_owner :: uuid
  as_kind :: media_kind
  as_state :: asset_state
  declared_mime :: string
  declared_size :: u64
  as_mime :: "string option"
  as_byte_size :: "u64 option"
  as_dimensions :: "dimensions option"
  as_content_hash :: "string option"
  as_blurhash :: "string option"
  renditions :: "rendition list"
  legal_hold :: bool
  prior_state :: "asset_state option"
  as_created_at :: datetime
  as_updated_at :: datetime
  as_pending :: "media_event list"

record reserve_params =
  rp_id :: uuid
  rp_owner :: uuid
  rp_kind :: media_kind
  rp_declared_mime :: string
  rp_declared_size :: u64

record finalize_params =
  fp_mime :: string
  fp_byte_size :: u64
  fp_dimensions :: dimensions
  fp_content_hash :: string

definition reserve :: "reserve_params \<Rightarrow> upload_constraints \<Rightarrow> datetime \<Rightarrow> media_error + asset" where
  "reserve p c now =
     bind_res (constraints_validate c (rp_declared_mime p) (rp_declared_size p)) (\<lambda>_.
     Inr \<lparr>as_id = rp_id p, as_owner = rp_owner p, as_kind = rp_kind p, as_state = Pending,
          declared_mime = rp_declared_mime p, declared_size = rp_declared_size p, as_mime = None,
          as_byte_size = None, as_dimensions = None, as_content_hash = None, as_blurhash = None,
          renditions = [], legal_hold = False, prior_state = None, as_created_at = now,
          as_updated_at = now, as_pending = []\<rparr>)"

definition find_rendition :: "rendition_kind \<Rightarrow> asset \<Rightarrow> rendition option" where
  "find_rendition k a = find (\<lambda>r. rn_kind r = k) (renditions a)"

definition ensure_state :: "asset_state \<Rightarrow> asset_state \<Rightarrow> asset \<Rightarrow> media_error + unit" where
  "ensure_state expected target a =
     guard_res (as_state a = expected)
       (InvalidStateTransition (asset_state_as_str (as_state a)) (asset_state_as_str target))"

definition transition :: "asset_state \<Rightarrow> datetime \<Rightarrow> asset \<Rightarrow> asset" where
  "transition s now a = a\<lparr>as_state := s, as_updated_at := now\<rparr>"

definition emit :: "media_event \<Rightarrow> asset \<Rightarrow> asset" where
  "emit e a = a\<lparr>as_pending := as_pending a @ [e]\<rparr>"

definition finalize :: "finalize_params \<Rightarrow> upload_constraints \<Rightarrow> datetime \<Rightarrow> asset \<Rightarrow> media_error + asset" where
  "finalize p c now a =
     bind_res (ensure_state Pending Uploaded a) (\<lambda>_.
     bind_res (constraints_validate c (fp_mime p) (fp_byte_size p)) (\<lambda>_.
     Inr (emit (AssetUploaded (as_id a) (as_owner a) (as_kind a) (fp_content_hash p) (fp_byte_size p) now)
       (transition Uploaded now
         (a\<lparr>as_mime := Some (fp_mime p), as_byte_size := Some (fp_byte_size p),
            as_dimensions := Some (fp_dimensions p), as_content_hash := Some (fp_content_hash p)\<rparr>)))))"

definition begin_processing :: "datetime \<Rightarrow> asset \<Rightarrow> media_error + asset" where
  "begin_processing now a =
     bind_res (ensure_state Uploaded Processing a) (\<lambda>_. Inr (transition Processing now a))"

definition set_blurhash :: "string \<Rightarrow> datetime \<Rightarrow> asset \<Rightarrow> media_error + asset" where
  "set_blurhash b now a =
     bind_res (guard_res (as_state a \<in> {Uploaded, Processing})
       (DomainViolation ''blurhash''
         (''cannot set a blurhash while '' @ single_quoted (asset_state_as_str (as_state a))))) (\<lambda>_.
     Inr (a\<lparr>as_blurhash := Some b, as_updated_at := now\<rparr>))"

definition attach_rendition :: "rendition \<Rightarrow> datetime \<Rightarrow> asset \<Rightarrow> media_error + asset" where
  "attach_rendition r now a =
     bind_res (guard_res (as_state a = Processing)
       (InvalidStateTransition (asset_state_as_str (as_state a)) ''attach_rendition(processing)'')) (\<lambda>_.
     bind_res (guard_res (find_rendition (rn_kind r) a = None)
       (DomainViolation ''rendition''
         (''a '' @ single_quoted (rendition_slug (rn_kind r)) @ '' rendition already exists''))) (\<lambda>_.
     Inr (emit (AssetVariantReady (as_id a) (as_owner a) (rn_kind r) now)
       (a\<lparr>renditions := renditions a @ [r], as_updated_at := now\<rparr>))))"

definition master_kind :: "media_kind \<Rightarrow> rendition_kind" where
  "master_kind k = (case k of Video \<Rightarrow> Manifest | _ \<Rightarrow> Original)"

definition mark_ready :: "datetime \<Rightarrow> asset \<Rightarrow> media_error + asset" where
  "mark_ready now a =
     bind_res (ensure_state Processing Ready a) (\<lambda>_.
     bind_res (guard_res (as_content_hash a \<noteq> None)
       (DomainViolation ''content_hash'' ''cannot mark ready without a finalized content hash'')) (\<lambda>_.
     bind_res (guard_res (find_rendition (master_kind (as_kind a)) a \<noteq> None)
       (DomainViolation ''renditions''
         (''cannot mark ready without the '' @ rendition_slug (master_kind (as_kind a)) @ '' rendition''))) (\<lambda>_.
     Inr (emit (AssetReady (as_id a) (as_owner a) now) (transition Ready now a)))))"

definition mark_failed :: "string \<Rightarrow> datetime \<Rightarrow> asset \<Rightarrow> media_error + asset" where
  "mark_failed reason now a =
     bind_res (guard_res (as_state a \<in> {Uploaded, Processing})
       (InvalidStateTransition (asset_state_as_str (as_state a)) (asset_state_as_str Failed))) (\<lambda>_.
     Inr (emit (AssetFailed (as_id a) (as_owner a) reason now) (transition Failed now a)))"

definition quarantine :: "datetime \<Rightarrow> asset \<Rightarrow> media_error + asset" where
  "quarantine now a =
     (case as_state a of
        Quarantined \<Rightarrow> Inr a
      | Deleted \<Rightarrow> Inl (InvalidStateTransition (asset_state_as_str (as_state a)) (asset_state_as_str Quarantined))
      | _ \<Rightarrow> Inr (emit (AssetQuarantined (as_id a) (as_owner a) now)
               (transition Quarantined now (a\<lparr>prior_state := Some (as_state a)\<rparr>))))"

definition restore :: "datetime \<Rightarrow> asset \<Rightarrow> media_error + asset" where
  "restore now a =
     bind_res (guard_res (as_state a = Quarantined)
       (InvalidStateTransition (asset_state_as_str (as_state a)) ''restore'')) (\<lambda>_.
     let target = (case prior_state a of Some s \<Rightarrow> s | None \<Rightarrow> Ready)
     in Inr (emit (AssetRestored (as_id a) (as_owner a) now) (transition target now (a\<lparr>prior_state := None\<rparr>))))"

definition place_legal_hold :: "datetime \<Rightarrow> asset \<Rightarrow> asset" where
  "place_legal_hold now a = a\<lparr>legal_hold := True, as_updated_at := now\<rparr>"

definition lift_legal_hold :: "datetime \<Rightarrow> asset \<Rightarrow> asset" where
  "lift_legal_hold now a = a\<lparr>legal_hold := False, as_updated_at := now\<rparr>"

definition delete_asset :: "datetime \<Rightarrow> asset \<Rightarrow> media_error + asset" where
  "delete_asset now a =
     (if legal_hold a then Inl LegalHoldActive
      else if as_state a = Deleted then Inr a
      else Inr (emit (AssetDeleted (as_id a) (as_owner a) now) (transition Deleted now a)))"

section \<open>The invariant of the aggregate\<close>

datatype asset_cmd =
    Finalize finalize_params datetime
  | BeginProcessing datetime
  | SetBlurhash string datetime
  | AttachRendition rendition datetime
  | MarkReady datetime
  | MarkFailed string datetime
  | Quarantine datetime
  | Restore datetime
  | PlaceLegalHold datetime
  | LiftLegalHold datetime
  | Delete datetime

text \<open>The constraints are those of the kind of the asset, as in the only caller of \<open>finalize\<close>.\<close>

primrec asset_exec :: "asset \<Rightarrow> asset_cmd \<Rightarrow> media_error + asset" where
  "asset_exec a (Finalize p now) = finalize p (constraints_for_kind (as_kind a)) now a"
| "asset_exec a (BeginProcessing now) = begin_processing now a"
| "asset_exec a (SetBlurhash b now) = set_blurhash b now a"
| "asset_exec a (AttachRendition r now) = attach_rendition r now a"
| "asset_exec a (MarkReady now) = mark_ready now a"
| "asset_exec a (MarkFailed reason now) = mark_failed reason now a"
| "asset_exec a (Quarantine now) = quarantine now a"
| "asset_exec a (Restore now) = restore now a"
| "asset_exec a (PlaceLegalHold now) = Inr (place_legal_hold now a)"
| "asset_exec a (LiftLegalHold now) = Inr (lift_legal_hold now a)"
| "asset_exec a (Delete now) = delete_asset now a"

text \<open>
  The place of an asset on the processing path: its state, or the state it was in when it was
  quarantined.  \<open>stage_edge\<close> is the documented forward path with deletion added.
\<close>

definition stage :: "asset \<Rightarrow> asset_state" where
  "stage a = (if as_state a = Quarantined then (case prior_state a of Some s \<Rightarrow> s | None \<Rightarrow> Ready) else as_state a)"

definition stage_edge :: "asset_state \<Rightarrow> asset_state \<Rightarrow> bool" where
  "stage_edge s t \<longleftrightarrow> asset_can_transition_to s t \<or> (s \<noteq> Deleted \<and> t = Deleted)"

text \<open>The facts a probe established, within the policy of the kind.\<close>

definition facts_ok :: "asset \<Rightarrow> bool" where
  "facts_ok a \<longleftrightarrow> as_content_hash a \<noteq> None \<and> as_dimensions a \<noteq> None \<and>
     (\<exists>m n. as_mime a = Some m \<and> m \<in> set (allowed_mime_types (as_kind a)) \<and>
            as_byte_size a = Some n \<and> n \<le> kind_max_bytes (as_kind a))"

definition stage_ok :: "asset_state \<Rightarrow> asset \<Rightarrow> bool" where
  "stage_ok s a \<longleftrightarrow>
     (case s of
        Pending \<Rightarrow> as_content_hash a = None \<and> renditions a = []
      | Uploaded \<Rightarrow> facts_ok a \<and> renditions a = []
      | Processing \<Rightarrow> facts_ok a
      | Ready \<Rightarrow> facts_ok a \<and> find_rendition (master_kind (as_kind a)) a \<noteq> None
      | Failed \<Rightarrow> facts_ok a
      | _ \<Rightarrow> True)"

definition asset_wf :: "asset \<Rightarrow> bool" where
  "asset_wf a \<longleftrightarrow>
     declared_mime a \<in> set (allowed_mime_types (as_kind a)) \<and> declared_size a \<le> kind_max_bytes (as_kind a) \<and>
     distinct (map rn_kind (renditions a)) \<and>
     (as_state a = Quarantined \<longrightarrow> prior_state a \<notin> {None, Some Quarantined, Some Deleted}) \<and>
     stage_ok (stage a) a"

lemma guard_bind: "bind_res (guard_res b e) f = Inr y \<longleftrightarrow> b \<and> f () = Inr y"
  by (cases b) simp_all

lemma constraints_validate_iff:
  "constraints_validate (constraints_for_kind k) m n = Inr u \<longleftrightarrow>
     m \<in> set (allowed_mime_types k) \<and> n \<le> kind_max_bytes k"
  by (auto simp: constraints_validate_def constraints_for_kind_def list_ex_iff not_less)

lemma find_rendition_none: "find_rendition k a = None \<longleftrightarrow> k \<notin> rn_kind ` set (renditions a)"
  by (auto simp: find_rendition_def find_None_iff)

text \<open>What the parts of the invariant do not depend on.\<close>

lemma facts_ok_sel [simp]:
  "facts_ok (a\<lparr>as_state := s\<rparr>) = facts_ok a" "facts_ok (a\<lparr>as_updated_at := t\<rparr>) = facts_ok a"
  "facts_ok (a\<lparr>as_pending := es\<rparr>) = facts_ok a" "facts_ok (a\<lparr>as_blurhash := h\<rparr>) = facts_ok a"
  "facts_ok (a\<lparr>prior_state := p\<rparr>) = facts_ok a" "facts_ok (a\<lparr>legal_hold := l\<rparr>) = facts_ok a"
  "facts_ok (a\<lparr>renditions := rs\<rparr>) = facts_ok a"
  by (simp_all add: facts_ok_def)

lemma find_rendition_sel [simp]:
  "find_rendition k (a\<lparr>as_state := s\<rparr>) = find_rendition k a" "find_rendition k (a\<lparr>as_updated_at := t\<rparr>) = find_rendition k a"
  "find_rendition k (a\<lparr>as_pending := es\<rparr>) = find_rendition k a" "find_rendition k (a\<lparr>as_blurhash := h\<rparr>) = find_rendition k a"
  "find_rendition k (a\<lparr>prior_state := p\<rparr>) = find_rendition k a" "find_rendition k (a\<lparr>legal_hold := l\<rparr>) = find_rendition k a"
  by (simp_all add: find_rendition_def)

lemma stage_ok_sel [simp]:
  "stage_ok q (a\<lparr>as_state := s\<rparr>) = stage_ok q a" "stage_ok q (a\<lparr>as_updated_at := t\<rparr>) = stage_ok q a"
  "stage_ok q (a\<lparr>as_pending := es\<rparr>) = stage_ok q a" "stage_ok q (a\<lparr>as_blurhash := h\<rparr>) = stage_ok q a"
  "stage_ok q (a\<lparr>prior_state := p\<rparr>) = stage_ok q a" "stage_ok q (a\<lparr>legal_hold := l\<rparr>) = stage_ok q a"
  by (cases q; simp add: stage_ok_def)+

lemma stage_sel [simp]:
  "stage (a\<lparr>as_updated_at := t\<rparr>) = stage a" "stage (a\<lparr>as_pending := es\<rparr>) = stage a"
  "stage (a\<lparr>as_blurhash := h\<rparr>) = stage a" "stage (a\<lparr>legal_hold := l\<rparr>) = stage a"
  "stage (a\<lparr>renditions := rs\<rparr>) = stage a" "stage (a\<lparr>as_mime := m\<rparr>) = stage a"
  "s \<noteq> Quarantined \<Longrightarrow> stage (a\<lparr>as_state := s\<rparr>) = s"
  by (simp_all add: stage_def)

lemma asset_wf_sel [simp]:
  "asset_wf (a\<lparr>as_updated_at := t\<rparr>) = asset_wf a" "asset_wf (a\<lparr>as_pending := es\<rparr>) = asset_wf a"
  "asset_wf (a\<lparr>as_blurhash := h\<rparr>) = asset_wf a" "asset_wf (a\<lparr>legal_hold := l\<rparr>) = asset_wf a"
  by (simp_all add: asset_wf_def)

lemma stage_live: "as_state a \<noteq> Quarantined \<Longrightarrow> stage a = as_state a"
  by (simp add: stage_def)

lemma reserve_wf:
  "reserve p (constraints_for_kind (rp_kind p)) now = Inr a \<Longrightarrow> asset_wf a \<and> stage a = Pending \<and> \<not> legal_hold a"
  by (auto simp: reserve_def bind_res_Inr_iff constraints_validate_iff asset_wf_def stage_def stage_ok_def)

lemma finalize_Inr_iff:
  "finalize p (constraints_for_kind (as_kind a)) now a = Inr b \<longleftrightarrow>
     as_state a = Pending \<and> fp_mime p \<in> set (allowed_mime_types (as_kind a)) \<and>
     fp_byte_size p \<le> kind_max_bytes (as_kind a) \<and>
     b = emit (AssetUploaded (as_id a) (as_owner a) (as_kind a) (fp_content_hash p) (fp_byte_size p) now)
       (transition Uploaded now
         (a\<lparr>as_mime := Some (fp_mime p), as_byte_size := Some (fp_byte_size p),
            as_dimensions := Some (fp_dimensions p), as_content_hash := Some (fp_content_hash p)\<rparr>))"
  using constraints_validate_iff [of "as_kind a" "fp_mime p" "fp_byte_size p"]
  by (cases "constraints_validate (constraints_for_kind (as_kind a)) (fp_mime p) (fp_byte_size p)")
     (auto simp: finalize_def ensure_state_def guard_bind)

lemma quarantine_Inr_iff:
  "quarantine now a = Inr b \<longleftrightarrow> as_state a = Quarantined \<and> b = a \<or>
     as_state a \<noteq> Quarantined \<and> as_state a \<noteq> Deleted \<and>
       b = emit (AssetQuarantined (as_id a) (as_owner a) now)
             (transition Quarantined now (a\<lparr>prior_state := Some (as_state a)\<rparr>))"
  by (auto simp: quarantine_def split: asset_state.splits)

lemma stage_ok_simps [simp]:
  "stage_ok Pending a \<longleftrightarrow> as_content_hash a = None \<and> renditions a = []"
  "stage_ok Uploaded a \<longleftrightarrow> facts_ok a \<and> renditions a = []"
  "stage_ok Processing a \<longleftrightarrow> facts_ok a"
  "stage_ok Ready a \<longleftrightarrow> facts_ok a \<and> find_rendition (master_kind (as_kind a)) a \<noteq> None"
  "stage_ok Failed a \<longleftrightarrow> facts_ok a" "stage_ok Quarantined a" "stage_ok Deleted a"
  by (simp_all add: stage_ok_def)

lemma emit_sel [simp]: "asset_wf (emit e a) = asset_wf a" "stage (emit e a) = stage a" "as_state (emit e a) = as_state a"
    "legal_hold (emit e a) = legal_hold a"
  by (simp_all add: emit_def)

lemma transition_wf:
  assumes "asset_wf a" "s \<noteq> Quarantined" "stage_ok s a"
  shows "asset_wf (transition s now a)" "stage (transition s now a) = s" "as_state (transition s now a) = s"
  using assms by (simp_all add: asset_wf_def transition_def)

lemma asset_wf_stage: "asset_wf a \<Longrightarrow> as_state a \<noteq> Quarantined \<Longrightarrow> stage_ok (as_state a) a"
  by (simp add: asset_wf_def stage_live)

lemma forward_step:
  assumes "asset_wf a" "asset_can_transition_to (as_state a) s" "stage_ok s a"
  shows "asset_wf (emit e (transition s now a)) \<and> stage_edge (stage a) (stage (emit e (transition s now a)))"
    and "asset_wf (transition s now a) \<and> stage_edge (stage a) (stage (transition s now a))"
proof -
  have "s \<noteq> Quarantined" "stage a = as_state a"
    using assms(2) stage_live by (auto simp: asset_can_transition_to_def)
  then show "asset_wf (emit e (transition s now a)) \<and> stage_edge (stage a) (stage (emit e (transition s now a)))"
    and "asset_wf (transition s now a) \<and> stage_edge (stage a) (stage (transition s now a))"
    using transition_wf [OF assms(1) _ assms(3)] assms(2) by (simp_all add: stage_edge_def)
qed

lemma finalize_step:
  assumes "asset_wf a" "finalize p (constraints_for_kind (as_kind a)) now a = Inr b"
  shows "asset_wf b \<and> stage_edge (stage a) (stage b)"
proof -
  let ?a = "a\<lparr>as_mime := Some (fp_mime p), as_byte_size := Some (fp_byte_size p),
            as_dimensions := Some (fp_dimensions p), as_content_hash := Some (fp_content_hash p)\<rparr>"
  have st: "as_state a = Pending" and b: "b = emit (AssetUploaded (as_id a) (as_owner a) (as_kind a) (fp_content_hash p)
      (fp_byte_size p) now) (transition Uploaded now ?a)"
    and ok: "fp_mime p \<in> set (allowed_mime_types (as_kind a))" "fp_byte_size p \<le> kind_max_bytes (as_kind a)"
    using assms(2) by (simp_all add: finalize_Inr_iff)
  have "stage_ok Uploaded ?a" using asset_wf_stage [OF assms(1)] st ok by (simp add: facts_ok_def)
  then have "asset_wf (transition Uploaded now ?a)" "stage (transition Uploaded now ?a) = Uploaded"
    using assms(1) by (simp_all add: asset_wf_def transition_def)
  then show ?thesis using st by (simp add: b stage_live stage_edge_def asset_can_transition_to_def)
qed

lemma begin_processing_step:
  assumes "asset_wf a" "begin_processing now a = Inr b"
  shows "asset_wf b \<and> stage_edge (stage a) (stage b)"
  using assms forward_step(2) [OF assms(1), of Processing now] asset_wf_stage [OF assms(1)]
  by (simp add: begin_processing_def ensure_state_def guard_bind asset_can_transition_to_def)

lemma mark_ready_step:
  assumes "asset_wf a" "mark_ready now a = Inr b"
  shows "asset_wf b \<and> stage_edge (stage a) (stage b)"
  using assms forward_step(1) [OF assms(1), of Ready _ now] asset_wf_stage [OF assms(1)]
  by (auto simp: mark_ready_def ensure_state_def guard_bind asset_can_transition_to_def)

lemma mark_failed_step:
  assumes "asset_wf a" "mark_failed reason now a = Inr b"
  shows "asset_wf b \<and> stage_edge (stage a) (stage b)"
  using assms forward_step(1) [OF assms(1), of Failed _ now] asset_wf_stage [OF assms(1)]
  by (auto simp: mark_failed_def guard_bind asset_can_transition_to_def)

lemma set_blurhash_step:
  "asset_wf a \<Longrightarrow> set_blurhash h now a = Inr b \<Longrightarrow> asset_wf b \<and> stage b = stage a"
  by (auto simp: set_blurhash_def guard_bind)

lemma attach_rendition_step:
  assumes "asset_wf a" "attach_rendition r now a = Inr b"
  shows "asset_wf b \<and> stage b = stage a"
proof -
  have st: "as_state a = Processing" and new: "rn_kind r \<notin> rn_kind ` set (renditions a)"
    and b: "b = emit (AssetVariantReady (as_id a) (as_owner a) (rn_kind r) now)
        (a\<lparr>renditions := renditions a @ [r], as_updated_at := now\<rparr>)"
    using assms(2) by (auto simp: attach_rendition_def guard_bind find_rendition_none)
  have "asset_wf (a\<lparr>renditions := renditions a @ [r]\<rparr>)"
    using assms(1) st new by (simp add: asset_wf_def stage_live)
  then show ?thesis by (simp add: b)
qed

lemma quarantine_step:
  assumes "asset_wf a" "quarantine now a = Inr b"
  shows "asset_wf b \<and> stage b = stage a \<and> as_state b = Quarantined"
  using assms by (auto simp: quarantine_Inr_iff emit_def transition_def asset_wf_def stage_def)

lemma restore_step:
  assumes "asset_wf a" "restore now a = Inr b"
  shows "asset_wf b \<and> stage b = stage a \<and> as_state b = stage a"
proof -
  obtain s where s: "as_state a = Quarantined" "prior_state a = Some s" "s \<noteq> Quarantined" "stage_ok s a"
    using assms by (auto simp: restore_def guard_bind asset_wf_def stage_def split: option.splits)
  then show ?thesis using assms
    by (simp add: restore_def transition_def emit_def asset_wf_def stage_def)
      (auto simp: asset_wf_def stage_def)
qed

lemma delete_step:
  assumes "asset_wf a" "delete_asset now a = Inr b"
  shows "asset_wf b \<and> (b = a \<or> stage_edge (stage a) (stage b)) \<and> as_state b = Deleted"
proof (cases "as_state a = Deleted")
  case False
  then have "stage a \<noteq> Deleted" using assms(1) by (auto simp: stage_def asset_wf_def split: option.splits)
  then show ?thesis
    using assms False transition_wf [OF assms(1), of Deleted now]
    by (auto simp: delete_asset_def stage_edge_def split: if_splits)
qed (use assms in \<open>simp add: delete_asset_def split: if_splits\<close>)

lemmas asset_steps = finalize_step begin_processing_step mark_ready_step mark_failed_step set_blurhash_step
  attach_rendition_step quarantine_step restore_step delete_step

lemma asset_exec_step:
  assumes "asset_wf a" "asset_exec a c = Inr b"
  shows "asset_wf b \<and> (stage b = stage a \<or> stage_edge (stage a) (stage b))"
  using assms(2)
  by (cases c) (auto dest: asset_steps [OF assms(1)] simp: place_legal_hold_def lift_legal_hold_def assms(1))

interpretation media: lifecycle asset_exec asset_wf stage stage_edge
  by unfold_locales (use asset_exec_step in blast)+

text \<open>A hold is lifted only by \<open>lift_legal_hold\<close>, and keeps the asset from being deleted.\<close>

lemma asset_exec_hold:
  assumes "asset_exec a c = Inr b" "\<forall>t. c \<noteq> LiftLegalHold t" "legal_hold a"
  shows "legal_hold b"
  using assms
  by (cases c) (auto simp: finalize_Inr_iff begin_processing_def ensure_state_def guard_bind set_blurhash_def
      attach_rendition_def mark_ready_def mark_failed_def quarantine_Inr_iff restore_def Let_def place_legal_hold_def
      delete_asset_def transition_def)

lemma asset_exec_live:
  assumes "asset_exec a c = Inr b" "legal_hold a" "as_state a \<noteq> Deleted" "asset_wf a"
  shows "as_state b \<noteq> Deleted"
proof (cases c)
  case (Restore now)
  then show ?thesis using restore_step [OF assms(4), of now b] assms
    by (auto simp: restore_def guard_bind asset_wf_def stage_def split: option.splits)
qed (use assms in \<open>auto simp: finalize_Inr_iff begin_processing_def ensure_state_def guard_bind set_blurhash_def
      attach_rendition_def mark_ready_def mark_failed_def quarantine_Inr_iff place_legal_hold_def lift_legal_hold_def
      delete_asset_def transition_def\<close>)

lemma hold_run:
  assumes "\<forall>t. LiftLegalHold t \<notin> set cs" "legal_hold a" "as_state a \<noteq> Deleted" "asset_wf a"
  shows "legal_hold (run_cmds asset_exec a cs) \<and> as_state (run_cmds asset_exec a cs) \<noteq> Deleted"
  using assms
proof (induction cs arbitrary: a)
  case (Cons c cs)
  show ?case
  proof (cases "asset_exec a c")
    case (Inr b)
    have "legal_hold b \<and> as_state b \<noteq> Deleted" using Cons.prems using asset_exec_hold [OF Inr] asset_exec_live [OF Inr] by auto
    moreover have "asset_wf b" using asset_exec_step [OF _ Inr] Cons.prems by simp
    ultimately show ?thesis using Cons Inr by simp
  qed (use Cons in simp)
qed simp

lemma deleted_run:
  assumes wf: "asset_wf a" and "as_state a = Deleted"
  shows "as_state (run_cmds asset_exec a ds) = Deleted"
proof -
  have "stage a = Deleted" using assms(2) by (simp add: stage_live)
  then have "stage (run_cmds asset_exec a ds) = Deleted"
    using media.run_stuck [OF wf] by (simp add: stage_edge_def asset_can_transition_to_def)
  then show ?thesis using media.run_inv [OF wf, of ds] by (auto simp: stage_def asset_wf_def split: if_splits option.splits)
qed

text \<open>
  The life cycle as a table: the states in which a command can be accepted, and the state it leads to.
  A restore leads to the stage of the asset.
\<close>

primrec asset_accepted_in :: "asset_cmd \<Rightarrow> asset_state set" where
  "asset_accepted_in (Finalize p now) = {Pending}"
| "asset_accepted_in (BeginProcessing now) = {Uploaded}"
| "asset_accepted_in (SetBlurhash b now) = {Uploaded, Processing}"
| "asset_accepted_in (AttachRendition r now) = {Processing}"
| "asset_accepted_in (MarkReady now) = {Processing}"
| "asset_accepted_in (MarkFailed reason now) = {Uploaded, Processing}"
| "asset_accepted_in (Quarantine now) = {Pending, Uploaded, Processing, Ready, Failed, Quarantined}"
| "asset_accepted_in (Restore now) = {Quarantined}"
| "asset_accepted_in (PlaceLegalHold now) = UNIV"
| "asset_accepted_in (LiftLegalHold now) = UNIV"
| "asset_accepted_in (Delete now) = UNIV"

definition asset_leads_to :: "asset_cmd \<Rightarrow> asset \<Rightarrow> asset_state" where
  "asset_leads_to c a = (case c of
     Finalize _ _ \<Rightarrow> Uploaded | BeginProcessing _ \<Rightarrow> Processing | MarkReady _ \<Rightarrow> Ready
   | MarkFailed _ _ \<Rightarrow> Failed | Quarantine _ \<Rightarrow> Quarantined | Restore _ \<Rightarrow> stage a
   | Delete _ \<Rightarrow> Deleted | _ \<Rightarrow> as_state a)"

lemma asset_exec_table:
  assumes "asset_wf a" "asset_exec a c = Inr b"
  shows "as_state a \<in> asset_accepted_in c \<and> as_state b = asset_leads_to c a"
proof (cases c)
  case (Restore now)
  then show ?thesis using assms restore_step [OF assms(1), of now b]
    by (simp add: asset_leads_to_def restore_def guard_bind)
next
  case (Quarantine now)
  then show ?thesis using assms quarantine_step [OF assms(1), of now b]
    by (cases "as_state a") (auto simp: asset_leads_to_def quarantine_Inr_iff)
next
  case (Delete now)
  then show ?thesis using assms delete_step [OF assms(1), of now b] by (simp add: asset_leads_to_def)
qed (use assms in \<open>auto simp: asset_leads_to_def finalize_Inr_iff begin_processing_def ensure_state_def guard_bind
      set_blurhash_def attach_rendition_def mark_ready_def mark_failed_def place_legal_hold_def
      lift_legal_hold_def transition_def emit_def\<close>)

lemma mark_ready_accepted:
  assumes "asset_wf a"
  shows "(\<exists>b. mark_ready now a = Inr b) \<longleftrightarrow>
    as_state a = Processing \<and> find_rendition (master_kind (as_kind a)) a \<noteq> None"
  using asset_wf_stage [OF assms] by (auto simp: mark_ready_def ensure_state_def guard_bind facts_ok_def)

lemma quarantine_round_trip:
  assumes "asset_wf a" "as_state a \<notin> {Quarantined, Deleted}" "\<forall>t. Restore t \<notin> set es \<and> Delete t \<notin> set es"
  shows "as_state (run_cmds asset_exec a (Quarantine t # es)) = Quarantined \<and>
    as_state (run_cmds asset_exec a (Quarantine t # es @ [Restore t'])) = as_state a"
proof -
  have held: "asset_wf (run_cmds asset_exec b es) \<and> as_state (run_cmds asset_exec b es) = Quarantined
      \<and> stage (run_cmds asset_exec b es) = stage b"
    if "asset_wf b" "as_state b = Quarantined" for b
    using that assms(3)
  proof (induction es arbitrary: b)
    case (Cons c es)
    show ?case
    proof (cases "asset_exec b c")
      case (Inr b')
      have "as_state b' = Quarantined \<and> stage b' = stage b"
        using asset_exec_table [OF Cons.prems(1) Inr] Cons.prems Inr
        by (cases c) (auto simp: asset_leads_to_def quarantine_Inr_iff place_legal_hold_def lift_legal_hold_def)
      then show ?thesis using Cons Inr asset_exec_step [OF Cons.prems(1) Inr] by simp
    qed (use Cons in simp)
  qed simp
  obtain b where b: "quarantine t a = Inr b" using assms(2) by (auto simp: quarantine_Inr_iff)
  note q = quarantine_step [OF assms(1) b]
  note h = held [of b]
  obtain r where r: "restore t' (run_cmds asset_exec b es) = Inr r"
    using h q by (auto simp: restore_def guard_bind)
  have "as_state r = stage a" using restore_step [OF _ r] h q by simp
  then show ?thesis using assms(2) h q r b by (simp add: run_cmds_append stage_live)
qed

section \<open>Property\<close>

text \<open>
  C40. The life of an asset, command by command, whatever commands have been sent to it since it was
  reserved.  A command is accepted only in the states its row of the table \<open>asset_accepted_in\<close> gives and
  leads to exactly the state \<open>asset_leads_to\<close> gives: processing starts only from an upload, and a
  failed, ready or quarantined asset is not processed again.  It is marked ready exactly when it is being
  processed and has its master rendition.  A quarantine, whatever follows it short of a restore or a
  deletion, keeps the asset quarantined, and the restore brings back the state it had.  A deliverable
  asset has a content hash, verified dimensions, an allowed type and an allowed size, its master
  rendition, and no rendition twice.  A deleted asset stays deleted, and while a legal hold is not lifted
  a live asset is not deleted.
\<close>

theorem asset_lifecycle:
  assumes "reserve p (constraints_for_kind (rp_kind p)) now = Inr a0" and "a = run_cmds asset_exec a0 cs"
  shows "(\<forall>c b. asset_exec a c = Inr b \<longrightarrow>
       as_state a \<in> asset_accepted_in c \<and> as_state b = asset_leads_to c a) \<and>
    ((\<exists>b. asset_exec a (MarkReady t) = Inr b) \<longleftrightarrow>
       as_state a = Processing \<and> find_rendition (master_kind (as_kind a)) a \<noteq> None) \<and>
    (as_state a \<notin> {Quarantined, Deleted} \<and> (\<forall>t. Restore t \<notin> set es \<and> Delete t \<notin> set es) \<longrightarrow>
       as_state (run_cmds asset_exec a (Quarantine t # es)) = Quarantined \<and>
       as_state (run_cmds asset_exec a (Quarantine t # es @ [Restore t'])) = as_state a) \<and>
    distinct (map rn_kind (renditions a)) \<and>
    (is_deliverable (as_state a) \<longrightarrow> facts_ok a \<and> find_rendition (master_kind (as_kind a)) a \<noteq> None) \<and>
    (as_state a = Deleted \<longrightarrow> as_state (run_cmds asset_exec a ds) = Deleted) \<and>
    (legal_hold a \<and> as_state a \<noteq> Deleted \<and> (\<forall>t. LiftLegalHold t \<notin> set ds) \<longrightarrow>
       legal_hold (run_cmds asset_exec a ds) \<and> as_state (run_cmds asset_exec a ds) \<noteq> Deleted)"
proof (intro conjI impI allI)
  have wf: "asset_wf a" unfolding assms(2) using media.run_inv reserve_wf [OF assms(1)] by blast
  show "as_state a \<in> asset_accepted_in c" "as_state b = asset_leads_to c a" if "asset_exec a c = Inr b" for c b
    using asset_exec_table [OF wf that] by simp_all
  show "(\<exists>b. asset_exec a (MarkReady t) = Inr b) \<longleftrightarrow>
       as_state a = Processing \<and> find_rendition (master_kind (as_kind a)) a \<noteq> None"
    using mark_ready_accepted [OF wf] by simp
  show "as_state (run_cmds asset_exec a (Quarantine t # es)) = Quarantined"
    "as_state (run_cmds asset_exec a (Quarantine t # es @ [Restore t'])) = as_state a"
    if "as_state a \<notin> {Quarantined, Deleted} \<and> (\<forall>t. Restore t \<notin> set es \<and> Delete t \<notin> set es)"
    using quarantine_round_trip [OF wf] that by blast+
  show "distinct (map rn_kind (renditions a))" using wf by (simp add: asset_wf_def)
  show "facts_ok a" "find_rendition (master_kind (as_kind a)) a \<noteq> None" if "is_deliverable (as_state a)"
    using asset_wf_stage [OF wf] that by (simp_all add: is_deliverable_def)
  show "as_state (run_cmds asset_exec a ds) = Deleted" if "as_state a = Deleted"
    using that by (rule deleted_run [OF wf])
  show "legal_hold (run_cmds asset_exec a ds)" "as_state (run_cmds asset_exec a ds) \<noteq> Deleted"
    if "legal_hold a \<and> as_state a \<noteq> Deleted \<and> (\<forall>t. LiftLegalHold t \<notin> set ds)"
    using hold_run [of ds a] that wf by simp_all
qed

definition sample_hash :: string where
  "sample_hash = replicate 64 (CHR ''a'')"

definition sample_rendition :: "rendition_kind \<Rightarrow> rendition" where
  "sample_rendition k = \<lparr>rn_kind = k, rn_mime = ''image/jpeg'', rn_key = rendition_key Avatar sample_hash k ''jpg'',
     rn_dimensions = \<lparr>dim_width = 8, dim_height = 8\<rparr>, rn_byte_size = 5\<rparr>"

definition sample_reserve :: reserve_params where
  "sample_reserve = \<lparr>rp_id = 1, rp_owner = 2, rp_kind = Avatar, rp_declared_mime = ''image/png'', rp_declared_size = 9\<rparr>"

definition sample_asset :: asset where
  "sample_asset = \<lparr>as_id = 1, as_owner = 2, as_kind = Avatar, as_state = Pending, declared_mime = ''image/png'',
     declared_size = 9, as_mime = None, as_byte_size = None, as_dimensions = None, as_content_hash = None,
     as_blurhash = None, renditions = [], legal_hold = False, prior_state = None, as_created_at = 0,
     as_updated_at = 0, as_pending = []\<rparr>"

definition sample_life :: "asset_cmd list" where
  "sample_life =
     [Finalize \<lparr>fp_mime = ''image/png'', fp_byte_size = 9, fp_dimensions = \<lparr>dim_width = 8, dim_height = 8\<rparr>,
        fp_content_hash = sample_hash\<rparr> 1,
      BeginProcessing 2, AttachRendition (sample_rendition Original) 2, MarkReady 2, Quarantine 3, MarkReady 4,
      PlaceLegalHold 5, Restore 6]"

theorem asset_lifecycle_witness:
  "reserve sample_reserve (constraints_for_kind Avatar) 0 = Inr sample_asset \<and>
   as_state (run_cmds asset_exec sample_asset sample_life) = Ready \<and>
   facts_ok (run_cmds asset_exec sample_asset sample_life) \<and>
   as_state (run_cmds asset_exec (run_cmds asset_exec sample_asset sample_life)
     [Quarantine 8, BeginProcessing 9, Restore 10]) = Ready \<and>
   as_state (run_cmds asset_exec (run_cmds asset_exec sample_asset sample_life) [Delete 7]) \<noteq> Deleted"
proof -
  have r: "reserve sample_reserve (constraints_for_kind (rp_kind sample_reserve)) 0 = Inr sample_asset"
    by code_simp
  have "is_deliverable (as_state (run_cmds asset_exec sample_asset sample_life)) \<and>
      legal_hold (run_cmds asset_exec sample_asset sample_life)"
    by code_simp
  then show ?thesis
    using r asset_lifecycle [OF r refl, of sample_life 8 "[BeginProcessing 9]" 10 "[Delete 7]"]
    by (simp add: is_deliverable_def sample_reserve_def)
qed

end
