(* ===== verification/MediaService.thy ===== *)
theory MediaService
  imports MediaAsset
begin

text \<open>
  The media service above its domain: the asset table, the object store, the delivery cache and the
  published events as one state, the adapters that read and write them, and the handlers of both
  planes: upload ticket, commit, image and video processing, moderation, deletion and delivery.

  The environment holds what the service calls: SHA-256, the image codecs, the malware scanner, the
  probe and the transcoder of videos (ffmpeg), the Screen call of the moderation service (no reply
  stands for a failed call and for the elapsed timeout), URL signing, and the faults of the object
  store, the cache and the publisher.
\<close>

section \<open>Environment and state\<close>

record media_policy =
  upload_ticket_ttl :: int
  signed_url_ttl :: int
  dedup_enabled :: bool

record screen_reply =
  sr_verdict :: int
  sr_matched_categories :: "int list"
  sr_match_reference :: string

datatype object_call = GetBytes | PutBytes | DeleteObject | ObjectSize

type_synonym object_store = "string \<Rightarrow> bytes option"

record 'i media_env =
  me_policy :: media_policy
  me_uuid_str :: "uuid \<Rightarrow> string"
  me_sha256_hex :: "bytes \<Rightarrow> string"
  me_guess_format :: "bytes \<Rightarrow> string + string"
  me_decode :: "bytes \<Rightarrow> string + 'i"
  me_width :: "'i \<Rightarrow> u32"
  me_height :: "'i \<Rightarrow> u32"
  me_resize :: "u32 \<Rightarrow> 'i \<Rightarrow> 'i"
  me_jpeg :: "'i \<Rightarrow> string + bytes"
  me_blur :: "'i \<Rightarrow> string + string"
  me_video_probe :: "object_store \<Rightarrow> string \<Rightarrow> string \<Rightarrow> media_error + finalize_params"
  me_transcode :: "object_store \<Rightarrow> string \<Rightarrow> string \<Rightarrow> (media_error + rendition list \<times> string) \<times> object_store"
  me_infected :: "object_store \<Rightarrow> string \<Rightarrow> media_error + bool"
  me_screen :: "uuid \<Rightarrow> uuid \<Rightarrow> string \<Rightarrow> screen_reply option"
  me_cdn_base :: string
  me_presign :: "string \<Rightarrow> int \<Rightarrow> string"
  me_object_fault :: "object_call \<Rightarrow> string \<Rightarrow> media_error option"
  me_cache_fault :: "media_error option"
  me_publish_fault :: "media_event \<Rightarrow> media_error option"

text \<open>
  A row is the stored document, in which the pending events are skipped.  The projected columns are
  functions of the document.  A cached asset has the instant at which Redis drops it.
\<close>

record media_state =
  assets :: "asset list"
  objects :: object_store
  delivery_cache :: "uuid \<Rightarrow> (asset \<times> datetime) option"
  published :: "media_event list"

type_synonym 'a media_step = "media_state \<Rightarrow> (media_error + 'a) \<times> media_state"

section \<open>Adapters\<close>

definition stored :: "asset \<Rightarrow> asset" where
  "stored a = a\<lparr>as_pending := []\<rparr>"

primrec upsert_asset :: "asset \<Rightarrow> asset list \<Rightarrow> asset list" where
  "upsert_asset a [] = [stored a]"
| "upsert_asset a (b # bs) = (if as_id b = as_id a then stored a # bs else b # upsert_asset a bs)"

definition asset_save :: "asset \<Rightarrow> media_state \<Rightarrow> media_state" where
  "asset_save a s = s\<lparr>assets := upsert_asset a (assets s)\<rparr>"

definition asset_find :: "media_state \<Rightarrow> uuid \<Rightarrow> asset option" where
  "asset_find s i = find (\<lambda>a. as_id a = i) (assets s)"

definition find_ready_by_content_hash :: "media_state \<Rightarrow> string \<Rightarrow> asset option" where
  "find_ready_by_content_hash s h =
     find (\<lambda>a. as_content_hash a = Some h \<and> asset_state_as_str (as_state a) = ''ready'') (assets s)"

definition fail_with :: "media_error option \<Rightarrow> unit media_step" where
  "fail_with f = st_lift (case f of None \<Rightarrow> Inr () | Some e \<Rightarrow> Inl e)"

definition get_bytes :: "'i media_env \<Rightarrow> string \<Rightarrow> bytes media_step" where
  "get_bytes env k =
     st_bind (fail_with (me_object_fault env GetBytes k)) (\<lambda>_.
     st_bind (st_read (\<lambda>s. objects s k)) (\<lambda>found. st_lift (ok_or (ObjectNotFound k) found)))"

definition put_bytes :: "'i media_env \<Rightarrow> string \<Rightarrow> bytes \<Rightarrow> unit media_step" where
  "put_bytes env k b =
     st_bind (fail_with (me_object_fault env PutBytes k)) (\<lambda>_.
     st_modify (\<lambda>s. s\<lparr>objects := (objects s)(k \<mapsto> b)\<rparr>))"

definition delete_object :: "'i media_env \<Rightarrow> string \<Rightarrow> unit media_step" where
  "delete_object env k =
     st_bind (fail_with (me_object_fault env DeleteObject k)) (\<lambda>_.
     st_modify (\<lambda>s. s\<lparr>objects := (objects s)(k := None)\<rparr>))"

definition object_head :: "'i media_env \<Rightarrow> string \<Rightarrow> nat option media_step" where
  "object_head env k =
     st_bind (fail_with (me_object_fault env ObjectSize k)) (\<lambda>_.
     st_read (\<lambda>s. map_option length (objects s k)))"

definition cache_ttl :: int where "cache_ttl = 3600 * nanos_per_sec"

definition cache_get :: "'i media_env \<Rightarrow> datetime \<Rightarrow> uuid \<Rightarrow> asset option media_step" where
  "cache_get env now i =
     st_bind (fail_with (me_cache_fault env)) (\<lambda>_.
     st_read (\<lambda>s. case delivery_cache s i of
                    Some (a, expires) \<Rightarrow> if now < expires then Some a else None | None \<Rightarrow> None))"

definition cache_put :: "'i media_env \<Rightarrow> datetime \<Rightarrow> asset \<Rightarrow> unit media_step" where
  "cache_put env now a =
     st_bind (fail_with (me_cache_fault env)) (\<lambda>_.
     st_modify (\<lambda>s. s\<lparr>delivery_cache := (delivery_cache s)(as_id a \<mapsto> (stored a, now + cache_ttl))\<rparr>))"

definition cache_invalidate :: "'i media_env \<Rightarrow> uuid \<Rightarrow> unit media_step" where
  "cache_invalidate env i =
     st_bind (fail_with (me_cache_fault env)) (\<lambda>_.
     st_modify (\<lambda>s. s\<lparr>delivery_cache := (delivery_cache s)(i := None)\<rparr>))"

definition publish_event :: "'i media_env \<Rightarrow> media_event \<Rightarrow> unit media_step" where
  "publish_event env e =
     st_bind (fail_with (me_publish_fault env e)) (\<lambda>_. st_modify (\<lambda>s. s\<lparr>published := published s @ [e]\<rparr>))"

text \<open>\<open>let _ = ...\<close>: the answer is dropped, what was written stays.\<close>

definition st_ignore :: "('s \<Rightarrow> ('e + 'a) \<times> 's) \<Rightarrow> 's \<Rightarrow> ('e + unit) \<times> 's" where
  "st_ignore m s = (Inr (), snd (m s))"

definition persist_and_publish :: "'i media_env \<Rightarrow> asset \<Rightarrow> unit media_step" where
  "persist_and_publish env a =
     st_bind (st_modify (asset_save a)) (\<lambda>_. st_each (publish_event env) (as_pending a))"

definition starts_with :: "string \<Rightarrow> string \<Rightarrow> bool" where
  "starts_with p s \<longleftrightarrow> take (length p) s = p"

definition image_probe :: "'i media_env \<Rightarrow> string \<Rightarrow> string \<Rightarrow> finalize_params media_step" where
  "image_probe env key declared =
     st_bind (get_bytes env key) (\<lambda>b.
     st_bind (st_lift (content_hash_new (me_sha256_hex env b))) (\<lambda>hash.
     st_bind (st_lift (case me_guess_format env b of
         Inl e \<Rightarrow> Inl (CorruptMedia (''unrecognized media format: '' @ e)) | Inr m \<Rightarrow> mime_type_new m)) (\<lambda>mime.
     st_bind (st_lift (guard_res (starts_with ''image/'' mime) (ContentTypeMismatch declared mime))) (\<lambda>_.
     st_bind (st_lift (case me_decode env b of
         Inl e \<Rightarrow> Inl (CorruptMedia (''decode failed: '' @ e))
       | Inr img \<Rightarrow> dimensions_new (me_width env img) (me_height env img))) (\<lambda>dims.
     st_lift (Inr \<lparr>fp_mime = mime, fp_byte_size = of_nat (length b), fp_dimensions = dims,
                   fp_content_hash = hash\<rparr>))))))"

definition media_probe :: "'i media_env \<Rightarrow> string \<Rightarrow> string \<Rightarrow> finalize_params media_step" where
  "media_probe env key declared =
     (if starts_with ''video/'' declared
      then st_bind (st_read (\<lambda>s. me_video_probe env (objects s) key declared)) st_lift
      else image_probe env key declared)"

definition ladder :: "(rendition_kind \<times> u32) list" where
  "ladder = [(Thumbnail, 320), (Small, 640), (Medium, 1280), (Large, 1920)]"

definition encode_put :: "'i media_env \<Rightarrow> 'i \<Rightarrow> media_kind \<Rightarrow> string \<Rightarrow> rendition_kind \<Rightarrow> rendition media_step" where
  "encode_put env img kind hash rk =
     st_bind (st_lift (case me_jpeg env img of
         Inl e \<Rightarrow> Inl (ProcessingFailed (''jpeg encode failed: '' @ e)) | Inr b \<Rightarrow> Inr b)) (\<lambda>buf.
     let key = rendition_key kind hash rk ''jpg'' in
     st_bind (put_bytes env key buf) (\<lambda>_.
     st_bind (st_lift (mime_type_new ''image/jpeg'')) (\<lambda>mime.
     st_bind (st_lift (dimensions_new (me_width env img) (me_height env img))) (\<lambda>dims.
     st_lift (Inr \<lparr>rn_kind = rk, rn_mime = mime, rn_key = key, rn_dimensions = dims,
                   rn_byte_size = of_nat (length buf)\<rparr>)))))"

primrec encode_ladder ::
  "'i media_env \<Rightarrow> 'i \<Rightarrow> media_kind \<Rightarrow> string \<Rightarrow> (rendition_kind \<times> u32) list \<Rightarrow> rendition list \<Rightarrow> rendition list media_step" where
  "encode_ladder env img kind hash [] acc = st_lift (Inr acc)"
| "encode_ladder env img kind hash (x # xs) acc =
     (if fst x = Thumbnail \<or> snd x < max (me_width env img) (me_height env img)
      then st_bind (encode_put env (me_resize env (snd x) img) kind hash (fst x)) (\<lambda>r.
             encode_ladder env img kind hash xs (acc @ [r]))
      else encode_ladder env img kind hash xs acc)"

definition derive_renditions ::
  "'i media_env \<Rightarrow> string \<Rightarrow> media_kind \<Rightarrow> string \<Rightarrow> (rendition list \<times> string) media_step" where
  "derive_renditions env source kind hash =
     st_bind (get_bytes env source) (\<lambda>b.
     st_bind (st_lift (case me_decode env b of
         Inl e \<Rightarrow> Inl (CorruptMedia (''decode failed: '' @ e)) | Inr img \<Rightarrow> Inr img)) (\<lambda>img.
     st_bind (encode_put env img kind hash Original) (\<lambda>master.
     st_bind (encode_ladder env img kind hash ladder [master]) (\<lambda>rs.
     st_bind (st_lift (case me_blur env img of
         Inl e \<Rightarrow> Inl (ProcessingFailed (''blurhash: '' @ e)) | Inr x \<Rightarrow> blurhash_new x)) (\<lambda>blur.
     st_lift (Inr (rs, blur)))))))"

record screen_decision =
  sd_blocked :: bool
  sd_csam :: bool
  sd_reference :: "string option"

text \<open>Block is 2 and Review 3; an unknown number reads as Unspecified.  Csam is category 5.\<close>

definition grpc_screen :: "'i media_env \<Rightarrow> uuid \<Rightarrow> uuid \<Rightarrow> string \<Rightarrow> media_error + screen_decision" where
  "grpc_screen env asset_id owner hash =
     (case me_screen env asset_id owner hash of
        None \<Rightarrow> Inl ScreenUnavailable
      | Some r \<Rightarrow> Inr \<lparr>sd_blocked = sr_verdict r \<in> {2, 3}, sd_csam = 5 \<in> set (sr_matched_categories r),
                      sd_reference = (if sr_match_reference r = [] then None else Some (sr_match_reference r))\<rparr>)"

section \<open>Handlers\<close>

record upload_ticket =
  tk_asset :: uuid
  tk_key :: string
  tk_constraints :: upload_constraints
  tk_issued_at :: datetime
  tk_expires_at :: datetime

definition ticket_issue ::
  "(uuid \<Rightarrow> string) \<Rightarrow> uuid \<Rightarrow> upload_constraints \<Rightarrow> int \<Rightarrow> datetime \<Rightarrow> media_error + upload_ticket" where
  "ticket_issue uuid_str i c ttl now =
     (if ttl \<le> 0 then Inl (DomainViolation ''upload_ticket.ttl'' ''ticket TTL must be positive'')
      else Inr \<lparr>tk_asset = i, tk_key = staging_key uuid_str i, tk_constraints = c, tk_issued_at = now,
                tk_expires_at = now + ttl\<rparr>)"

record issue_command =
  ic_owner :: uuid
  ic_kind :: media_kind
  ic_declared_mime :: string
  ic_declared_size :: u64
  ic_content_sha256 :: "string option"

record prepared_upload =
  pu_url :: string
  pu_content_type :: string
  pu_max_size :: u64
  pu_expires_at :: datetime

record issue_outcome =
  io_asset :: uuid
  io_upload :: "prepared_upload option"
  io_deduplicated :: bool

definition issue_fresh :: "'i media_env \<Rightarrow> uuid \<Rightarrow> issue_command \<Rightarrow> datetime \<Rightarrow> issue_outcome media_step" where
  "issue_fresh env fresh cmd now =
     (let c = constraints_for_kind (ic_kind cmd) in
      st_bind (st_lift (reserve \<lparr>rp_id = fresh, rp_owner = ic_owner cmd, rp_kind = ic_kind cmd,
        rp_declared_mime = ic_declared_mime cmd, rp_declared_size = ic_declared_size cmd\<rparr> c now)) (\<lambda>a.
      st_bind (st_modify (asset_save a)) (\<lambda>_.
      st_bind (st_lift (ticket_issue (me_uuid_str env) fresh c (upload_ticket_ttl (me_policy env)) now)) (\<lambda>t.
      st_lift (Inr \<lparr>io_asset = fresh,
         io_upload = Some \<lparr>pu_url = me_presign env (tk_key t) (upload_ticket_ttl (me_policy env)),
                           pu_content_type = ic_declared_mime cmd, pu_max_size = max_bytes (tk_constraints t),
                           pu_expires_at = tk_expires_at t\<rparr>,
         io_deduplicated = False\<rparr>)))))"

definition issue_ticket :: "'i media_env \<Rightarrow> uuid \<Rightarrow> issue_command \<Rightarrow> datetime \<Rightarrow> issue_outcome media_step" where
  "issue_ticket env fresh cmd now =
     (case (dedup_enabled (me_policy env), ic_content_sha256 cmd) of
        (True, Some sha) \<Rightarrow>
          st_bind (st_lift (content_hash_new sha)) (\<lambda>hash.
          st_bind (st_read (\<lambda>s. find_ready_by_content_hash s hash)) (\<lambda>existing.
          case existing of
            Some e \<Rightarrow> st_lift (Inr \<lparr>io_asset = as_id e, io_upload = None, io_deduplicated = True\<rparr>)
          | None \<Rightarrow> issue_fresh env fresh cmd now))
      | _ \<Rightarrow> issue_fresh env fresh cmd now)"

record commit_command =
  cm_asset :: uuid
  cm_content_sha256 :: "string option"

definition commit_upload :: "'i media_env \<Rightarrow> commit_command \<Rightarrow> datetime \<Rightarrow> asset media_step" where
  "commit_upload env cmd now =
     st_bind (st_read (\<lambda>s. asset_find s (cm_asset cmd))) (\<lambda>found.
     st_bind (st_lift (ok_or (AssetNotFound (cm_asset cmd)) found)) (\<lambda>a.
     if as_state a \<noteq> Pending then st_lift (Inr a)
     else
       let staging = staging_key (me_uuid_str env) (as_id a) in
       st_bind (object_head env staging) (\<lambda>head.
       st_bind (st_lift (ok_or UploadNotFinalized head)) (\<lambda>_.
       st_bind (media_probe env staging (declared_mime a)) (\<lambda>report.
       st_bind (st_lift (case cm_content_sha256 cmd of
           None \<Rightarrow> Inr ()
         | Some d \<Rightarrow> bind_res (content_hash_new d) (\<lambda>h. guard_res (h = fp_content_hash report)
             (CorruptMedia ''client-declared content hash does not match the stored object'')))) (\<lambda>_.
       st_bind (st_lift (finalize report (constraints_for_kind (as_kind a)) now a)) (\<lambda>b.
       st_bind (persist_and_publish env b) (\<lambda>_. st_lift (Inr (stored b))))))))))"

datatype process_outcome = ProcReady | ProcQuarantined | ProcFailed string | ProcSkipped

primrec attach_all :: "rendition list \<Rightarrow> datetime \<Rightarrow> asset \<Rightarrow> media_error + asset" where
  "attach_all [] now a = Inr a"
| "attach_all (r # rs) now a = bind_res (attach_rendition r now a) (attach_all rs now)"

definition process_clean ::
  "'i media_env \<Rightarrow> (rendition list \<times> string) media_step \<Rightarrow> asset \<Rightarrow> datetime \<Rightarrow> process_outcome media_step" where
  "process_clean env derive a now =
     st_bind (st_lift (begin_processing now a)) (\<lambda>a1.
     st_bind derive (\<lambda>(rs, blur).
     st_bind (st_lift (set_blurhash blur now a1)) (\<lambda>a2.
     st_bind (st_lift (attach_all rs now a2)) (\<lambda>a3.
     st_bind (st_lift (mark_ready now a3)) (\<lambda>a4.
     st_bind (persist_and_publish env a4) (\<lambda>_.
     st_bind (st_ignore (cache_put env now a4)) (\<lambda>_. st_lift (Inr ProcReady))))))))"

definition process_blocked :: "'i media_env \<Rightarrow> bool \<Rightarrow> asset \<Rightarrow> datetime \<Rightarrow> process_outcome media_step" where
  "process_blocked env csam a now =
     st_bind (st_lift (quarantine now a)) (\<lambda>q.
     let q = (if csam then place_legal_hold now q else q) in
     st_bind (cache_invalidate env (as_id q)) (\<lambda>_.
     st_bind (persist_and_publish env q) (\<lambda>_. st_lift (Inr ProcQuarantined))))"

text \<open>
  The image and the video handler differ in their guard and in the step that derives the renditions of
  a content hash; the scan, the screen and the writes around it are the same in both.
\<close>

definition process_gate ::
  "'i media_env \<Rightarrow> (string \<Rightarrow> (rendition list \<times> string) media_step) \<Rightarrow> asset \<Rightarrow> datetime \<Rightarrow> process_outcome media_step" where
  "process_gate env derive a now =
     st_bind (st_lift (ok_or (DomainViolation ''content_hash'' ''a finalized asset must carry a content hash'')
       (as_content_hash a))) (\<lambda>hash.
     st_bind (st_bind (st_read (\<lambda>s. me_infected env (objects s) (staging_key (me_uuid_str env) (as_id a)))) st_lift)
       (\<lambda>infected.
     if infected
     then st_bind (st_lift (mark_failed ''malware detected'' now a)) (\<lambda>f.
          st_bind (persist_and_publish env f) (\<lambda>_. st_lift (Inr (ProcFailed ''malware detected''))))
     else
       st_bind (st_lift (grpc_screen env (as_id a) (as_owner a) hash)) (\<lambda>d.
       if sd_blocked d then process_blocked env (sd_csam d) a now
       else process_clean env (derive hash) a now)))"

text \<open>
  A handler after its first await: it works on the copy it loaded, while other handlers may change the
  row.
\<close>

definition process_loaded :: "'i media_env \<Rightarrow> asset \<Rightarrow> datetime \<Rightarrow> process_outcome media_step" where
  "process_loaded env a now =
     (if as_state a \<noteq> Uploaded then st_lift (Inr ProcSkipped)
      else process_gate env (derive_renditions env (staging_key (me_uuid_str env) (as_id a)) (as_kind a)) a now)"

definition run_transcoder :: "'i media_env \<Rightarrow> string \<Rightarrow> string \<Rightarrow> (rendition list \<times> string) media_step" where
  "run_transcoder env source hash s =
     (case me_transcode env (objects s) source hash of (r, store) \<Rightarrow> (r, s\<lparr>objects := store\<rparr>))"

definition transcode_loaded :: "'i media_env \<Rightarrow> asset \<Rightarrow> datetime \<Rightarrow> process_outcome media_step" where
  "transcode_loaded env a now =
     (if as_kind a \<noteq> Video \<or> as_state a \<noteq> Uploaded then st_lift (Inr ProcSkipped)
      else process_gate env (run_transcoder env (staging_key (me_uuid_str env) (as_id a))) a now)"

definition process_asset :: "'i media_env \<Rightarrow> uuid \<Rightarrow> datetime \<Rightarrow> process_outcome media_step" where
  "process_asset env i now =
     st_bind (st_read (\<lambda>s. asset_find s i)) (\<lambda>found.
     st_bind (st_lift (ok_or (AssetNotFound i) found)) (\<lambda>a. process_loaded env a now))"

definition transcode_asset :: "'i media_env \<Rightarrow> uuid \<Rightarrow> datetime \<Rightarrow> process_outcome media_step" where
  "transcode_asset env i now =
     st_bind (st_read (\<lambda>s. asset_find s i)) (\<lambda>found.
     st_bind (st_lift (ok_or (AssetNotFound i) found)) (\<lambda>a. transcode_loaded env a now))"

text \<open>What the two consumers of \<open>media.v1.events\<close> do with an event.\<close>

definition on_uploaded :: "'i media_env \<Rightarrow> media_event \<Rightarrow> datetime \<Rightarrow> unit media_step" where
  "on_uploaded env e now =
     (case e of
        AssetUploaded i _ k _ _ _ \<Rightarrow>
          if k \<noteq> Video then st_bind (process_asset env i now) (\<lambda>_. st_lift (Inr ())) else st_lift (Inr ())
      | _ \<Rightarrow> st_lift (Inr ()))"

definition on_uploaded_video :: "'i media_env \<Rightarrow> media_event \<Rightarrow> datetime \<Rightarrow> unit media_step" where
  "on_uploaded_video env e now =
     (case e of
        AssetUploaded i _ k _ _ _ \<Rightarrow>
          if k = Video then st_bind (transcode_asset env i now) (\<lambda>_. st_lift (Inr ())) else st_lift (Inr ())
      | _ \<Rightarrow> st_lift (Inr ()))"

datatype moderation_action = ActQuarantine | ActRestore

text \<open>\<open>CdnGateway::invalidate\<close> only logs, so no key is passed on here.\<close>

definition moderation_prepare ::
  "'i media_env \<Rightarrow> moderation_action \<Rightarrow> asset \<Rightarrow> datetime \<Rightarrow> asset media_step" where
  "moderation_prepare env act a now =
     st_bind (st_lift (case act of ActQuarantine \<Rightarrow> quarantine now a | ActRestore \<Rightarrow> restore now a)) (\<lambda>b.
     st_bind (cache_invalidate env (as_id b)) (\<lambda>_. st_lift (Inr b)))"

definition apply_moderation ::
  "'i media_env \<Rightarrow> uuid \<Rightarrow> moderation_action \<Rightarrow> datetime \<Rightarrow> (bool \<times> asset_state option) media_step" where
  "apply_moderation env i act now =
     st_bind (st_read (\<lambda>s. asset_find s i)) (\<lambda>found.
     case found of
       None \<Rightarrow> st_lift (Inr (False, None))
     | Some a \<Rightarrow>
         st_bind (moderation_prepare env act a now) (\<lambda>b.
         st_bind (persist_and_publish env b) (\<lambda>_. st_lift (Inr (True, Some (as_state b))))))"

datatype moderation_wire_event =
    EnforcementApplied string string string
  | EnforcementReversed string string
  | OtherModeration

definition moderation_map ::
  "(string \<Rightarrow> uuid option) \<Rightarrow> moderation_wire_event \<Rightarrow> (uuid \<times> moderation_action) option" where
  "moderation_map parse e =
     (case e of
        EnforcementApplied entity_type entity_id action \<Rightarrow>
          if entity_type = ''media'' \<and> action \<in> {''remove_content'', ''visibility_limit''}
          then map_option (\<lambda>i. (i, ActQuarantine)) (parse entity_id) else None
      | EnforcementReversed entity_type entity_id \<Rightarrow>
          if entity_type = ''media'' then map_option (\<lambda>i. (i, ActRestore)) (parse entity_id) else None
      | OtherModeration \<Rightarrow> None)"

definition delete_handle :: "'i media_env \<Rightarrow> uuid \<Rightarrow> uuid \<Rightarrow> datetime \<Rightarrow> bool media_step" where
  "delete_handle env i owner now =
     st_bind (st_read (\<lambda>s. asset_find s i)) (\<lambda>found.
     st_bind (st_lift (ok_or (AssetNotFound i) found)) (\<lambda>a.
     st_bind (st_lift (guard_res (as_owner a = owner) (AssetNotFound i))) (\<lambda>_.
     st_bind (st_lift (delete_asset now a)) (\<lambda>b.
     st_bind (st_each (delete_object env)
        (map rn_key (renditions b) @ [staging_key (me_uuid_str env) (as_id b)])) (\<lambda>_.
     st_bind (cache_invalidate env (as_id b)) (\<lambda>_.
     st_bind (persist_and_publish env b) (\<lambda>_. st_lift (Inr True))))))))"

datatype visibility = Public | Signed

definition trim_end_slashes :: "string \<Rightarrow> string" where
  "trim_end_slashes s = rev (dropWhile (\<lambda>c. c = CHR ''/'') (rev s))"

definition cdn_resolve ::
  "'i media_env \<Rightarrow> string \<Rightarrow> visibility \<Rightarrow> datetime \<Rightarrow> media_error + (string \<times> datetime option)" where
  "cdn_resolve env key v now =
     (case v of
        Public \<Rightarrow> Inr (trim_end_slashes (me_cdn_base env) @ ''/'' @ key, None)
      | Signed \<Rightarrow> Inr (me_presign env key (signed_url_ttl (me_policy env)), Some (now + signed_url_ttl (me_policy env))))"

record delivered_rendition =
  dr_kind :: rendition_kind
  dr_url :: string
  dr_visibility :: visibility
  dr_expires_at :: "datetime option"
  dr_width :: u32
  dr_height :: u32

record delivered_media =
  dm_asset :: uuid
  dm_state :: asset_state
  dm_blurhash :: "string option"
  dm_renditions :: "delivered_rendition list"
  dm_degraded :: bool

primrec resolve_renditions ::
  "'i media_env \<Rightarrow> rendition_kind option \<Rightarrow> visibility \<Rightarrow> datetime \<Rightarrow> rendition list \<Rightarrow> delivered_rendition list \<times> bool" where
  "resolve_renditions env pref v now [] = ([], False)"
| "resolve_renditions env pref v now (r # rs) =
     (let (views, degraded) = resolve_renditions env pref v now rs in
      if pref \<noteq> None \<and> pref \<noteq> Some (rn_kind r) then (views, degraded)
      else case cdn_resolve env (rn_key r) v now of
             Inl _ \<Rightarrow> (views, True)
           | Inr (url, expires) \<Rightarrow>
               (\<lparr>dr_kind = rn_kind r, dr_url = url, dr_visibility = v, dr_expires_at = expires,
                 dr_width = dim_width (rn_dimensions r), dr_height = dim_height (rn_dimensions r)\<rparr> # views, degraded))"

definition resolve_asset ::
  "'i media_env \<Rightarrow> asset \<Rightarrow> rendition_kind option \<Rightarrow> visibility option \<Rightarrow> datetime \<Rightarrow> delivered_media" where
  "resolve_asset env a pref vis now =
     (if \<not> is_deliverable (as_state a)
      then \<lparr>dm_asset = as_id a, dm_state = as_state a, dm_blurhash = as_blurhash a, dm_renditions = [],
            dm_degraded = True\<rparr>
      else
        let v = (case vis of Some v \<Rightarrow> v | None \<Rightarrow> Public);
            (views, degraded) = resolve_renditions env pref v now (renditions a)
        in \<lparr>dm_asset = as_id a, dm_state = as_state a, dm_blurhash = as_blurhash a, dm_renditions = views,
            dm_degraded = degraded \<or> (pref \<noteq> None \<and> views = [])\<rparr>)"

definition load_delivery :: "'i media_env \<Rightarrow> uuid \<Rightarrow> datetime \<Rightarrow> asset option media_step" where
  "load_delivery env i now s =
     (case cache_get env now i s of
        (Inr (Some hit), s') \<Rightarrow> (Inr (Some hit), s')
      | (_, s') \<Rightarrow>
          (case asset_find s' i of
             None \<Rightarrow> (Inr None, s')
           | Some a \<Rightarrow> st_bind (st_ignore (cache_put env now a)) (\<lambda>_. st_lift (Inr (Some a))) s'))"

definition resolve_delivery ::
  "'i media_env \<Rightarrow> uuid \<Rightarrow> rendition_kind option \<Rightarrow> visibility option \<Rightarrow> datetime \<Rightarrow> delivered_media media_step" where
  "resolve_delivery env i pref vis now =
     st_bind (load_delivery env i now) (\<lambda>found.
     st_bind (st_lift (ok_or (AssetNotFound i) found)) (\<lambda>a. st_lift (Inr (resolve_asset env a pref vis now))))"

definition get_asset :: "uuid \<Rightarrow> asset media_step" where
  "get_asset i = st_bind (st_read (\<lambda>s. asset_find s i)) (\<lambda>found. st_lift (ok_or (AssetNotFound i) found))"

primrec resolve_batch ::
  "'i media_env \<Rightarrow> rendition_kind option \<Rightarrow> visibility option \<Rightarrow> datetime \<Rightarrow> uuid list \<Rightarrow> delivered_media list media_step" where
  "resolve_batch env pref vis now [] = st_lift (Inr [])"
| "resolve_batch env pref vis now (i # is) =
     st_bind (load_delivery env i now) (\<lambda>found.
     st_bind (resolve_batch env pref vis now is) (\<lambda>out.
     st_lift (Inr (case found of None \<Rightarrow> out | Some a \<Rightarrow> resolve_asset env a pref vis now # out))))"

end
