(* ===== verification/MediaSafety.thy ===== *)
theory MediaSafety
  imports MediaService
begin

text \<open>
  What the media service guarantees as a whole, over any sequence of requests, direct uploads of clients
  and moderation decisions, and the interleavings under which the guarantees fail.
\<close>

section \<open>Requests\<close>

text \<open>
  A step of the service: a whole handler, or a client that uses the signed URL of its ticket to store
  bytes at the staging key.
\<close>

datatype media_request =
    IssueTicket uuid issue_command
  | ClientPut uuid bytes
  | CommitUpload commit_command
  | ProcessAsset uuid
  | TranscodeAsset uuid
  | Moderate uuid moderation_action
  | DeleteAsset uuid uuid
  | ResolveDelivery uuid "rendition_kind option" "visibility option"

primrec media_serve :: "'i media_env \<Rightarrow> datetime \<Rightarrow> media_request \<Rightarrow> media_state \<Rightarrow> media_state" where
  "media_serve env now (IssueTicket fresh cmd) s = snd (issue_ticket env fresh cmd now s)"
| "media_serve env now (ClientPut i b) s =
     s\<lparr>objects := (objects s)(staging_key (me_uuid_str env) i \<mapsto> b)\<rparr>"
| "media_serve env now (CommitUpload cmd) s = snd (commit_upload env cmd now s)"
| "media_serve env now (ProcessAsset i) s = snd (process_asset env i now s)"
| "media_serve env now (TranscodeAsset i) s = snd (transcode_asset env i now s)"
| "media_serve env now (Moderate i act) s = snd (apply_moderation env i act now s)"
| "media_serve env now (DeleteAsset i owner) s = snd (delete_handle env i owner now s)"
| "media_serve env now (ResolveDelivery i pref vis) s = snd (resolve_delivery env i pref vis now s)"

type_synonym 'i media_trace = "('i media_env \<times> datetime \<times> media_request) list"

definition media_run :: "'i media_trace \<Rightarrow> media_state \<Rightarrow> media_state" where
  "media_run xs s = fold (\<lambda>(env, now, r). media_serve env now r) xs s"

section \<open>The table\<close>

lemma stored_sel [simp]:
  "as_id (stored a) = as_id a" "as_state (stored a) = as_state a" "as_kind (stored a) = as_kind a"
  "as_content_hash (stored a) = as_content_hash a" "renditions (stored a) = renditions a"
  "legal_hold (stored a) = legal_hold a" "as_owner (stored a) = as_owner a" "as_pending (stored a) = []"
  "stage (stored a) = stage a" "asset_wf (stored a) = asset_wf a"
  by (simp_all add: stored_def)

lemma find_upsert:
  "find (\<lambda>b. as_id b = i) (upsert_asset a bs) = (if i = as_id a then Some (stored a) else find (\<lambda>b. as_id b = i) bs)"
  by (induction bs) auto

lemma asset_find_save [simp]:
  "asset_find (asset_save a s) i = (if i = as_id a then Some (stored a) else asset_find s i)"
  by (simp add: asset_find_def asset_save_def find_upsert)

lemma set_upsert: "set (upsert_asset a bs) \<subseteq> insert (stored a) (set bs)"
  by (induction bs) auto

lemma asset_save_sel [simp]:
  "objects (asset_save a s) = objects s" "delivery_cache (asset_save a s) = delivery_cache s"
  "published (asset_save a s) = published s"
  by (simp_all add: asset_save_def)

lemma asset_find_id: "asset_find s i = Some a \<Longrightarrow> as_id a = i \<and> a \<in> set (assets s)"
  by (auto simp: asset_find_def find_Some_iff)

lemma asset_find_update [simp]:
  "asset_find (s\<lparr>objects := x\<rparr>) i = asset_find s i" "asset_find (s\<lparr>delivery_cache := c\<rparr>) i = asset_find s i"
  "asset_find (s\<lparr>published := p\<rparr>) i = asset_find s i"
  by (simp_all add: asset_find_def)

text \<open>Commands keep the identity, the owner, the kind and, after the upload, the content hash of an asset.\<close>

definition identity :: "asset \<Rightarrow> uuid \<times> uuid \<times> media_kind" where
  "identity a = (as_id a, as_owner a, as_kind a)"

lemma as_id_identity: "identity b = identity a \<Longrightarrow> as_id b = as_id a"
  by (simp add: identity_def)

lemma finalize_identity: "finalize p c now a = Inr b \<Longrightarrow> identity b = identity a"
  by (cases "constraints_validate c (fp_mime p) (fp_byte_size p)")
     (auto simp: finalize_def ensure_state_def guard_bind emit_def transition_def identity_def)

lemma process_ops_keep:
  "begin_processing now a = Inr b \<Longrightarrow> identity b = identity a \<and> as_content_hash b = as_content_hash a \<and> renditions b = renditions a \<and> as_state b = Processing"
  "set_blurhash h now a = Inr b \<Longrightarrow> identity b = identity a \<and> as_content_hash b = as_content_hash a \<and> renditions b = renditions a \<and> as_state b = as_state a"
  "attach_rendition r now a = Inr b \<Longrightarrow> identity b = identity a \<and> as_content_hash b = as_content_hash a \<and> renditions b = renditions a @ [r] \<and> as_state b = as_state a"
  "mark_ready now a = Inr b \<Longrightarrow> identity b = identity a \<and> as_content_hash b = as_content_hash a \<and> renditions b = renditions a \<and> as_state b = Ready"
  "mark_failed reason now a = Inr b \<Longrightarrow> identity b = identity a \<and> as_content_hash b = as_content_hash a \<and> renditions b = renditions a \<and> as_state b = Failed"
  by (auto simp: begin_processing_def set_blurhash_def attach_rendition_def mark_ready_def mark_failed_def
      ensure_state_def guard_bind transition_def emit_def identity_def)

lemma takedown_ops_keep:
  "quarantine now a = Inr b \<Longrightarrow> identity b = identity a \<and> as_content_hash b = as_content_hash a \<and> renditions b = renditions a \<and> as_state b = Quarantined"
  "restore now a = Inr b \<Longrightarrow> identity b = identity a \<and> as_content_hash b = as_content_hash a \<and> renditions b = renditions a"
  "delete_asset now a = Inr b \<Longrightarrow> identity b = identity a \<and> as_content_hash b = as_content_hash a \<and> renditions b = renditions a \<and> as_state b = Deleted"
  by (auto simp: quarantine_Inr_iff restore_def delete_asset_def Let_def guard_bind transition_def emit_def identity_def
      split: if_splits)

lemma attach_all_keep:
  "attach_all rs now a = Inr b \<Longrightarrow>
   identity b = identity a \<and> as_content_hash b = as_content_hash a \<and> renditions b = renditions a @ rs \<and> as_state b = as_state a"
  by (induction rs arbitrary: a) (auto simp: bind_res_Inr_iff dest!: process_ops_keep(3))

section \<open>Proof rules of the adapters\<close>

named_theorems keeps "what the steps of a handler keep"

lemma lift_keeps [keeps]: "st_keeps P (st_lift r)"
  by (rule st_hoare_lift) auto

lemma read_keeps [keeps]: "st_keeps P (st_read f)"
  by (rule st_hoare_read) auto

lemma fail_with_keeps [keeps]: "st_keeps P (fail_with f)"
  unfolding fail_with_def by (rule lift_keeps)

lemma keeps_snd: "st_keeps P m \<Longrightarrow> P s \<Longrightarrow> P (snd (m s))"
  using st_keepsD [of P m s "fst (m s)" "snd (m s)"] by simp

lemma modify_keeps: "(\<And>s. P s \<Longrightarrow> P (f s)) \<Longrightarrow> st_keeps P (st_modify f)"
  by (rule st_hoare_modify) auto

lemma ignore_keeps [keeps]:
  assumes "st_keeps P m"
  shows "st_keeps P (st_ignore m)"
proof -
  show ?thesis using keeps_snd [OF assms] by (simp add: st_hoare_def st_ignore_def)
qed

lemma keeps_bind_lift: "(\<And>x. r = Inr x \<Longrightarrow> st_keeps P (f x)) \<Longrightarrow> st_keeps P (st_bind (st_lift r) f)"
  by (rule st_hoare_bind_lift) auto

lemma keeps_each [keeps]: "(\<And>x. x \<in> set xs \<Longrightarrow> st_keeps P (f x)) \<Longrightarrow> st_keeps P (st_each f xs)"
  by (induction xs) (auto intro: st_hoare_bind st_hoare_lift)

lemma keeps_split [keeps]: "(\<And>x y. p = (x, y) \<Longrightarrow> st_keeps P (f x y)) \<Longrightarrow> st_keeps P (case p of (x, y) \<Rightarrow> f x y)"
  by (cases p) simp

lemma keeps_if [keeps]: "(b \<Longrightarrow> st_keeps P m) \<Longrightarrow> (\<not> b \<Longrightarrow> st_keeps P n) \<Longrightarrow> st_keeps P (if b then m else n)"
  by simp

lemma get_bytes_keeps [keeps]: "st_keeps P (get_bytes env k)"
  unfolding get_bytes_def by (intro keeps_bind_lift st_keeps_bind keeps)

lemma object_head_keeps [keeps]: "st_keeps P (object_head env k)"
  unfolding object_head_def by (intro keeps_bind_lift st_keeps_bind keeps)

lemma image_probe_keeps [keeps]: "st_keeps P (image_probe env k m)"
  unfolding image_probe_def by (intro keeps_bind_lift st_keeps_bind keeps)

lemma media_probe_keeps [keeps]: "st_keeps P (media_probe env k m)"
  unfolding media_probe_def by (intro keeps_bind_lift st_keeps_bind keeps)

lemma put_bytes_keeps: "(\<And>s. P s \<Longrightarrow> P (s\<lparr>objects := (objects s)(k \<mapsto> b)\<rparr>)) \<Longrightarrow> st_keeps P (put_bytes env k b)"
  unfolding put_bytes_def by (intro keeps_bind_lift st_keeps_bind keeps modify_keeps)

lemma delete_object_keeps:
  "(\<And>s. P s \<Longrightarrow> P (s\<lparr>objects := (objects s)(k := None)\<rparr>)) \<Longrightarrow> st_keeps P (delete_object env k)"
  unfolding delete_object_def by (intro keeps_bind_lift st_keeps_bind keeps modify_keeps)

lemma cache_invalidate_keeps:
  "(\<And>s. P s \<Longrightarrow> P (s\<lparr>delivery_cache := (delivery_cache s)(i := None)\<rparr>)) \<Longrightarrow> st_keeps P (cache_invalidate env i)"
  unfolding cache_invalidate_def by (intro keeps_bind_lift st_keeps_bind keeps modify_keeps)

lemma cache_put_keeps:
  "(\<And>s t. P s \<Longrightarrow> P (s\<lparr>delivery_cache := (delivery_cache s)(as_id a \<mapsto> (stored a, t))\<rparr>)) \<Longrightarrow> st_keeps P (cache_put env now a)"
  unfolding cache_put_def by (intro keeps_bind_lift st_keeps_bind keeps modify_keeps)

lemma persist_keeps:
  assumes "\<And>s p. P s \<Longrightarrow> P (s\<lparr>published := p\<rparr>)" and "\<And>s. P s \<Longrightarrow> P (asset_save a s)"
  shows "st_keeps P (persist_and_publish env a)"
  unfolding persist_and_publish_def publish_event_def
  by (intro keeps_bind_lift st_keeps_bind keeps modify_keeps assms)

section \<open>A takedown holds\<close>

text \<open>The asset cannot be delivered, neither from the table nor from the cache.\<close>

definition down :: "asset \<Rightarrow> bool" where
  "down a \<longleftrightarrow> as_state a = Quarantined \<or> as_state a = Deleted"

definition taken_down :: "uuid \<Rightarrow> media_state \<Rightarrow> bool" where
  "taken_down i s \<longleftrightarrow> (\<exists>a. asset_find s i = Some a \<and> down a) \<and>
     (\<forall>a e. delivery_cache s i = Some (a, e) \<longrightarrow> \<not> is_deliverable (as_state a))"

lemma taken_down_update [simp]:
  "taken_down i (s\<lparr>objects := x\<rparr>) = taken_down i s" "taken_down i (s\<lparr>published := p\<rparr>) = taken_down i s"
  by (simp_all add: taken_down_def)

lemma taken_down_find: "taken_down i s \<Longrightarrow> asset_find s j = Some a \<Longrightarrow> as_id a = j \<and> (j = i \<longrightarrow> down a)"
  using asset_find_id by (fastforce simp: taken_down_def)

lemma taken_down_save: "taken_down i s \<Longrightarrow> as_id a = i \<longrightarrow> down a \<Longrightarrow> taken_down i (asset_save a s)"
  by (auto simp: taken_down_def down_def)

lemma down_not_deliverable: "down a \<Longrightarrow> \<not> is_deliverable (as_state a)"
  by (auto simp: down_def is_deliverable_def)

lemma persist_down [keeps]:
  "as_id a = i \<longrightarrow> down a \<Longrightarrow> st_keeps (taken_down i) (persist_and_publish env a)"
  by (rule persist_keeps) (simp_all add: taken_down_save)

lemma invalidate_down [keeps]: "st_keeps (taken_down i) (cache_invalidate env j)"
  by (rule cache_invalidate_keeps) (auto simp: taken_down_def)

lemma cache_put_down [keeps]:
  "as_id a = i \<longrightarrow> down a \<Longrightarrow> st_keeps (taken_down i) (cache_put env now a)"
  by (rule cache_put_keeps) (auto simp: taken_down_def dest: down_not_deliverable)

lemma encode_put_down [keeps]: "st_keeps (taken_down i) (encode_put env img k h rk)"
  unfolding encode_put_def Let_def by (intro keeps_bind_lift st_keeps_bind keeps put_bytes_keeps) simp_all

lemma encode_ladder_down [keeps]: "st_keeps (taken_down i) (encode_ladder env img k h xs acc)"
  by (induction xs arbitrary: acc) (auto intro!: st_keeps_bind keeps)

lemma derive_down [keeps]: "st_keeps (taken_down i) (derive_renditions env src k h)"
  unfolding derive_renditions_def by (intro keeps_bind_lift st_keeps_bind keeps)

lemma transcoder_keeps:
  assumes "\<And>s x. P s \<Longrightarrow> P (s\<lparr>objects := x\<rparr>)"
  shows "st_keeps P (run_transcoder env src h)"
  using assms by (auto simp: st_hoare_def run_transcoder_def split: prod.splits sum.splits)

lemma transcoder_down [keeps]: "st_keeps (taken_down i) (run_transcoder env src h)"
  by (rule transcoder_keeps) simp

lemma process_clean_down:
  "as_id a \<noteq> i \<Longrightarrow> st_keeps (taken_down i) derive \<Longrightarrow> st_keeps (taken_down i) (process_clean env derive a now)"
  unfolding process_clean_def
  by (intro keeps_bind_lift st_keeps_bind keeps)
     (auto dest!: process_ops_keep attach_all_keep simp: identity_def)

lemma process_blocked_down: "as_id a \<noteq> i \<Longrightarrow> st_keeps (taken_down i) (process_blocked env c a now)"
  unfolding process_blocked_def Let_def
  by (intro keeps_bind_lift st_keeps_bind keeps)
     (auto dest!: takedown_ops_keep simp: identity_def place_legal_hold_def)

lemma process_gate_down:
  assumes "as_id a \<noteq> i" "\<And>h. st_keeps (taken_down i) (derive h)"
  shows "st_keeps (taken_down i) (process_gate env derive a now)"
  unfolding process_gate_def using assms
  by (intro keeps_bind_lift st_keeps_bind keeps process_clean_down process_blocked_down)
     (auto dest!: process_ops_keep simp: identity_def)

lemma process_down:
  assumes "as_id a = i \<longrightarrow> down a"
  shows "st_keeps (taken_down i) (process_loaded env a now)" "st_keeps (taken_down i) (transcode_loaded env a now)"
  using assms
  by (auto simp: process_loaded_def transcode_loaded_def down_def
      intro!: lift_keeps process_gate_down derive_down transcoder_down)

lemma finds_down:
  assumes "\<And>a. as_id a = j \<Longrightarrow> (j = i \<longrightarrow> down a) \<Longrightarrow> st_keeps (taken_down i) (f (Some a))" "st_keeps (taken_down i) (f None)"
  shows "st_keeps (taken_down i) (st_bind (st_read (\<lambda>s. asset_find s j)) f)"
proof (rule st_keeps_bind_read [where C = "\<lambda>x. \<forall>a. x = Some a \<longrightarrow> as_id a = j \<and> (j = i \<longrightarrow> down a)"])
  show "\<forall>a. asset_find s j = Some a \<longrightarrow> as_id a = j \<and> (j = i \<longrightarrow> down a)" if "taken_down i s" for s
    using taken_down_find [OF that] by blast
  show "st_keeps (taken_down i) (f x)" if "\<forall>a. x = Some a \<longrightarrow> as_id a = j \<and> (j = i \<longrightarrow> down a)" for x
    using that assms by (cases x) auto
qed

lemma issue_down: "fresh \<noteq> i \<Longrightarrow> st_keeps (taken_down i) (issue_ticket env fresh cmd now)"
proof -
  assume "fresh \<noteq> i"
  then have "st_keeps (taken_down i) (issue_fresh env fresh cmd now)"
    unfolding issue_fresh_def Let_def
    by (intro keeps_bind_lift st_keeps_bind keeps modify_keeps taken_down_save) (auto simp: reserve_def bind_res_Inr_iff)
  then show ?thesis
    unfolding issue_ticket_def
    by (auto split: bool.split option.split intro!: keeps_bind_lift st_keeps_bind lift_keeps read_keeps)
qed

lemma commit_down: "st_keeps (taken_down i) (commit_upload env cmd now)"
  unfolding commit_upload_def Let_def
  by (rule finds_down; intro keeps_bind_lift st_keeps_bind keeps)
     (auto dest!: finalize_identity simp: identity_def down_def)

lemma process_asset_down: "st_keeps (taken_down i) (process_asset env j now)"
  unfolding process_asset_def
  by (rule finds_down; intro keeps_bind_lift process_down) auto

lemma transcode_asset_down: "st_keeps (taken_down i) (transcode_asset env j now)"
  unfolding transcode_asset_def
  by (rule finds_down; intro keeps_bind_lift process_down) auto

lemma moderation_down:
  assumes "act = ActRestore \<longrightarrow> j \<noteq> i"
  shows "st_keeps (taken_down i) (apply_moderation env j act now)"
proof -
  have prep: "st_hoare (taken_down i) (moderation_prepare env act a now)
      (\<lambda>b s. taken_down i s \<and> (as_id b = i \<longrightarrow> down b)) (taken_down i)" if "as_id a = j" for a
    unfolding moderation_prepare_def
  proof (rule st_hoare_bind_lift)
    fix b assume b: "(case act of ActQuarantine \<Rightarrow> quarantine now a | ActRestore \<Rightarrow> restore now a) = Inr b"
    have "as_id b = i \<longrightarrow> down b"
      using b that assms takedown_ops_keep(1,2) [of now a b]
      by (cases act) (auto simp: identity_def down_def)
    then show "st_hoare (taken_down i) (st_bind (cache_invalidate env (as_id b)) (\<lambda>_. st_lift (Inr b)))
        (\<lambda>b s. taken_down i s \<and> (as_id b = i \<longrightarrow> down b)) (taken_down i)"
      by (intro st_hoare_bind [OF invalidate_down] st_hoare_lift) auto
  qed simp
  have rest: "st_hoare (\<lambda>s. taken_down i s \<and> (as_id b = i \<longrightarrow> down b))
      (st_bind (persist_and_publish env b) (\<lambda>_. st_lift (Inr (True, Some (as_state b))))) (\<lambda>_. taken_down i) (taken_down i)" for b
    by (rule st_hoare_fact [of _ "as_id b = i \<longrightarrow> down b"])
       (auto intro!: st_hoare_weaken [OF st_keeps_bind [OF persist_down lift_keeps]])
  show ?thesis
    unfolding apply_moderation_def
    by (rule finds_down) (simp_all add: st_hoare_bind [OF prep rest] lift_keeps)
qed

lemma delete_down: "st_keeps (taken_down i) (delete_handle env j owner now)"
  unfolding delete_handle_def
  by (rule finds_down; intro keeps_bind_lift st_keeps_bind keeps delete_object_keeps)
     (auto dest!: takedown_ops_keep simp: identity_def down_def)

lemma cache_get_keeps [keeps]: "st_keeps P (cache_get env now i)"
  unfolding cache_get_def by (intro st_keeps_bind keeps)

lemma st_ignore_eq: "st_ignore m s = (Inr (), snd (m s))"
  by (simp add: st_ignore_def)

lemma load_delivery_cases:
  obtains (hit) a where "load_delivery env i now s = (Inr (Some a), s)" "\<exists>e. delivery_cache s i = Some (a, e)"
  | (row) a where "load_delivery env i now s = (Inr (Some a), snd (cache_put env now a s))" "asset_find s i = Some a"
  | (missing) "load_delivery env i now s = (Inr None, s)" "asset_find s i = None"
proof -
  have c: "snd (cache_get env now i s) = s"
    and h: "fst (cache_get env now i s) = Inr (Some a) \<Longrightarrow> \<exists>e. delivery_cache s i = Some (a, e)" for a
    by (cases "me_cache_fault env";
        auto simp: cache_get_def fail_with_def state_defs split: option.splits prod.splits if_splits)+
  show thesis
  proof (cases "\<exists>a. fst (cache_get env now i s) = Inr (Some a)")
    case True
    then show ?thesis using c h that(1) by (cases "cache_get env now i s") (auto simp: load_delivery_def)
  next
    case False
    then have "load_delivery env i now s = (case asset_find s i of
             None \<Rightarrow> (Inr None, s)
           | Some a \<Rightarrow> st_bind (st_ignore (cache_put env now a)) (\<lambda>_. st_lift (Inr (Some a))) s)"
      using c by (cases "cache_get env now i s") (auto simp: load_delivery_def split: sum.split option.split)
    then show ?thesis using that(2,3) by (cases "asset_find s i") (auto simp: st_ignore_eq state_defs)
  qed
qed

lemma load_down:
  assumes "taken_down i s" "load_delivery env j now s = (r, s')"
  shows "taken_down i s' \<and> (\<forall>a. r = Inr (Some a) \<longrightarrow> j = i \<longrightarrow> \<not> is_deliverable (as_state a))"
proof (cases rule: load_delivery_cases [of env j now s])
  case (hit a)
  then show ?thesis using assms by (auto simp: taken_down_def)
next
  case (row a)
  have a: "as_id a = j \<and> (j = i \<longrightarrow> down a)" by (rule taken_down_find [OF assms(1) row(2)])
  then have "taken_down i (snd (cache_put env now a s))"
    using st_keepsD [OF cache_put_down assms(1), of a env now "fst (cache_put env now a s)"] by auto
  then show ?thesis using assms(2) row a down_not_deliverable by auto
qed (use assms in auto)

lemma resolve_down: "taken_down i s \<Longrightarrow> resolve_delivery env j pref vis now s = (r, s') \<Longrightarrow> taken_down i s'"
  unfolding resolve_delivery_def st_bind_def st_lift_def
  by (auto split: prod.splits sum.splits dest: load_down)

lemma resolve_down_view:
  assumes "taken_down i s" "resolve_delivery env i pref vis now s = (Inr v, s')"
  shows "dm_renditions v = [] \<and> dm_degraded v"
proof -
  obtain a s1 where "load_delivery env i now s = (Inr (Some a), s1)" "v = resolve_asset env a pref vis now"
    using assms(2) by (auto simp: resolve_delivery_def st_Inr_iffs ok_or_def split: option.splits)
  moreover from this(1) have "\<not> is_deliverable (as_state a)" using load_down [OF assms(1)] by blast
  ultimately show ?thesis by (simp add: resolve_asset_def)
qed

text \<open>A request that may bring the asset back: its restoration, or a new asset under its id.\<close>

primrec may_revive :: "uuid \<Rightarrow> media_request \<Rightarrow> bool" where
  "may_revive i (IssueTicket fresh cmd) \<longleftrightarrow> fresh = i"
| "may_revive i (ClientPut j b) \<longleftrightarrow> False"
| "may_revive i (CommitUpload cmd) \<longleftrightarrow> False"
| "may_revive i (ProcessAsset j) \<longleftrightarrow> False"
| "may_revive i (TranscodeAsset j) \<longleftrightarrow> False"
| "may_revive i (Moderate j act) \<longleftrightarrow> j = i \<and> act = ActRestore"
| "may_revive i (DeleteAsset j owner) \<longleftrightarrow> False"
| "may_revive i (ResolveDelivery j pref vis) \<longleftrightarrow> False"

lemma serve_down: "taken_down i s \<Longrightarrow> \<not> may_revive i r \<Longrightarrow> taken_down i (media_serve env now r s)"
proof -
  assume s: "taken_down i s" and r: "\<not> may_revive i r"
  note keeps = keeps_snd [where P = "taken_down i" and s = s, OF _ s]
  show ?thesis
  proof (cases r)
    case (ResolveDelivery j pref vis)
    then show ?thesis using resolve_down [OF s, of env j pref vis now] by (cases "resolve_delivery env j pref vis now s") simp
  next
    case (Moderate j act)
    then show ?thesis using r keeps [OF moderation_down [of act j i env now]] by auto
  qed (use s r keeps [OF issue_down] keeps [OF commit_down] keeps [OF process_asset_down]
        keeps [OF transcode_asset_down] keeps [OF delete_down] in auto)
qed

lemma run_down: "taken_down i s \<Longrightarrow> list_all (\<lambda>(_, _, r). \<not> may_revive i r) xs \<Longrightarrow> taken_down i (media_run xs s)"
  by (induction xs arbitrary: s) (auto simp: media_run_def serve_down)

text \<open>What establishes a takedown: the cache entry is dropped and the row saved.\<close>

lemma persist_state:
  assumes "persist_and_publish env a s = (Inr u, s')"
  shows "\<exists>p. s' = (asset_save a s)\<lparr>published := p\<rparr>"
proof -
  have each: "st_keeps (\<lambda>t. \<exists>p. t = (asset_save a s)\<lparr>published := p\<rparr>) (publish_event env e)" for e
    unfolding publish_event_def by (intro st_keeps_bind keeps modify_keeps) auto
  have "st_each (publish_event env) (as_pending a) (asset_save a s) = (Inr u, s')"
    using assms by (simp add: persist_and_publish_def state_defs)
  from st_keepsD [OF keeps_each [OF each] _ this] show ?thesis by (metis media_state.surjective media_state.update_convs(4))
qed

lemma persist_takes_down:
  assumes "persist_and_publish env b s = (Inr u, s')" "down b" "as_id b = i" "delivery_cache s i = None"
  shows "taken_down i s'"
  using persist_state [OF assms(1)] assms(2-4) by (auto simp: taken_down_def down_def)

lemma invalidate_state:
  "cache_invalidate env i s = (Inr u, s') \<Longrightarrow> s' = s\<lparr>delivery_cache := (delivery_cache s)(i := None)\<rparr>"
  by (auto simp: cache_invalidate_def st_Inr_iffs fail_with_def)

lemma quarantine_takes_down:
  assumes "apply_moderation env i ActQuarantine now s = (Inr (True, st), s')"
  shows "taken_down i s'"
proof -
  obtain a b s1 s2 where a: "asset_find s i = Some a" and q: "quarantine now a = Inr b"
    and inv: "cache_invalidate env (as_id b) s = (Inr (), s1)" and p: "persist_and_publish env b s1 = (Inr (), s2)"
    and s': "s' = s2"
    using assms by (auto simp: apply_moderation_def moderation_prepare_def st_Inr_iffs split: option.splits)
  have "as_id b = i" "down b"
    using takedown_ops_keep(1) [OF q] asset_find_id [OF a] by (auto simp: identity_def down_def)
  then show ?thesis using persist_takes_down [OF p] invalidate_state [OF inv] s' by simp
qed

lemma delete_takes_down:
  assumes "delete_handle env i owner now s = (Inr True, s')"
  shows "taken_down i s'"
proof -
  obtain a b s1 s2 where a: "asset_find s i = Some a" and q: "delete_asset now a = Inr b"
    and inv: "cache_invalidate env (as_id b) s1 = (Inr (), s2)" and p: "persist_and_publish env b s2 = (Inr (), s')"
    using assms by (auto simp: delete_handle_def st_Inr_iffs ok_or_def split: option.splits)
  have "as_id b = i" "down b"
    using takedown_ops_keep(3) [OF q] asset_find_id [OF a] by (auto simp: identity_def down_def)
  then show ?thesis using persist_takes_down [OF p] invalidate_state [OF inv] by simp
qed

lemma blocked_takes_down:
  assumes "process_blocked env c a now s = (Inr out, s')"
  shows "out = ProcQuarantined \<and> taken_down (as_id a) s'"
proof -
  obtain q s1 where q: "quarantine now a = Inr q"
    and inv: "cache_invalidate env (as_id q) s = (Inr (), s1)"
    and p: "persist_and_publish env (if c then place_legal_hold now q else q) s1 = (Inr (), s')" and "out = ProcQuarantined"
    using assms by (cases c) (auto simp: process_blocked_def Let_def st_Inr_iffs place_legal_hold_def)
  have "as_id q = as_id a" "as_state q = Quarantined" using takedown_ops_keep(1) [OF q] by (simp_all add: identity_def)
  then show ?thesis
    using persist_takes_down [OF p, of "as_id a"] invalidate_state [OF inv] \<open>out = ProcQuarantined\<close>
    by (auto simp: down_def place_legal_hold_def)
qed

lemma gate_takes_down:
  assumes "process_gate env derive a now s = (Inr ProcQuarantined, s')"
  shows "taken_down (as_id a) s'"
proof -
  obtain c where "process_blocked env c a now s = (Inr ProcQuarantined, s')"
    using assms by (auto simp: process_gate_def process_clean_def st_Inr_iffs split: if_splits prod.splits)
  then show ?thesis using blocked_takes_down by blast
qed

lemma screen_takes_down:
  assumes "process_asset env i now s = (Inr ProcQuarantined, s') \<or> transcode_asset env i now s = (Inr ProcQuarantined, s')"
  shows "taken_down i s'"
proof -
  obtain a derive where "asset_find s i = Some a" "process_gate env derive a now s = (Inr ProcQuarantined, s')"
    using assms by (auto simp: process_asset_def transcode_asset_def process_loaded_def transcode_loaded_def st_Inr_iffs
        ok_or_def split: option.splits if_splits)
  then show ?thesis using gate_takes_down asset_find_id by blast
qed

section \<open>The rows are well formed and their objects content-addressed\<close>

definition addressed :: "asset \<Rightarrow> bool" where
  "addressed a \<longleftrightarrow> as_kind a = Video \<or> (\<forall>r \<in> set (renditions a). \<exists>h. as_content_hash a = Some h \<and>
     rn_key r = rendition_key (as_kind a) h (rn_kind r) ''jpg'')"

definition rows_ok :: "media_state \<Rightarrow> bool" where
  "rows_ok s \<longleftrightarrow> (\<forall>a \<in> set (assets s). asset_wf a \<and> addressed a)"

lemma rows_ok_update [simp]:
  "rows_ok (s\<lparr>objects := x\<rparr>) = rows_ok s" "rows_ok (s\<lparr>delivery_cache := c\<rparr>) = rows_ok s"
  "rows_ok (s\<lparr>published := p\<rparr>) = rows_ok s"
  by (simp_all add: rows_ok_def)

lemma addressed_stored [simp]: "addressed (stored a) = addressed a"
  by (simp add: addressed_def)

lemma rows_ok_save: "rows_ok s \<Longrightarrow> asset_wf a \<Longrightarrow> addressed a \<Longrightarrow> rows_ok (asset_save a s)"
  using set_upsert [of a "assets s"] by (auto simp: rows_ok_def asset_save_def)

lemma persist_ok [keeps]: "asset_wf a \<Longrightarrow> addressed a \<Longrightarrow> st_keeps rows_ok (persist_and_publish env a)"
  by (rule persist_keeps) (simp_all add: rows_ok_save)

lemma invalidate_ok [keeps]: "st_keeps rows_ok (cache_invalidate env j)"
  by (rule cache_invalidate_keeps) simp

lemma cache_put_ok [keeps]: "st_keeps rows_ok (cache_put env now a)"
  by (rule cache_put_keeps) simp

lemma encode_put_ok [keeps]: "st_keeps rows_ok (encode_put env img k h rk)"
  unfolding encode_put_def Let_def by (intro keeps_bind_lift st_keeps_bind keeps put_bytes_keeps) simp_all

lemma encode_ladder_ok [keeps]: "st_keeps rows_ok (encode_ladder env img k h xs acc)"
  by (induction xs arbitrary: acc) (auto intro!: st_keeps_bind keeps)

lemma derive_ok [keeps]: "st_keeps rows_ok (derive_renditions env src k h)"
  unfolding derive_renditions_def by (intro keeps_bind_lift st_keeps_bind keeps)

lemma keeps_bind_gives:
  assumes "st_keeps P m" "\<And>s x s'. m s = (Inr x, s') \<Longrightarrow> C x" "\<And>x. C x \<Longrightarrow> st_keeps P (f x)"
  shows "st_keeps P (st_bind m f)"
proof (rule st_hoare_bind [where R = "\<lambda>x s. P s \<and> C x"])
  show "st_hoare P m (\<lambda>x s. P s \<and> C x) P"
    using assms(1,2) by (fastforce simp: st_hoare_def split: prod.splits sum.splits)
  show "st_hoare (\<lambda>s. P s \<and> C x) (f x) (\<lambda>_. P) P" for x
    using assms(3) [of x] by (auto simp: st_hoare_def)
qed

definition keyed :: "media_kind \<Rightarrow> string \<Rightarrow> rendition list \<Rightarrow> bool" where
  "keyed k h rs \<longleftrightarrow> (\<forall>r \<in> set rs. rn_key r = rendition_key k h (rn_kind r) ''jpg'')"

lemma keyed_append [simp]: "keyed k h (xs @ ys) \<longleftrightarrow> keyed k h xs \<and> keyed k h ys"
  by (auto simp: keyed_def)

lemma encode_put_keyed: "encode_put env img k h rk s = (Inr r, s') \<Longrightarrow> keyed k h [r]"
  by (auto simp: encode_put_def Let_def st_Inr_iffs keyed_def)

lemma encode_ladder_keyed:
  "encode_ladder env img k h xs acc s = (Inr rs, s') \<Longrightarrow> keyed k h acc \<Longrightarrow> keyed k h rs"
  by (induction xs arbitrary: acc s) (force simp: st_Inr_iffs split: if_splits dest: encode_put_keyed)+

lemma derive_keyed: "derive_renditions env src k h s = (Inr x, s') \<Longrightarrow> keyed k h (fst x)"
  by (auto simp: derive_renditions_def st_Inr_iffs dest: encode_ladder_keyed encode_put_keyed)

lemma attach_all_wf: "attach_all rs now a = Inr b \<Longrightarrow> asset_wf a \<Longrightarrow> asset_wf b"
  by (induction rs arbitrary: a) (auto simp: bind_res_Inr_iff dest: attach_rendition_step)

lemma addressed_keeps:
  "addressed a \<Longrightarrow> identity b = identity a \<and> as_content_hash b = as_content_hash a \<and> renditions b = renditions a \<Longrightarrow> addressed b"
  by (simp add: addressed_def identity_def)

lemma uploaded_no_renditions: "asset_wf a \<Longrightarrow> as_state a \<in> {Pending, Uploaded} \<Longrightarrow> renditions a = []"
  using asset_wf_stage [of a] by auto

lemma transcoder_ok [keeps]: "st_keeps rows_ok (run_transcoder env src h)"
  by (rule transcoder_keeps) simp

lemma process_clean_ok:
  assumes a: "asset_wf a" "as_state a = Uploaded" "as_content_hash a = Some h"
    and derive: "st_keeps rows_ok derive"
      "\<And>s x s'. derive s = (Inr x, s') \<Longrightarrow> as_kind a = Video \<or> keyed (as_kind a) h (fst x)"
  shows "st_keeps rows_ok (process_clean env derive a now)"
  unfolding process_clean_def
proof (rule keeps_bind_lift, rule keeps_bind_gives [OF derive], assumption, unfold case_prod_beta, intro keeps_bind_lift)
  fix a1 x a2 a3 a4
  assume a1: "begin_processing now a = Inr a1"
    and x: "as_kind a = Video \<or> keyed (as_kind a) h (fst x)" and a2: "set_blurhash (snd x) now a1 = Inr a2"
    and a3: "attach_all (fst x) now a2 = Inr a3" and a4: "mark_ready now a3 = Inr a4"
  have wf: "asset_wf a4"
    using begin_processing_step [OF a(1) a1] set_blurhash_step [OF _ a2] attach_all_wf [OF a3] mark_ready_step [OF _ a4] by blast
  have "renditions a4 = fst x" "as_kind a4 = as_kind a" "as_content_hash a4 = Some h"
    using process_ops_keep(1) [OF a1] process_ops_keep(2) [OF a2] attach_all_keep [OF a3] process_ops_keep(4) [OF a4]
      uploaded_no_renditions [OF a(1)] a(2,3) by (auto simp: identity_def)
  then have "addressed a4" using x by (auto simp: addressed_def keyed_def)
  with wf show "st_keeps rows_ok (st_bind (persist_and_publish env a4) (\<lambda>_.
      st_bind (st_ignore (cache_put env now a4)) (\<lambda>_. st_lift (Inr ProcReady))))"
    by (intro st_keeps_bind keeps)
qed

lemma process_blocked_ok:
  "asset_wf a \<Longrightarrow> addressed a \<Longrightarrow> st_keeps rows_ok (process_blocked env c a now)"
  unfolding process_blocked_def Let_def
  by (intro keeps_bind_lift st_keeps_bind keeps)
     (auto dest: quarantine_step takedown_ops_keep(1) intro: addressed_keeps simp: place_legal_hold_def addressed_def identity_def)

lemma process_gate_ok:
  assumes a: "asset_wf a" "addressed a" "as_state a = Uploaded"
    and derive: "\<And>h. st_keeps rows_ok (derive h)"
      "\<And>h s x s'. derive h s = (Inr x, s') \<Longrightarrow> as_kind a = Video \<or> keyed (as_kind a) h (fst x)"
  shows "st_keeps rows_ok (process_gate env derive a now)"
  unfolding process_gate_def
proof (intro keeps_bind_lift)
  fix h assume h: "ok_or (DomainViolation ''content_hash'' ''a finalized asset must carry a content hash'') (as_content_hash a) = Inr h"
  then have "as_content_hash a = Some h" by (simp add: ok_or_def split: option.splits)
  then show "st_keeps rows_ok (st_bind (st_bind (st_read (\<lambda>s. me_infected env (objects s) (staging_key (me_uuid_str env) (as_id a)))) st_lift)
     (\<lambda>infected. if infected
       then st_bind (st_lift (mark_failed ''malware detected'' now a)) (\<lambda>f.
          st_bind (persist_and_publish env f) (\<lambda>_. st_lift (Inr (ProcFailed ''malware detected''))))
       else st_bind (st_lift (grpc_screen env (as_id a) (as_owner a) h)) (\<lambda>d.
         if sd_blocked d then process_blocked env (sd_csam d) a now else process_clean env (derive h) a now)))"
    using a by (intro keeps_bind_lift st_keeps_bind keeps process_clean_ok process_blocked_ok derive)
      (auto dest: mark_failed_step process_ops_keep(5) intro: addressed_keeps)
qed

lemma process_ok:
  assumes "asset_wf a" "addressed a"
  shows "st_keeps rows_ok (process_loaded env a now)" "st_keeps rows_ok (transcode_loaded env a now)"
  using assms by (auto simp: process_loaded_def transcode_loaded_def dest: derive_keyed
      intro!: lift_keeps process_gate_ok derive_ok transcoder_ok)

lemma finds_ok:
  assumes "\<And>a. as_id a = j \<Longrightarrow> asset_wf a \<Longrightarrow> addressed a \<Longrightarrow> st_keeps rows_ok (f (Some a))" "st_keeps rows_ok (f None)"
  shows "st_keeps rows_ok (st_bind (st_read (\<lambda>s. asset_find s j)) f)"
proof (rule st_keeps_bind_read [where C = "\<lambda>x. \<forall>a. x = Some a \<longrightarrow> as_id a = j \<and> asset_wf a \<and> addressed a"])
  show "\<forall>a. asset_find s j = Some a \<longrightarrow> as_id a = j \<and> asset_wf a \<and> addressed a" if "rows_ok s" for s
    using that asset_find_id by (fastforce simp: rows_ok_def)
  show "st_keeps rows_ok (f x)" if "\<forall>a. x = Some a \<longrightarrow> as_id a = j \<and> asset_wf a \<and> addressed a" for x
    using that assms by (cases x) auto
qed

lemma issue_ok: "st_keeps rows_ok (issue_ticket env fresh cmd now)"
proof -
  have "asset_wf a \<and> addressed a"
    if "reserve \<lparr>rp_id = fresh, rp_owner = ic_owner cmd, rp_kind = ic_kind cmd,
        rp_declared_mime = ic_declared_mime cmd, rp_declared_size = ic_declared_size cmd\<rparr>
        (constraints_for_kind (ic_kind cmd)) now = Inr a" for a
    using reserve_wf [of "\<lparr>rp_id = fresh, rp_owner = ic_owner cmd, rp_kind = ic_kind cmd,
        rp_declared_mime = ic_declared_mime cmd, rp_declared_size = ic_declared_size cmd\<rparr>" now a] that
      uploaded_no_renditions [of a] stage_live [of a]
    by (auto simp: addressed_def reserve_def bind_res_Inr_iff)
  then have "st_keeps rows_ok (issue_fresh env fresh cmd now)"
    unfolding issue_fresh_def Let_def
    by (intro keeps_bind_lift st_keeps_bind keeps modify_keeps rows_ok_save) auto
  then show ?thesis
    unfolding issue_ticket_def
    by (auto split: bool.split option.split intro!: keeps_bind_lift st_keeps_bind lift_keeps read_keeps)
qed

lemma finalize_addressed:
  "asset_wf a \<Longrightarrow> finalize p (constraints_for_kind (as_kind a)) now a = Inr b \<Longrightarrow> addressed b"
  using uploaded_no_renditions [of a] by (auto simp: finalize_Inr_iff addressed_def emit_def transition_def)

lemma commit_ok: "st_keeps rows_ok (commit_upload env cmd now)"
  unfolding commit_upload_def Let_def
  by (rule finds_ok; intro keeps_bind_lift st_keeps_bind keeps)
     (auto dest: finalize_step finalize_addressed)

lemma process_asset_ok: "st_keeps rows_ok (process_asset env j now)"
  unfolding process_asset_def
  by (rule finds_ok; intro keeps_bind_lift process_ok) auto

lemma transcode_asset_ok: "st_keeps rows_ok (transcode_asset env j now)"
  unfolding transcode_asset_def
  by (rule finds_ok; intro keeps_bind_lift process_ok) auto

lemma moderation_prepare_ok:
  assumes "moderation_prepare env act a now s = (Inr b, s')" "asset_wf a" "addressed a"
  shows "asset_wf b \<and> addressed b"
proof -
  have "(case act of ActQuarantine \<Rightarrow> quarantine now a | ActRestore \<Rightarrow> restore now a) = Inr b"
    using assms(1) by (auto simp: moderation_prepare_def st_Inr_iffs)
  then have "quarantine now a = Inr b \<or> restore now a = Inr b" by (cases act) simp_all
  then show ?thesis
    using quarantine_step [OF assms(2)] restore_step [OF assms(2)] takedown_ops_keep(1,2) addressed_keeps [OF assms(3)] by blast
qed

lemma moderation_ok: "st_keeps rows_ok (apply_moderation env j act now)"
  unfolding apply_moderation_def
proof (rule finds_ok)
  fix a assume a: "asset_wf a" "addressed a"
  have "st_keeps rows_ok (moderation_prepare env act a now)"
    unfolding moderation_prepare_def by (intro keeps_bind_lift st_keeps_bind keeps)
  then have "st_keeps rows_ok (st_bind (moderation_prepare env act a now) (\<lambda>b.
      st_bind (persist_and_publish env b) (\<lambda>_. st_lift (Inr (True, Some (as_state b))))))"
  proof (rule keeps_bind_gives)
    show "asset_wf b \<and> addressed b" if "moderation_prepare env act a now s = (Inr b, s')" for s b s'
      using moderation_prepare_ok [OF that a] .
  qed (auto intro: st_keeps_bind [OF persist_ok lift_keeps])
  then show "st_keeps rows_ok (case Some a of None \<Rightarrow> st_lift (Inr (False, None))
     | Some a \<Rightarrow> st_bind (moderation_prepare env act a now) (\<lambda>b.
         st_bind (persist_and_publish env b) (\<lambda>_. st_lift (Inr (True, Some (as_state b))))))"
    by simp
qed (simp add: lift_keeps)

lemma delete_ok: "st_keeps rows_ok (delete_handle env j owner now)"
  unfolding delete_handle_def
  by (rule finds_ok; intro keeps_bind_lift st_keeps_bind keeps delete_object_keeps)
     (auto dest: delete_step takedown_ops_keep(3) intro: addressed_keeps)

lemma resolve_ok: "rows_ok s \<Longrightarrow> rows_ok (snd (resolve_delivery env j pref vis now s))"
  by (cases rule: load_delivery_cases [of env j now s])
     (simp_all add: resolve_delivery_def state_defs keeps_snd [OF cache_put_ok])

lemma media_serve_ok:
  assumes "rows_ok s"
  shows "rows_ok (media_serve env now r s)"
proof (cases r)
  case (Moderate j act)
  then show ?thesis using keeps_snd [OF moderation_ok assms] by simp
qed (use assms resolve_ok keeps_snd [OF issue_ok assms] keeps_snd [OF commit_ok assms] keeps_snd [OF process_asset_ok assms]
       keeps_snd [OF transcode_asset_ok assms]
       keeps_snd [OF delete_ok assms] in simp_all)

definition media_init :: media_state where
  "media_init = \<lparr>assets = [], objects = Map.empty, delivery_cache = Map.empty, published = []\<rparr>"

lemma media_run_ok: "rows_ok (media_run xs media_init)"
proof -
  have "rows_ok s \<Longrightarrow> rows_ok (media_run xs s)" for s
    by (induction xs arbitrary: s) (auto simp: media_run_def media_serve_ok)
  moreover have "rows_ok media_init" by (simp add: rows_ok_def media_init_def)
  ultimately show ?thesis by blast
qed

section \<open>Properties\<close>

lemma taken_down_resolves:
  assumes "taken_down i s"
  shows "\<exists>v s'. resolve_delivery env i pref vis now s = (Inr v, s') \<and> dm_renditions v = [] \<and> dm_degraded v"
proof -
  obtain a where "asset_find s i = Some a" using assms by (auto simp: taken_down_def)
  then obtain b s1 where "load_delivery env i now s = (Inr (Some b), s1)"
    by (cases rule: load_delivery_cases [of env i now s]) auto
  then have r: "resolve_delivery env i pref vis now s = (Inr (resolve_asset env b pref vis now), s1)"
    by (simp add: resolve_delivery_def state_defs)
  with resolve_down_view [OF assms r] show ?thesis by blast
qed

text \<open>
  C37. A takedown holds.  Once a moderation decision, the screen of the processing pipeline or the owner
  has taken an asset down, and whatever handlers run afterwards one after the other, under whatever
  faults, uploads and clocks, delivery of the asset answers with the placeholder only, from the table
  as from the cache, until a restore of this asset: the pipeline, a second commit and the warming of
  the cache never bring it back.
\<close>

theorem takedown_holds:
  assumes "apply_moderation env i ActQuarantine now s = (Inr (True, st), s1) \<or>
      process_asset env i now s = (Inr ProcQuarantined, s1) \<or>
      transcode_asset env i now s = (Inr ProcQuarantined, s1) \<or> delete_handle env i owner now s = (Inr True, s1)"
    and "list_all (\<lambda>(_, _, r). \<not> may_revive i r) xs"
  shows "\<exists>v s2. resolve_delivery env' i pref vis t (media_run xs s1) = (Inr v, s2) \<and>
    dm_renditions v = [] \<and> dm_degraded v"
proof -
  have "taken_down i s1"
    using assms(1) quarantine_takes_down screen_takes_down delete_takes_down by blast
  then show ?thesis using taken_down_resolves run_down assms(2) by blast
qed

definition sample_png :: bytes where "sample_png = [137, 80, 78, 71]"

text \<open>A small environment: every picture is eight by eight, and the digest is the first byte, repeated.\<close>

definition sample_media_env :: "int \<Rightarrow> (u32 \<times> u32) media_env" where
  "sample_media_env verdict =
     \<lparr>me_policy = \<lparr>upload_ticket_ttl = 900 * nanos_per_sec, signed_url_ttl = 300 * nanos_per_sec, dedup_enabled = False\<rparr>,
      me_uuid_str = (\<lambda>i. if i = 1 then ''a1'' else ''a2''),
      me_sha256_hex = (\<lambda>b. replicate 64 (if b = [] then CHR ''0'' else CHR ''F'')),
      me_guess_format = (\<lambda>_. Inr ''image/png''), me_decode = (\<lambda>_. Inr (8, 8)), me_width = fst, me_height = snd,
      me_resize = (\<lambda>_ img. img), me_jpeg = (\<lambda>_. Inr [255, 216]), me_blur = (\<lambda>_. Inr ''LKO2''),
      me_video_probe = (\<lambda>_ _ _. Inl (UnsupportedCodec [])),
      me_transcode = (\<lambda>store _ _. (Inl (UnsupportedCodec []), store)), me_infected = (\<lambda>_ _. Inr False),
      me_screen = (\<lambda>_ _ _. Some \<lparr>sr_verdict = verdict, sr_matched_categories = [], sr_match_reference = []\<rparr>),
      me_cdn_base = ''https://cdn/'', me_presign = (\<lambda>k _. k), me_object_fault = (\<lambda>_ _. None),
      me_cache_fault = None, me_publish_fault = (\<lambda>_. None)\<rparr>"

definition sample_issue :: "uuid \<Rightarrow> issue_command" where
  "sample_issue owner = \<lparr>ic_owner = owner, ic_kind = PostImage, ic_declared_mime = ''image/png'', ic_declared_size = 4,
     ic_content_sha256 = None\<rparr>"

definition sample_upload :: "uuid \<Rightarrow> uuid \<Rightarrow> (u32 \<times> u32) media_trace" where
  "sample_upload i owner =
     [(sample_media_env 1, 1, IssueTicket i (sample_issue owner)), (sample_media_env 1, 2, ClientPut i sample_png),
      (sample_media_env 1, 3, CommitUpload \<lparr>cm_asset = i, cm_content_sha256 = None\<rparr>)]"

definition sample_ready :: media_state where
  "sample_ready = media_run (sample_upload 1 7 @ [(sample_media_env 1, 4, ProcessAsset 1)]) media_init"

theorem takedown_holds_witness:
  "\<exists>s1. apply_moderation (sample_media_env 1) 1 ActQuarantine 5 sample_ready = (Inr (True, Some Quarantined), s1) \<and>
     (\<exists>v s2. resolve_delivery (sample_media_env 1) 1 None None 8
        (media_run [(sample_media_env 1, 6, ProcessAsset 1), (sample_media_env 1, 7, ResolveDelivery 1 None None)] s1) = (Inr v, s2) \<and>
        dm_renditions v = [] \<and> dm_degraded v)"
proof -
  let ?r = "apply_moderation (sample_media_env 1) 1 ActQuarantine 5 sample_ready"
  have "fst ?r = Inr (True, Some Quarantined)" by code_simp
  then have r: "?r = (Inr (True, Some Quarantined), snd ?r)" by (metis prod.collapse)
  show ?thesis
    using takedown_holds [OF disjI1 [OF r], of "[(sample_media_env 1, 6, ProcessAsset 1),
        (sample_media_env 1, 7, ResolveDelivery 1 None None)]" "sample_media_env 1" None None 8] r by auto
qed

lemma resolve_renditions_all:
  "resolve_renditions env None v now rs = (views, d) \<Longrightarrow> length views = length rs \<and> \<not> d"
  by (induction rs arbitrary: views d) (auto simp: cdn_resolve_def split: prod.splits visibility.splits)

lemma resolve_ready:
  assumes "as_state a = Ready"
  shows "dm_state (resolve_asset env a None vis now) = Ready \<and> \<not> dm_degraded (resolve_asset env a None vis now) \<and>
    length (dm_renditions (resolve_asset env a None vis now)) = length (renditions a)"
proof -
  let ?v = "case vis of Some v \<Rightarrow> v | None \<Rightarrow> Public"
  obtain views d where "resolve_renditions env None ?v now (renditions a) = (views, d)" by fastforce
  with resolve_renditions_all [OF this] assms show ?thesis by (simp add: resolve_asset_def is_deliverable_def)
qed

text \<open>A reader between the two writes of a takedown: it caches the asset as it was.\<close>

lemma reader_between_writes:
  assumes a: "asset_find s i = Some a" "as_state a = Ready" and cf: "me_cache_fault env = None"
    and prep: "moderation_prepare env ActQuarantine a t0 s = (Inr b, s1)"
    and mid: "resolve_delivery env i None None t1 s1 = (Inr v, s2)"
    and fin: "persist_and_publish env b s2 = (Inr (), s3)" and t: "t2 < t1 + cache_ttl"
  shows "asset_find s3 i = Some (stored b) \<and> as_state b = Quarantined \<and>
    resolve_delivery env i None None t2 s3 = (Inr (resolve_asset env (stored a) None None t2), s3)"
proof -
  have q: "quarantine t0 a = Inr b" and inv: "cache_invalidate env (as_id b) s = (Inr (), s1)"
    using prep by (auto simp: moderation_prepare_def st_Inr_iffs)
  have b: "as_id b = i" "as_state b = Quarantined" and i: "as_id a = i"
    using takedown_ops_keep(1) [OF q] asset_find_id [OF a(1)] by (auto simp: identity_def)
  have s1: "s1 = s\<lparr>delivery_cache := (delivery_cache s)(i := None)\<rparr>" using invalidate_state [OF inv] b by simp
  have "s2 = s1\<lparr>delivery_cache := (delivery_cache s1)(i \<mapsto> (stored a, t1 + cache_ttl))\<rparr>"
    using mid a(1) i cf by (auto simp: resolve_delivery_def load_delivery_def cache_get_def cache_put_def fail_with_def
        state_defs st_ignore_def s1)
  moreover obtain p where "s3 = (asset_save b s2)\<lparr>published := p\<rparr>" using persist_state [OF fin] by blast
  ultimately have "asset_find s3 i = Some (stored b)" "delivery_cache s3 i = Some (stored a, t1 + cache_ttl)"
    using b by simp_all
  then show ?thesis using b t cf
    by (simp add: resolve_delivery_def load_delivery_def cache_get_def fail_with_def state_defs)
qed

lemma process_ready_row:
  assumes "process_loaded env a now s = (Inr ProcReady, s')"
  shows "\<exists>c. asset_find s' (as_id a) = Some c \<and> as_state c = Ready"
proof -
  obtain derive where "process_clean env derive a now s = (Inr ProcReady, s')"
    using assms by (auto simp: process_loaded_def process_gate_def process_blocked_def Let_def st_Inr_iffs split: if_splits)
  then obtain a1 rs blur sa a2 a3 a4 sb where ops: "begin_processing now a = Inr a1" "set_blurhash blur now a1 = Inr a2"
      "attach_all rs now a2 = Inr a3" "mark_ready now a3 = Inr a4"
    and p: "persist_and_publish env a4 sa = (Inr (), sb)" and s': "s' = snd (cache_put env now a4 sb)"
    by (auto simp: process_clean_def st_Inr_iffs st_ignore_def split: prod.splits)
  have "as_id a4 = as_id a" "as_state a4 = Ready"
    using process_ops_keep(1) [OF ops(1)] process_ops_keep(2) [OF ops(2)] attach_all_keep [OF ops(3)]
      process_ops_keep(4) [OF ops(4)] by (simp_all add: identity_def)
  moreover have "asset_find s' j = asset_find sb j" for j
    unfolding s' by (cases "me_cache_fault env") (simp_all add: cache_put_def fail_with_def state_defs)
  ultimately show ?thesis using persist_state [OF p] by auto
qed

text \<open>
  C38. A takedown can be lost to an interleaving.  The row of an asset carries no version and the cache is
  dropped before the row is written.  A reader that runs between the two writes of a takedown caches
  the asset as it was: the row is quarantined, yet for the next hour delivery answers with every
  rendition.  And a pipeline run that loaded the asset before the takedown writes its own copy over the
  quarantined row: the asset is ready again.
\<close>

theorem takedown_races:
  assumes "asset_find s i = Some a" and "me_cache_fault env = None"
  shows "(as_state a = Ready \<and> moderation_prepare env ActQuarantine a t0 s = (Inr b, s1) \<and>
       resolve_delivery env i None None t1 s1 = (Inr v, s2) \<and> persist_and_publish env b s2 = (Inr (), s3) \<and>
       t2 < t1 + cache_ttl \<longrightarrow>
         (\<exists>c. asset_find s3 i = Some c \<and> as_state c = Quarantined) \<and>
         (\<exists>v'. resolve_delivery env i None None t2 s3 = (Inr v', s3) \<and> dm_state v' = Ready \<and> \<not> dm_degraded v' \<and>
            length (dm_renditions v') = length (renditions a))) \<and>
     (apply_moderation env i ActQuarantine t0 s = (Inr (True, Some Quarantined), r1) \<and>
       process_loaded env a t1 r1 = (Inr ProcReady, r2) \<longrightarrow>
         taken_down i r1 \<and> (\<exists>c. asset_find r2 i = Some c \<and> as_state c = Ready))"
proof (intro conjI impI; elim conjE)
  assume "as_state a = Ready" and h: "moderation_prepare env ActQuarantine a t0 s = (Inr b, s1)"
    "resolve_delivery env i None None t1 s1 = (Inr v, s2)" "persist_and_publish env b s2 = (Inr (), s3)" "t2 < t1 + cache_ttl"
  then have "as_state (stored a) = Ready" "renditions (stored a) = renditions a" by simp_all
  with reader_between_writes [OF assms(1) \<open>as_state a = Ready\<close> assms(2) h]
    resolve_ready [of "stored a" env None t2]
  show "\<exists>c. asset_find s3 i = Some c \<and> as_state c = Quarantined"
    "\<exists>v'. resolve_delivery env i None None t2 s3 = (Inr v', s3) \<and> dm_state v' = Ready \<and> \<not> dm_degraded v' \<and>
       length (dm_renditions v') = length (renditions a)" by auto
next
  assume m: "apply_moderation env i ActQuarantine t0 s = (Inr (True, Some Quarantined), r1)"
    and p: "process_loaded env a t1 r1 = (Inr ProcReady, r2)"
  show "taken_down i r1" by (rule quarantine_takes_down [OF m])
  show "\<exists>c. asset_find r2 i = Some c \<and> as_state c = Ready"
    using process_ready_row [OF p] asset_find_id [OF assms(1)] by simp
qed

definition sample_uploaded :: media_state where
  "sample_uploaded = media_run (sample_upload 1 7) media_init"

text \<open>The two interleavings, run on a state.\<close>

definition reader_race :: "'i media_env \<Rightarrow> media_state \<Rightarrow> media_state option" where
  "reader_race env s =
     (case asset_find s 1 of
        None \<Rightarrow> None
      | Some a \<Rightarrow>
         if as_state a \<noteq> Ready then None
         else case moderation_prepare env ActQuarantine a 5 s of
           (Inl _, _) \<Rightarrow> None
         | (Inr b, s1) \<Rightarrow>
            (case resolve_delivery env 1 None None 6 s1 of
               (Inl _, _) \<Rightarrow> None
             | (Inr _, s2) \<Rightarrow> (case persist_and_publish env b s2 of (Inl _, _) \<Rightarrow> None | (Inr _, s3) \<Rightarrow> Some s3)))"

definition pipeline_race :: "'i media_env \<Rightarrow> media_state \<Rightarrow> (media_state \<times> media_state) option" where
  "pipeline_race env s =
     (case asset_find s 1 of
        None \<Rightarrow> None
      | Some a \<Rightarrow>
         (case apply_moderation env 1 ActQuarantine 5 s of
            (Inr (True, Some Quarantined), r1) \<Rightarrow>
              (case process_loaded env a 6 r1 of (Inr ProcReady, r2) \<Rightarrow> Some (r1, r2) | _ \<Rightarrow> None)
          | _ \<Rightarrow> None))"

theorem takedown_races_witness:
  "(\<exists>s3 c v. reader_race (sample_media_env 1) sample_ready = Some s3 \<and> asset_find s3 1 = Some c \<and> as_state c = Quarantined \<and>
      resolve_delivery (sample_media_env 1) 1 None None 7 s3 = (Inr v, s3) \<and> dm_state v = Ready) \<and>
   (\<exists>r1 r2 c. pipeline_race (sample_media_env 1) sample_uploaded = Some (r1, r2) \<and> taken_down 1 r1 \<and>
      asset_find r2 1 = Some c \<and> as_state c = Ready)"
proof
  let ?env = "sample_media_env 1"
  have cf: "me_cache_fault ?env = None" "7 < (6 :: int) + cache_ttl"
    by (simp_all add: sample_media_env_def cache_ttl_def nanos_per_sec_def)
  have "\<not> Option.is_none (reader_race ?env sample_ready)" by code_simp
  then obtain s3 where s3: "reader_race ?env sample_ready = Some s3" by (auto simp: Option.is_none_def)
  then obtain a b s1 v s2 where a: "asset_find sample_ready 1 = Some a" and "as_state a = Ready"
      "moderation_prepare ?env ActQuarantine a 5 sample_ready = (Inr b, s1)"
      "resolve_delivery ?env 1 None None 6 s1 = (Inr v, s2)" "persist_and_publish ?env b s2 = (Inr (), s3)"
    by (auto simp: reader_race_def split: option.splits if_splits prod.splits sum.splits)
  with takedown_races [OF a cf(1), of 5 b s1 6 v s2 s3 7, THEN conjunct1] cf(2) s3
  show "\<exists>s3 c v. reader_race ?env sample_ready = Some s3 \<and> asset_find s3 1 = Some c \<and> as_state c = Quarantined \<and>
      resolve_delivery ?env 1 None None 7 s3 = (Inr v, s3) \<and> dm_state v = Ready" by blast
  have "\<not> Option.is_none (pipeline_race ?env sample_uploaded)" by code_simp
  then obtain r1 r2 where r: "pipeline_race ?env sample_uploaded = Some (r1, r2)" by (auto simp: Option.is_none_def)
  then obtain a where a: "asset_find sample_uploaded 1 = Some a" and
      "apply_moderation ?env 1 ActQuarantine 5 sample_uploaded = (Inr (True, Some Quarantined), r1)"
      "process_loaded ?env a 6 r1 = (Inr ProcReady, r2)"
    by (auto simp: pipeline_race_def
        split: option.splits prod.splits sum.splits bool.splits asset_state.splits process_outcome.splits)
  with takedown_races [OF a cf(1), of 5 _ _ 6 _ _ _ _ r1 r2, THEN conjunct2] r
  show "\<exists>r1 r2 c. pipeline_race ?env sample_uploaded = Some (r1, r2) \<and> taken_down 1 r1 \<and>
      asset_find r2 1 = Some c \<and> as_state c = Ready" by blast
qed

lemma delete_objects_state:
  "st_each (delete_object env) ks s = (Inr u, s') \<Longrightarrow>
   assets s' = assets s \<and> (\<forall>k. objects s' k = (if k \<in> set ks then None else objects s k))"
  by (induction ks arbitrary: s)
     (fastforce simp: st_Inr_iffs delete_object_def fail_with_def split: if_splits)+

lemma each_succeeds: "(\<And>x s. \<exists>s'. f x s = (Inr (), s')) \<Longrightarrow> \<exists>s'. st_each f xs s = (Inr (), s')"
  by (induction xs arbitrary: s) (auto simp: st_Inr_iffs, blast)

definition no_faults :: "'i media_env \<Rightarrow> bool" where
  "no_faults env \<longleftrightarrow> me_object_fault env = (\<lambda>_ _. None) \<and> me_cache_fault env = None \<and> me_publish_fault env = (\<lambda>_. None)"

lemma adapters_succeed:
  assumes "no_faults env"
  shows "\<exists>s'. delete_object env k s = (Inr (), s')" "\<exists>s'. cache_invalidate env i s = (Inr (), s')"
    "\<exists>s'. publish_event env e s = (Inr (), s')"
  using assms by (simp_all add: no_faults_def delete_object_def cache_invalidate_def publish_event_def fail_with_def state_defs)

lemma persist_succeeds:
  assumes "no_faults env"
  shows "\<exists>s'. persist_and_publish env a s = (Inr (), s')"
  using each_succeeds [where f = "publish_event env" and xs = "as_pending a" and s = "asset_save a s",
      OF adapters_succeed(3) [OF assms]]
  by (simp add: persist_and_publish_def st_bind_def st_modify_def)

lemma delete_succeeds:
  assumes "no_faults env" "asset_find s i = Some a" "as_owner a = owner" "\<not> legal_hold a"
  shows "\<exists>s1. delete_handle env i owner now s = (Inr True, s1)"
proof -
  obtain b where b: "delete_asset now a = Inr b" using assms(4) by (cases "as_state a = Deleted") (auto simp: delete_asset_def)
  obtain s1 where s1: "st_each (delete_object env) (map rn_key (renditions b) @ [staging_key (me_uuid_str env) (as_id b)]) s = (Inr (), s1)"
    using each_succeeds [where f = "delete_object env", OF adapters_succeed(1) [OF assms(1)]] by blast
  obtain s2 where s2: "cache_invalidate env (as_id b) s1 = (Inr (), s2)" using adapters_succeed(2) [OF assms(1)] by blast
  obtain s3 where s3: "persist_and_publish env b s2 = (Inr (), s3)" using persist_succeeds [OF assms(1)] by blast
  have "delete_handle env i owner now s = (Inr True, s3)"
    using assms(2,3) b s1 s2 s3 by (simp add: delete_handle_def st_bind_def st_lift_def st_read_def)
  then show ?thesis by blast
qed

text \<open>
  C39. Deleting an asset deletes the bytes of others.  The key of a rendition is made of the kind, the
  content hash and the variant only, so two assets of one image kind with the same bytes share their
  objects, also with deduplication switched off.  In every state the service reaches: when one of two
  such ready assets is deleted by its owner, the object of the master rendition of the other is gone,
  while its row is still ready and delivery still answers with its URLs, not degraded.
\<close>

theorem delete_purges_shared_bytes:
  assumes "s = media_run xs media_init" and "delete_handle env i owner now s = (Inr True, s1)"
    and "asset_find s i = Some a" "asset_find s j = Some b" "i \<noteq> j"
    and "as_state a = Ready" "as_state b = Ready" "as_kind a = as_kind b" "as_content_hash a = as_content_hash b"
    and "as_kind a \<noteq> Video"
  shows "asset_find s1 j = Some b \<and>
    (\<exists>r. find_rendition (master_kind (as_kind b)) b = Some r \<and> objects s1 (rn_key r) = None) \<and>
    (let v = resolve_asset env b None None t in
       \<not> dm_degraded v \<and> length (dm_renditions v) = length (renditions b))"
proof -
  have ok: "asset_wf a" "addressed a" "asset_wf b" "addressed b"
    using media_run_ok [of xs] assms(1,3,4) asset_find_id by (auto simp: rows_ok_def)
  obtain ra rb where ra: "find_rendition (master_kind (as_kind b)) a = Some ra"
    and rb: "find_rendition (master_kind (as_kind b)) b = Some rb"
    using asset_wf_stage [OF ok(1)] asset_wf_stage [OF ok(3)] assms(6-8) by auto
  have in_set: "ra \<in> set (renditions a)" "rb \<in> set (renditions b)" "rn_kind ra = rn_kind rb"
    using ra rb by (auto simp: find_rendition_def find_Some_iff)
  then have key: "rn_key ra = rn_key rb"
    using ok(2,4) assms(8-10) by (auto simp: addressed_def)
  obtain d sa sb where d: "delete_asset now a = Inr d"
    and del: "st_each (delete_object env) (map rn_key (renditions d) @ [staging_key (me_uuid_str env) (as_id d)]) s = (Inr (), sa)"
    and inv: "cache_invalidate env (as_id d) sa = (Inr (), sb)" and p: "persist_and_publish env d sb = (Inr (), s1)"
    using assms(2,3) by (auto simp: delete_handle_def st_Inr_iffs)
  have dk: "renditions d = renditions a" "as_id d = i"
    using takedown_ops_keep(3) [OF d] asset_find_id [OF assms(3)] by (auto simp: identity_def)
  have sa: "assets sa = assets s" "objects sa (rn_key rb) = None"
    using delete_objects_state [OF del] in_set(1) key dk(1) by (simp_all add: rev_image_eqI)
  obtain q where s1: "s1 = (asset_save d sb)\<lparr>published := q\<rparr>" using persist_state [OF p] by blast
  have "asset_find sb j = Some b" using invalidate_state [OF inv] sa(1) assms(4) by (simp add: asset_find_def)
  then have "asset_find s1 j = Some b" "objects s1 (rn_key rb) = None"
    using s1 invalidate_state [OF inv] sa(2) dk(2) assms(5) by simp_all
  then show ?thesis using rb resolve_ready [OF assms(7), of env None t] by (simp add: Let_def)
qed

definition sample_twins :: "(u32 \<times> u32) media_trace" where
  "sample_twins = sample_upload 1 7 @ sample_upload 2 8 @
     [(sample_media_env 1, 4, ProcessAsset 1), (sample_media_env 1, 5, ProcessAsset 2)]"

definition twins_ready :: "media_state \<Rightarrow> bool" where
  "twins_ready s =
     (case asset_find s 1 of
        None \<Rightarrow> False
      | Some a \<Rightarrow>
         (case asset_find s 2 of
            None \<Rightarrow> False
          | Some b \<Rightarrow> as_state a = Ready \<and> as_state b = Ready \<and> as_kind a = as_kind b \<and>
              as_content_hash a = as_content_hash b \<and> as_kind a \<noteq> Video \<and> as_owner a = 7 \<and> \<not> legal_hold a))"

theorem delete_purges_shared_bytes_witness:
  "\<exists>s1 b r. delete_handle (sample_media_env 1) 1 7 6 (media_run sample_twins media_init) = (Inr True, s1) \<and>
     asset_find s1 2 = Some b \<and> as_state b = Ready \<and>
     find_rendition (master_kind (as_kind b)) b = Some r \<and> objects s1 (rn_key r) = None"
proof -
  let ?env = "sample_media_env 1" and ?s = "media_run sample_twins media_init"
  have "twins_ready ?s" by code_simp
  then obtain a b where h: "asset_find ?s 1 = Some a" "asset_find ?s 2 = Some b" "as_state a = Ready" "as_state b = Ready"
    "as_kind a = as_kind b" "as_content_hash a = as_content_hash b" "as_kind a \<noteq> Video" "as_owner a = 7" "\<not> legal_hold a"
    by (auto simp: twins_ready_def split: option.splits)
  have "no_faults ?env" by (simp add: no_faults_def sample_media_env_def)
  from delete_succeeds [OF this h(1,8,9)] obtain s1 where d: "delete_handle ?env 1 7 6 ?s = (Inr True, s1)" by blast
  have "(1 :: uuid) \<noteq> 2" by simp
  from delete_purges_shared_bytes [OF refl d h(1,2) this h(3-7)] d h(4) show ?thesis by blast
qed

end
