(* ===== verification/Spec2Isabelle.thy ===== *)
theory Spec2Isabelle
  imports Retry AuditWriters CounterTiers SignIn Traffic MediaSafety
begin

text \<open>
  Verification of the core platform, a backend of Rust services under \<open>src/crates\<close>: shared
  middleware (\<open>foundation\<close>, \<open>platform\<close>), storage crates (\<open>storage\<close>) and one crate per service
  (\<open>services\<close>).  Every service has the same layers: a domain of value objects and aggregates, use cases
  over ports, and adapters that implement the ports on Postgres, Redis, Scylla, S3, Kafka or gRPC.

  \<^bold>\<open>How the model reads.\<close>  \<open>u8\<close> to \<open>u64\<close> are words, a UUID is a word of 128 bits, \<open>i64\<close> is an integer with
  the wrapping or the range check written out where a value can leave its range (the version counters of
  rows, which count saves from 0, are unbounded), an instant is an integer count of nanoseconds, a \<open>String\<close> is its list of
  bytes.  A \<open>Result\<close> is a sum with the error on the left.  A handler maps a state to an answer and a new
  state, composed with the state operations of \<open>Prelude\<close>, so that what was written before an error stays
  written.  Ports are fields of an environment record; fresh ids, clocks and random draws are arguments.
  A remote call that fails may have been executed (\<open>remote_call\<close> of \<open>Prelude\<close>, used for the Redis scripts).

  \<^bold>\<open>Theories.\<close>
  \<^item> \<open>Prelude\<close>: numbers, strings and UTF-8, results and state steps, and the contracts of an aggregate
    that keeps an invariant, absorbs, or follows a graph of states (locales \<open>aggregate\<close>,
    \<open>absorbing_aggregate\<close>, \<open>lifecycle\<close>; interpreted by accounts, sessions, refresh tokens and assets).
  \<^item> \<open>CircuitBreaker\<close>, \<open>Retry\<close> (\<open>foundation/resilience\<close>): the breaker as a state machine, one call
    through it, and the step relation of many concurrent calls and cancellations; backoff and the retry
    loop.  Shown: the breaker's invariant under every interleaving, when it trips, when it closes and when its
    held slots keep it open, how a timeout outside it loses its probe slot, that the retry loop returns, and the delay bounds.
  \<^item> \<open>AppError\<close>, \<open>StorageErrors\<close> (\<open>foundation/error\<close>, \<open>foundation/validate-core\<close>, \<open>storage\<close>): severities,
    the answers an error gives, the classification of driver errors.
  \<^item> \<open>AuditCanonical\<close>, \<open>AuditChain\<close>, \<open>AuditLedger\<close>, \<open>AuditWriters\<close> (\<open>services/audit\<close>): the canonical bytes
    (locale \<open>self_delimiting\<close>), hash chain, records, checkpoints and retention; commit, verify, shred,
    ingest and query over the Postgres ledger (locale \<open>ledger_store\<close>); and any number of workers
    committing at once, each await a step.  Shown: the bytes bind the event, a verified history is bound
    to its head up to an explicit collision, exactly-once commits, chains under concurrency, what
    erasure and legal holds do.
  \<^item> \<open>Counter\<close>, \<open>CounterTiers\<close> (\<open>services/counter\<close>): the window aggregator; flush, reconcile and the
    queries over the ledger, the hot store and the time series (locale \<open>window_ledger\<close>).  Shown: drains
    are exact, a window is counted once, what a failed hot write loses and what reconciliation corrects.
  \<^item> \<open>AuthSession\<close>, \<open>AuthFlows\<close>, \<open>AuthSafety\<close> (\<open>services/auth\<close>): the aggregates, the six use cases over
    Postgres and Redis (locale \<open>auth_invariant\<close>, with reachability over all use cases).  Shown: a refresh
    token works once, logouts are final, session lifetimes, the refusal at the absolute cap.
  \<^item> \<open>Account\<close>, \<open>AccountLife\<close>, \<open>AccountStore\<close>, \<open>AccountService\<close> (\<open>services/account\<close>): the aggregate, its
    table with version check and row encoding, and all command handlers.  \<open>OptimisticStore\<close> has the
    contract of a versioned store (locale \<open>occ_store\<close>) and proves serialisation once; the accounts table
    interprets it.  Shown: the life cycle command by command, permanence of erasure, the typed table and
    what a row loses, refinement of every handler by its domain command, and serialisation of concurrent
    handlers.
  \<^item> \<open>Cqrs\<close> (\<open>platform/cqrs\<close>, \<open>platform/validation\<close>): the command registry and its layers.
    Shown: what every stack of layers does with new, repeated and invalid commands.
  \<^item> \<open>Traffic\<close> (\<open>foundation/traffic\<close>, \<open>foundation/infra-config\<close>, \<open>platform/traffic-redis\<close> and the traffic
    layer of \<open>platform/transport\<close>): profiles, leases, the Redis claim script and the path of a request
    through them.  Shown: leases admit no more than the budget of a window, and what a fleet admits beside
    them when Redis fails.
  \<^item> \<open>MediaAsset\<close>, \<open>MediaService\<close>, \<open>MediaSafety\<close> (\<open>services/media\<close>): the Asset aggregate; the table, the
    object store, the delivery cache and every handler and consumer; runs of requests.  Shown: the life
    cycle of an asset, that a takedown holds when handlers run one after the other and is lost to two
    interleavings, and that deleting an asset deletes the bytes another asset shares with it.
  \<^item> \<open>SignIn\<close>: auth calling account, from the directory adapter of auth through the gRPC entries to the
    accounts table.  The two properties of this theory span both services.

  \<^bold>\<open>How the parts interact.\<close>  Account handlers run on the bare \<open>Cqrs\<close> bus (no validation layer is
  installed, see \<open>AccountService\<close>) and answer with \<open>AppError\<close> values; auth reads account through \<open>SignIn\<close>;
  the audit consumer shreds on the deletion requests that account publishes; media reads the verdicts of
  moderation through its screen and its consumer; the traffic layer decides before a gRPC handler runs.

  \<^bold>\<open>Loops.\<close>  No definition has fuel.  The append loop of a commit and the splitting of a string into UTF-8
  characters are total with a measure; the retry loop is a partial function into option, and
  \<open>Retry\<close> proves that it returns; the remaining loops are recursions over their data.

  \<^bold>\<open>Assumptions.\<close>  SHA-256, token signing, codecs and Unicode case maps are parameters; where a property
  needs a law of one of them the law is a hypothesis of it (case mapping is idempotent, a printed UUID
  parses to itself).  A database statement is atomic and its connection is not lost, except where an
  availability flag or a fault is part of the state, of a step or of the environment.  Timestamps of the
  accounts table are cut to what its columns keep (\<open>column_time\<close>); those of the other tables survive their
  columns unchanged.  Dates stay in the range of \<open>chrono\<close>, beyond which its additions panic.  In \<open>Traffic\<close> the replica clocks agree with the clock of Redis to half a second.

  \<^bold>\<open>Not modelled.\<close>  The services post, comment, engagement, profile, social-graph, geo-discovery, chat,
  timeline, notification, realtime, search and moderation, which are built from the same layers and have
  not been translated.  Service binaries, telemetry, health endpoints, configuration watching and
  connection pools: wiring and I/O.  The Kafka runner and the outbox relays, and the wire decoding of
  events except where a consumer's mapping is a definition.  The AEAD cipher, KMS and JWKS.  The governor
  limiter, the S3 protocol and the two media adapters that run ffmpeg, which are parameters.  The query
  bus and the tracing layer of \<open>platform/cqrs\<close>.  Deployment files.
\<close>

section \<open>Properties across services\<close>

definition no_accounts :: account_db where
  "no_accounts = \<lparr>acc_rows = [], acc_published = []\<rparr>"

lemma accounts_reachable: "case_maps_idempotent env \<Longrightarrow> accounts_ok env (fold (serve env) xs no_accounts)"
  unfolding no_accounts_def by (rule serve_all_ok)

text \<open>
  C24. Auth follows account.  Let auth look accounts up over gRPC in an account service that has handled
  any requests.  Whenever a login or a refresh hands out a session, the account it names is in the
  accounts table and active at that moment, and the access token is minted with exactly the names of
  its roles, what those roles grant and its own overrides, as they are stored now: a role that was
  revoked since the last token is gone from the next one.
\<close>

theorem sign_in_follows_account:
  assumes "case_maps_idempotent (dl_env l)" and "tbl = fold (serve (dl_env l)) xs no_accounts"
    and "acc_parse_uuid (dl_env l) (uuid_str env (is_account x)) = Some (is_account x)"
    and "login_handle (wired env l tbl) cmd corr now s = (Inr x, s') \<or>
      refresh_handle (wired env l tbl) rcmd corr now s = (Inr x, s')"
  shows "\<exists>a c. account_load (dl_env l) tbl (is_account x) = Some a \<and> acc_status a = Active \<and>
    mint_access env c = Inr (is_access_token x) \<and> set (cl_permissions c) = token_grants a"
  using sign_in_active [OF accounts_reachable [OF assms(1), of xs, folded assms(2)] assms(3,4)] .

lemma sample_session:
  obtains x s' where
    "login_handle (wired sample_provider sample_link (fold (serve ascii_env) sample_members no_accounts)) sample_login 5 1000000000
       no_sessions = (Inr x, s')"
    "is_account x = 1" "is_access_token x = ''adminaudit:readaudit:verifyuser''"
proof -
  let ?db = "fold (serve ascii_env) sample_members no_accounts"
  have "map_option (\<lambda>x. (is_account x, is_access_token x)) (case sample_sign_in ?db of Inr x \<Rightarrow> Some x | Inl _ \<Rightarrow> None)
      = Some (1, ''adminaudit:readaudit:verifyuser'')"
    by code_simp
  then show ?thesis
    using that unfolding sample_sign_in_def
    by (cases "login_handle (wired sample_provider sample_link ?db) sample_login 5 1000000000 no_sessions")
       (auto split: sum.splits)
qed

theorem sign_in_follows_account_witness:
  "\<exists>a (c :: access_token_claims). account_load ascii_env (fold (serve ascii_env) sample_members no_accounts) 1 = Some a \<and> acc_status a = Active \<and>
     concat (cl_permissions c) = ''adminaudit:readaudit:verifyuser'' \<and> set (cl_permissions c) = token_grants a"
proof -
  obtain x s' where x: "login_handle (wired sample_provider sample_link (fold (serve ascii_env) sample_members no_accounts))
      sample_login 5 1000000000 no_sessions = (Inr x, s')"
    "is_account x = 1" "is_access_token x = ''adminaudit:readaudit:verifyuser''"
    by (rule sample_session)
  have link: "dl_env sample_link = ascii_env" by (simp add: sample_link_def)
  have "acc_parse_uuid ascii_env (uuid_str sample_provider (is_account x)) = Some (is_account x)"
    using x(2) by (simp add: ascii_env_def sample_provider_def)
  from sign_in_follows_account [of sample_link, unfolded link, OF ascii_case_maps refl this disjI1 [OF x(1)]]
  show ?thesis using x(2,3) by (auto simp: sample_provider_def)
qed

text \<open>
  C25. Taking an account out of service ends its sign-ins.  After the account service has suspended,
  deactivated or anonymised an account, and whatever requests it handles next other than a
  reactivation or an e-mail verification of this account, neither a login nor a refresh hands out a
  session for it, whatever sessions, refresh tokens and links auth still has.
\<close>

theorem retired_account_cannot_sign_in:
  assumes "case_maps_idempotent (dl_env l)" and "acc_parse_uuid (dl_env l) (uuid_str env i) = Some i"
    and "retires (dl_env l) i req"
      "account_handle (dl_env l) rq req (fold (serve (dl_env l)) ys no_accounts) = (Inr (), tbl)"
    and "list_all (\<lambda>x. \<not> reinstates (dl_env l) i (snd x)) xs"
  shows "(\<forall>x s'. login_handle (wired env l (fold (serve (dl_env l)) xs tbl)) cmd corr now s = (Inr x, s') \<longrightarrow> is_account x \<noteq> i) \<and>
    (\<forall>x s'. refresh_handle (wired env l (fold (serve (dl_env l)) xs tbl)) rcmd corr now s = (Inr x, s') \<longrightarrow> is_account x \<noteq> i)"
proof -
  let ?db = "fold (serve (dl_env l)) xs tbl"
  have "accounts_ok (dl_env l) tbl \<and> inactive (dl_env l) i tbl"
    by (rule retire_deactivates [OF accounts_reachable [OF assms(1)] assms(3,4)])
  then have tbl: "accounts_ok (dl_env l) ?db" "inactive (dl_env l) i ?db"
    using run_stays_inactive [OF assms(1) _ _ assms(5)] by blast+
  have "is_account x \<noteq> i"
    if "login_handle (wired env l ?db) cmd corr now s = (Inr x, s') \<or> refresh_handle (wired env l ?db) rcmd corr now s = (Inr x, s')"
    for x s'
    using sign_in_active [OF tbl(1) _ that] assms(2) tbl(2) by (auto simp: inactive_def)
  then show ?thesis by blast
qed

theorem retired_account_cannot_sign_in_witness:
  "is_ok (sample_sign_in (fold (serve ascii_env) sample_members no_accounts)) \<and>
   (\<exists>tbl. account_handle ascii_env (sample_ctx 4000) (SuspendAccountCommand ''u1'' ''spam'')
       (fold (serve ascii_env) sample_members no_accounts) = (Inr (), tbl) \<and>
     \<not> (\<exists>x s'. login_handle (wired sample_provider sample_link (fold (serve ascii_env)
           [(sample_ctx 5000, RevokeRoleCommand ''u1'' ''admin'')] tbl)) sample_login 5 1000000000 no_sessions = (Inr x, s') \<and>
         is_account x = 1))"
proof -
  let ?db0 = "fold (serve ascii_env) sample_members no_accounts"
  have "fst (account_handle ascii_env (sample_ctx 4000) (SuspendAccountCommand ''u1'' ''spam'') ?db0) = Inr ()" by code_simp
  then obtain tbl where run: "account_handle ascii_env (sample_ctx 4000) (SuspendAccountCommand ''u1'' ''spam'') ?db0 = (Inr (), tbl)"
    by (metis prod.collapse)
  have link: "dl_env sample_link = ascii_env" by (simp add: sample_link_def)
  have ids: "acc_parse_uuid ascii_env (uuid_str sample_provider 1) = Some 1"
    "retires ascii_env 1 (SuspendAccountCommand ''u1'' ''spam'')"
    by (simp_all add: ascii_env_def sample_provider_def)
  have quiet: "list_all (\<lambda>x. \<not> reinstates ascii_env 1 (snd x)) [(sample_ctx 5000, RevokeRoleCommand ''u1'' ''admin'')]" by simp
  have "is_ok (sample_sign_in ?db0)" by (rule sample_session) (simp add: sample_sign_in_def)
  then show ?thesis
    using retired_account_cannot_sign_in [of sample_link, unfolded link, OF ascii_case_maps ids run quiet] run by blast
qed

end
